theory Spec2Isabelle
  imports Complex_Main "HOL-Library.AList" "HOL-Library.Multiset"
begin

section \<open>The CTA backtesting engine of vnpy\<close>

text \<open>
  A shallow embedding of \<^verbatim>\<open>vnpy/app/cta_strategy/backtesting.py\<close> and of the order
  entry points of \<^verbatim>\<open>vnpy/app/cta_strategy/template.py\<close>.

  Conventions of the embedding.
  \<^item> Python floats are modelled by \<^typ>\<open>real\<close>: comparisons, \<open>min\<close> and \<open>max\<close> are exact
    on floats, while sums and products are idealised (no rounding, no infinities, no NaN).
  \<^item> Every \<^verbatim>\<open>raise\<close> of the source is a value: functions that can raise return
    \<open>error + 'a\<close> (pure code) or an \<open>outcome\<close> that keeps the engine as it was when the
    exception left (stateful code, which mutates objects in place).
  \<^item> Several classes of the source share attribute names (\<^verbatim>\<open>price\<close>, \<^verbatim>\<open>datetime\<close>,
    \<^verbatim>\<open>close_price\<close>, ...). Record fields are global names in HOL, so the fields of
    \<^verbatim>\<open>OrderData\<close>, \<^verbatim>\<open>TradeData\<close>, \<^verbatim>\<open>StopOrder\<close>, \<^verbatim>\<open>BarData\<close>, \<^verbatim>\<open>TickData\<close> and
    \<^verbatim>\<open>DailyResult\<close> carry the prefixes \<open>order_\<close>, \<open>trade_\<close>, \<open>stop_\<close>, \<open>bar_\<close>, \<open>tick_\<close>
    and \<open>dr_\<close>; the attributes of the engine keep their names.
\<close>

subsection \<open>Constants and exceptions\<close>

text \<open>
  The enumerations of \<^verbatim>\<open>vnpy.trader.constant\<close> and \<^verbatim>\<open>cta_strategy.base\<close> are not part
  of the files at hand; their members are those the specification lists.
\<close>

datatype direction = LONG | SHORT

datatype offset = NONE | OPEN | CLOSE | CLOSETODAY

datatype status = SUBMITTING | NOTTRADED | PARTTRADED | ALLTRADED | CANCELLED | REJECTED

datatype stop_order_status = WAITING | TRIGGERED | STOP_CANCELLED

datatype rate_type = FIXED | FLOAT

datatype backtesting_mode = BAR | TICK

datatype error =
    KeyError
  | IndexError
  | ZeroDivisionError
  | AttributeError
  | TypeError
  | NameError string
  | RecursionError
  | StrategyError string

subsection \<open>Grid search: \<^verbatim>\<open>OptimizationSetting.generate_setting\<close> and \<^verbatim>\<open>run_optimization\<close>\<close>

text \<open>
  \<^verbatim>\<open>params\<close> is a dictionary from parameter names to value lists, kept in insertion order;
  a setting is a dictionary from parameter names to values.
\<close>

type_synonym setting = "(string \<times> real) list"

text \<open>\<^verbatim>\<open>itertools.product(*values)\<close>: the last list varies fastest.\<close>

fun product_of :: "'a list list \<Rightarrow> 'a list list" where
  "product_of [] = [[]]"
| "product_of (vs # vss) = concat (map (\<lambda>v. map ((#) v) (product_of vss)) vs)"

definition generate_setting :: "(string \<times> real list) list \<Rightarrow> setting list" where
  "generate_setting params =
     map (\<lambda>p. zip (map fst params) p) (product_of (map snd params))"

text \<open>
  One entry of the search result: \<^verbatim>\<open>(str(setting), target_value, statistics)\<close>, as
  \<^verbatim>\<open>optimize\<close> returns it.
\<close>

type_synonym 'st search_result = "string \<times> real \<times> 'st"

definition target_value :: "'st search_result \<Rightarrow> real" where
  "target_value r = fst (snd r)"

text \<open>
  \<^verbatim>\<open>list.sort(reverse=True, key=...)\<close>: Python reverses the list, sorts it stably in
  ascending order of the key and reverses it again, so elements with equal keys keep
  their order.
\<close>

definition sort_reverse :: "('a \<Rightarrow> real) \<Rightarrow> 'a list \<Rightarrow> 'a list" where
  "sort_reverse key xs = rev (sort_key key (rev xs))"

text \<open>\<^verbatim>\<open>[result.get() for result in results]\<close>: the first worker that raised re-raises.\<close>

fun get_all :: "(error + 'a) list \<Rightarrow> error + 'a list" where
  "get_all [] = Inr []"
| "get_all (Inl e # rs) = Inl e"
| "get_all (Inr x # rs) = (case get_all rs of Inl e \<Rightarrow> Inl e | Inr xs \<Rightarrow> Inr (x # xs))"

text \<open>
  \<^verbatim>\<open>run_optimization\<close>. The worker \<^verbatim>\<open>optimize\<close> (a whole backtest of one setting) is a
  parameter; the pool runs the workers in parallel, and the results are collected in the
  order of the settings. The function returns \<^verbatim>\<open>None\<close> without running anything when
  the grid is empty or no target is set.
\<close>

definition run_optimization ::
  "(string \<Rightarrow> setting \<Rightarrow> error + 'st search_result) \<Rightarrow> (string \<times> real list) list \<Rightarrow> string
     \<Rightarrow> error + 'st search_result list option" where
  "run_optimization optimize params target_name =
     (let settings = generate_setting params in
      if settings = [] then Inr None
      else if target_name = [] then Inr None
      else case get_all (map (optimize target_name) settings) of
             Inl e \<Rightarrow> Inl e
           | Inr result_values \<Rightarrow> Inr (Some (sort_reverse target_value result_values)))"

text \<open>The two readings of "sorted in descending order" of a result list.\<close>

definition descending :: "'st search_result list \<Rightarrow> bool" where
  "descending rs = sorted_wrt (\<lambda>a b. target_value a \<ge> target_value b) rs"

definition strictly_descending :: "'st search_result list \<Rightarrow> bool" where
  "strictly_descending rs = sorted_wrt (\<lambda>a b. target_value a > target_value b) rs"

text \<open>
  Scenario S6 of the specification: a grid of three settings whose workers report the
  target values \<open>A: 1.0\<close>, \<open>B: 3.0\<close>, \<open>C: 2.0\<close>.
\<close>

definition grid_s6 :: "(string \<times> real list) list" where
  "grid_s6 = [(''window'', [1, 2, 3])]"

definition worker_s6 :: "string \<Rightarrow> setting \<Rightarrow> error + unit search_result" where
  "worker_s6 target_name setting =
     (if setting = [(''window'', 1)] then Inr (''A'', 1, ())
      else if setting = [(''window'', 2)] then Inr (''B'', 3, ())
      else Inr (''C'', 2, ()))"

text \<open>A grid of two settings whose backtests reach the same target value.\<close>

definition grid_tie :: "(string \<times> real list) list" where
  "grid_tie = [(''window'', [1, 2])]"

definition worker_tie :: "string \<Rightarrow> setting \<Rightarrow> error + unit search_result" where
  "worker_tie target_name setting =
     (if setting = [(''window'', 1)] then Inr (''A'', 1, ()) else Inr (''B'', 1, ()))"

subsection \<open>Market data, orders and trades\<close>

text \<open>
  \<^verbatim>\<open>datetime.datetime\<close>: \<^verbatim>\<open>.day\<close> is the day of the month, \<^verbatim>\<open>.date()\<close> the calendar
  date.
\<close>

record py_datetime =
  dt_year :: int
  dt_month :: int
  dt_day :: int
  dt_hour :: int
  dt_minute :: int
  dt_second :: int

type_synonym py_date = "int \<times> int \<times> int"

definition date_of :: "py_datetime \<Rightarrow> py_date" where
  "date_of dt = (dt_year dt, dt_month dt, dt_day dt)"

record bar_data =
  bar_datetime :: py_datetime
  bar_open_price :: real
  bar_high_price :: real
  bar_low_price :: real
  bar_close_price :: real

record tick_data =
  tick_datetime :: py_datetime
  tick_last_price :: real
  tick_bid_price_1 :: real
  tick_ask_price_1 :: real

datatype market_data = BarData bar_data | TickData tick_data

fun data_datetime :: "market_data \<Rightarrow> py_datetime" where
  "data_datetime (BarData b) = bar_datetime b"
| "data_datetime (TickData t) = tick_datetime t"

text \<open>
  Order identifiers. \<^verbatim>\<open>orderid\<close> is \<^verbatim>\<open>str(limit_order_count)\<close>, kept as the number;
  \<^verbatim>\<open>vt_orderid\<close> is \<^verbatim>\<open>"BACKTESTING.<n>"\<close> for a limit order and \<^verbatim>\<open>"STOP.<n>"\<close> for a
  stop order, and \<^verbatim>\<open>cancel_order\<close> tells them apart by the prefix \<^verbatim>\<open>STOP\<close>. Any other
  string a strategy may pass is \<open>OTHER_ID\<close>.
\<close>

datatype vt_orderid = BACKTESTING nat | STOP nat | OTHER_ID string

record order_data =
  order_orderid :: nat
  order_direction :: direction
  order_offset :: offset
  order_price :: real
  order_volume :: real
  order_traded :: real
  order_status :: status
  order_datetime :: "py_datetime option"

record stop_order =
  stop_orderid :: nat
  stop_direction :: direction
  stop_offset :: offset
  stop_price :: real
  stop_volume :: real
  stop_vt_orderids :: "vt_orderid list"
  stop_status :: stop_order_status

record trade_data =
  trade_orderid :: nat
  trade_tradeid :: nat
  trade_direction :: direction
  trade_offset :: offset
  trade_price :: real
  trade_volume :: real
  trade_datetime :: "py_datetime option"

subsection \<open>The daily accumulator: \<^verbatim>\<open>DailyResult\<close>\<close>

record daily_result =
  dr_date :: py_date
  dr_close_price :: real
  dr_pre_close :: real
  dr_trades :: "trade_data list"
  dr_trade_count :: nat
  dr_start_pos :: real
  dr_end_pos :: real
  dr_turnover :: real
  dr_commission :: real
  dr_slippage :: real
  dr_trading_pnl :: real
  dr_holding_pnl :: real
  dr_total_pnl :: real
  dr_net_pnl :: real

definition DailyResult :: "py_date \<Rightarrow> real \<Rightarrow> daily_result" where
  "DailyResult d close_price =
     \<lparr>dr_date = d, dr_close_price = close_price, dr_pre_close = 0, dr_trades = [],
      dr_trade_count = 0, dr_start_pos = 0, dr_end_pos = 0, dr_turnover = 0,
      dr_commission = 0, dr_slippage = 0, dr_trading_pnl = 0, dr_holding_pnl = 0,
      dr_total_pnl = 0, dr_net_pnl = 0\<rparr>"

definition add_trade :: "trade_data \<Rightarrow> daily_result \<Rightarrow> daily_result" where
  "add_trade trade r = r\<lparr>dr_trades := dr_trades r @ [trade]\<rparr>"

text \<open>
  The position change of a trade (\<^verbatim>\<open>calculate_pnl\<close>, lines 1474-1477): \<^verbatim>\<open>+volume\<close>
  for a long trade, \<^verbatim>\<open>-volume\<close> otherwise.
\<close>

definition pos_change_of :: "trade_data \<Rightarrow> real" where
  "pos_change_of trade =
     (if trade_direction trade = LONG then trade_volume trade else - trade_volume trade)"

text \<open>
  The body of the loop over the trades of the day (lines 1473-1498). In the inverse
  branch a trade price of \<open>0\<close> or a close price of \<open>0\<close> raises \<^verbatim>\<open>ZeroDivisionError\<close>.
\<close>

definition pnl_of_trade ::
  "real \<Rightarrow> rate_type \<Rightarrow> real \<Rightarrow> real \<Rightarrow> bool \<Rightarrow> trade_data \<Rightarrow> daily_result
     \<Rightarrow> error + daily_result" where
  "pnl_of_trade sz rt rate slip inv_mode trade r =
     (let pos_change = pos_change_of trade;
          r1 = r\<lparr>dr_end_pos := dr_end_pos r + pos_change\<rparr>
      in if \<not> inv_mode then
           let turnover = trade_volume trade * sz * trade_price trade;
               r2 = r1\<lparr>dr_trading_pnl :=
                      dr_trading_pnl r1 + pos_change * (dr_close_price r1 - trade_price trade) * sz\<rparr>;
               r3 = (if rt = FIXED
                     then r2\<lparr>dr_commission := dr_commission r2 + trade_volume trade * rate\<rparr>
                     else r2);
               r4 = r3\<lparr>dr_slippage := dr_slippage r3 + trade_volume trade * sz * slip\<rparr>;
               r5 = r4\<lparr>dr_turnover := dr_turnover r4 + turnover\<rparr>
           in Inr (if rt = FLOAT
                   then r5\<lparr>dr_commission := dr_commission r5 + turnover * rate\<rparr>
                   else r5)
         else if trade_price trade = 0 then Inl ZeroDivisionError
         else if dr_close_price r1 = 0 then Inl ZeroDivisionError
         else
           let turnover = trade_volume trade * sz / trade_price trade;
               r2 = r1\<lparr>dr_trading_pnl :=
                      dr_trading_pnl r1
                        + pos_change * (1 / trade_price trade - 1 / dr_close_price r1) * sz\<rparr>;
               r3 = (if rt = FIXED
                     then r2\<lparr>dr_commission := dr_commission r2 + trade_volume trade * rate\<rparr>
                     else r2);
               r4 = r3\<lparr>dr_slippage :=
                      dr_slippage r3 + trade_volume trade * sz * slip / (trade_price trade)\<^sup>2\<rparr>;
               r5 = r4\<lparr>dr_turnover := dr_turnover r4 + turnover\<rparr>
           in Inr (if rt = FLOAT
                   then r5\<lparr>dr_commission := dr_commission r5 + turnover * rate\<rparr>
                   else r5))"

fun pnl_of_trades ::
  "real \<Rightarrow> rate_type \<Rightarrow> real \<Rightarrow> real \<Rightarrow> bool \<Rightarrow> trade_data list \<Rightarrow> daily_result
     \<Rightarrow> error + daily_result" where
  "pnl_of_trades sz rt rate slip inv_mode [] r = Inr r"
| "pnl_of_trades sz rt rate slip inv_mode (trade # rest) r =
     (case pnl_of_trade sz rt rate slip inv_mode trade r of
        Inl e \<Rightarrow> Inl e
      | Inr r' \<Rightarrow> pnl_of_trades sz rt rate slip inv_mode rest r')"

text \<open>
  \<^verbatim>\<open>DailyResult.calculate_pnl\<close> (lines 1441-1502). \<^verbatim>\<open>if pre_close:\<close> is false exactly
  for \<open>0\<close>.
\<close>

definition calculate_pnl ::
  "real \<Rightarrow> real \<Rightarrow> real \<Rightarrow> rate_type \<Rightarrow> real \<Rightarrow> real \<Rightarrow> bool \<Rightarrow> daily_result
     \<Rightarrow> error + daily_result" where
  "calculate_pnl pre_close start_pos sz rt rate slip inv_mode r =
     (let r1 = r\<lparr>dr_pre_close := (if pre_close \<noteq> 0 then pre_close else 1)\<rparr>;
          r2 = r1\<lparr>dr_start_pos := start_pos, dr_end_pos := start_pos\<rparr>
      in if inv_mode \<and> dr_close_price r2 = 0 then Inl ZeroDivisionError
         else
           let r3 = (if \<not> inv_mode
                     then r2\<lparr>dr_holding_pnl :=
                            dr_start_pos r2 * (dr_close_price r2 - dr_pre_close r2) * sz\<rparr>
                     else r2\<lparr>dr_holding_pnl :=
                            dr_start_pos r2
                              * (1 / dr_pre_close r2 - 1 / dr_close_price r2) * sz\<rparr>);
               r4 = r3\<lparr>dr_trade_count := length (dr_trades r3)\<rparr>
           in case pnl_of_trades sz rt rate slip inv_mode (dr_trades r4) r4 of
                Inl e \<Rightarrow> Inl e
              | Inr r5 \<Rightarrow>
                  let r6 = r5\<lparr>dr_total_pnl := dr_trading_pnl r5 + dr_holding_pnl r5\<rparr>
                  in Inr (r6\<lparr>dr_net_pnl :=
                            dr_total_pnl r6 - dr_commission r6 - dr_slippage r6\<rparr>))"

text \<open>
  The terms of the specification, written from its words and not from the code: the
  change of position of a trade is \<open>+volume\<close> for a long trade and \<open>-volume\<close> for a short
  one, and the profit of a trade held to the close of the day is that change times
  \<open>close - price\<close> (normal contracts) or \<open>1 / price - 1 / close\<close> (inverse contracts), times
  the contract size.
\<close>

definition signed_volume :: "trade_data \<Rightarrow> real" where
  "signed_volume trade =
     (case trade_direction trade of
        LONG \<Rightarrow> trade_volume trade
      | SHORT \<Rightarrow> - trade_volume trade)"

definition trade_pnl_term :: "bool \<Rightarrow> real \<Rightarrow> real \<Rightarrow> trade_data \<Rightarrow> real" where
  "trade_pnl_term inv_mode sz close_price trade =
     (if inv_mode then signed_volume trade * (1 / trade_price trade - 1 / close_price) * sz
      else signed_volume trade * (close_price - trade_price trade) * sz)"

definition holding_pnl_term :: "bool \<Rightarrow> real \<Rightarrow> real \<Rightarrow> real \<Rightarrow> real \<Rightarrow> real" where
  "holding_pnl_term inv_mode sz start_pos pre_close close_price =
     (if inv_mode then start_pos * (1 / pre_close - 1 / close_price) * sz
      else start_pos * (close_price - pre_close) * sz)"

text \<open>Whether some division of the inverse formulas is a division by zero.\<close>

definition zero_division :: "bool \<Rightarrow> daily_result \<Rightarrow> bool" where
  "zero_division inv_mode r =
     (inv_mode \<and> (dr_close_price r = 0 \<or> list_ex (\<lambda>trade. trade_price trade = 0) (dr_trades r)))"

text \<open>
  Scenario S4 of the specification: contract size \<open>10\<close>, one long trade of volume \<open>1\<close>
  at \<open>100\<close> on a day that closes at \<open>102\<close>; and a day of an inverse contract whose
  close price is \<open>0\<close>.
\<close>

definition trade_s4 :: trade_data where
  "trade_s4 = \<lparr>trade_orderid = 1, trade_tradeid = 1, trade_direction = LONG,
     trade_offset = OPEN, trade_price = 100, trade_volume = 1, trade_datetime = None\<rparr>"

definition day_s4 :: daily_result where
  "day_s4 = add_trade trade_s4 (DailyResult (2020, 1, 2) 102)"

definition day_zero_close :: daily_result where
  "day_zero_close = add_trade trade_s4 (DailyResult (2020, 1, 2) 0)"

text \<open>The day of scenario S4 with a second trade: two lots sold short at \<open>105\<close>.\<close>

definition trade_short_2 :: trade_data where
  "trade_short_2 = \<lparr>trade_orderid = 2, trade_tradeid = 2, trade_direction = SHORT,
     trade_offset = OPEN, trade_price = 105, trade_volume = 2, trade_datetime = None\<rparr>"

definition day_long_short :: daily_result where
  "day_long_short = add_trade trade_short_2 day_s4"

subsection \<open>The engine\<close>

text \<open>
  The callback \<^verbatim>\<open>load_bar\<close> and \<^verbatim>\<open>load_tick\<close> record for the warm-up: one of the data
  handlers of the strategy.
\<close>

datatype warm_callback = CB_ON_BAR | CB_ON_SECOND_BAR | CB_ON_TICK

text \<open>
  \<^verbatim>\<open>BacktestingEngine\<close>, together with the attributes of \<^verbatim>\<open>CtaTemplate\<close> the engine
  reads and writes (\<^verbatim>\<open>inited\<close>, \<^verbatim>\<open>trading\<close>, \<^verbatim>\<open>pos\<close>) and the state \<open>user\<close> the strategy
  keeps for itself. \<^verbatim>\<open>size\<close> and \<^verbatim>\<open>inverse\<close> are \<open>size_c\<close> and \<open>inverse_c\<close> here.

  Dictionaries are association lists in insertion order. An order is one object that
  \<^verbatim>\<open>limit_orders\<close> and \<^verbatim>\<open>active_limit_orders\<close> both hold under the same key, so the
  engine keeps the objects in \<open>limit_orders\<close> and the keys of the active book in
  \<open>active_limit_orders\<close>; likewise for stop orders. \<^verbatim>\<open>daily_df\<close> is the list of the rows
  of the frame.
\<close>

record 'u engine =
  rate_type :: rate_type
  rate :: real
  slippage :: real
  size_c :: real
  pricetick :: real
  capital :: real
  mode :: backtesting_mode
  inverse_c :: bool
  bar :: "bar_data option"
  tick :: "tick_data option"
  datetime :: "py_datetime option"
  days :: int
  callback :: "warm_callback option"
  history_data :: "market_data list"
  stop_order_count :: nat
  stop_orders :: "(nat \<times> stop_order) list"
  active_stop_orders :: "nat list"
  limit_order_count :: nat
  limit_orders :: "(nat \<times> order_data) list"
  active_limit_orders :: "nat list"
  trade_count :: nat
  trades :: "(nat \<times> trade_data) list"
  daily_results :: "(py_date \<times> daily_result) list"
  daily_df :: "daily_result list option"
  inited :: bool
  trading :: bool
  pos :: real
  user :: 'u

subsection \<open>The round-trip ledger: \<^verbatim>\<open>calculate_trade_result\<close>\<close>

text \<open>
  \<^verbatim>\<open>get_trade_df\<close>: the frame of the trades, or \<^verbatim>\<open>None\<close> when there is no trade. A row
  of the frame is the trade; \<^verbatim>\<open>row.direction == "\<dots>"\<close> compares with the value of
  \<^verbatim>\<open>Direction.LONG\<close>, \<^verbatim>\<open>row.offset\<close> with the values of \<^verbatim>\<open>Offset.OPEN\<close> and
  \<^verbatim>\<open>Offset.CLOSE\<close>.
\<close>

definition get_trade_df :: "'u engine \<Rightarrow> trade_data list option \<Rightarrow> trade_data list option" where
  "get_trade_df s trades_arg =
     (let ts = (case trades_arg of None \<Rightarrow> map snd (trades s) | Some ts \<Rightarrow> ts)
      in if ts \<noteq> [] then Some ts else None)"

text \<open>The columns \<^verbatim>\<open>calculate_trade_result\<close> adds to a row of the trade frame.\<close>

record trade_entry =
  trade_number :: nat
  trade_profit :: real
  trade_commission :: real
  trade_slippage :: real
  final_profit :: real

text \<open>
  The first loop (lines 1228-1259). Its state: \<^verbatim>\<open>volume_count\<close>, \<^verbatim>\<open>trade_count\<close> and
  the four lists.
\<close>

record ledger =
  volume_count :: real
  round_count :: nat
  trade_number_list :: "nat list"
  trade_profit_list :: "real list"
  trade_commission_list :: "real list"
  trade_slippage_list :: "real list"

definition ledger_row :: "'u engine \<Rightarrow> trade_data \<Rightarrow> ledger \<Rightarrow> ledger" where
  "ledger_row s row l =
     (let l1 = l\<lparr>trade_number_list := trade_number_list l @ [round_count l]\<rparr>;
          l2 =
           (if rate_type s = FIXED then
              (if trade_direction row = LONG then
                 l1\<lparr>trade_profit_list :=
                       trade_profit_list l1 @ [size_c s * trade_price row * trade_volume row * - 1],
                    trade_commission_list :=
                       trade_commission_list l1 @ [trade_volume row * rate s],
                    trade_slippage_list := trade_slippage_list l1 @ [size_c s * slippage s]\<rparr>
               else
                 l1\<lparr>trade_profit_list :=
                       trade_profit_list l1 @ [size_c s * trade_price row * trade_volume row * 1],
                    trade_commission_list :=
                       trade_commission_list l1 @ [trade_volume row * rate s],
                    trade_slippage_list := trade_slippage_list l1 @ [size_c s * slippage s]\<rparr>)
            else
              (if trade_direction row = LONG then
                 l1\<lparr>trade_profit_list :=
                       trade_profit_list l1 @ [size_c s * trade_price row * trade_volume row * - 1],
                    trade_commission_list :=
                       trade_commission_list l1
                         @ [size_c s * trade_price row * trade_volume row * rate s],
                    trade_slippage_list := trade_slippage_list l1 @ [size_c s * slippage s]\<rparr>
               else
                 l1\<lparr>trade_profit_list :=
                       trade_profit_list l1 @ [size_c s * trade_price row * trade_volume row * 1],
                    trade_commission_list :=
                       trade_commission_list l1
                         @ [size_c s * trade_price row * trade_volume row * rate s],
                    trade_slippage_list := trade_slippage_list l1 @ [size_c s * slippage s]\<rparr>));
          l3 = (if trade_offset row = OPEN
                then l2\<lparr>volume_count := volume_count l2 + trade_volume row\<rparr>
                else l2\<lparr>volume_count := volume_count l2 - trade_volume row\<rparr>)
      in if volume_count l3 = 0 then l3\<lparr>round_count := round_count l3 + 1\<rparr> else l3)"

fun ledger_rows :: "'u engine \<Rightarrow> trade_data list \<Rightarrow> ledger \<Rightarrow> ledger" where
  "ledger_rows s [] l = l"
| "ledger_rows s (row # rows) l = ledger_rows s rows (ledger_row s row l)"

definition ledger_start :: ledger where
  "ledger_start = \<lparr>volume_count = 0, round_count = 1, trade_number_list = [],
     trade_profit_list = [], trade_commission_list = [], trade_slippage_list = []\<rparr>"

text \<open>
  The scan of the reversed offsets (lines 1264-1270): \<^verbatim>\<open>count\<close> is the index of the
  first \<^verbatim>\<open>CLOSE\<close>, and the last index of the list when the loop ends without a
  \<^verbatim>\<open>break\<close>. The first argument is the value \<^verbatim>\<open>count\<close> has so far.
\<close>

fun tail_scan :: "nat \<Rightarrow> (nat \<times> offset) list \<Rightarrow> nat" where
  "tail_scan c [] = c"
| "tail_scan c ((i, off) # rest) = (if off = CLOSE then i else tail_scan i rest)"

definition tail_count :: "trade_data list \<Rightarrow> nat" where
  "tail_count rows =
     (let offset_list_reverse = rev (map trade_offset rows)
      in if hd offset_list_reverse = OPEN
         then tail_scan 0 (enumerate 0 offset_list_reverse)
         else 0)"

text \<open>The body of the second loop (lines 1283-1304), over the last \<^verbatim>\<open>count\<close> rows.\<close>

definition modify_profit :: "'u engine \<Rightarrow> real \<Rightarrow> trade_data \<Rightarrow> real" where
  "modify_profit s last_close_price row =
     (if rate_type s = FIXED then
        (if trade_direction row = LONG
         then size_c s * (last_close_price - trade_price row) * trade_volume row
         else size_c s * (trade_price row - last_close_price) * trade_volume row)
      else
        (if trade_direction row = LONG
         then size_c s * (last_close_price - trade_price row) * trade_volume row
         else size_c s * (trade_price row - last_close_price) * trade_volume row))"

definition modify_commission :: "'u engine \<Rightarrow> real \<Rightarrow> trade_data \<Rightarrow> real" where
  "modify_commission s last_close_price row =
     (if rate_type s = FIXED then 2 * trade_volume row * rate s
      else size_c s * (last_close_price + trade_price row) * trade_volume row * rate s)"

definition modify_slippage :: "'u engine \<Rightarrow> real \<Rightarrow> trade_data \<Rightarrow> real" where
  "modify_slippage s last_close_price row = 2 * size_c s * slippage s"

text \<open>\<^verbatim>\<open>xs[-count:] = ys\<close> for \<open>0 < count \<le> len(xs)\<close>.\<close>

definition set_tail :: "nat \<Rightarrow> 'a list \<Rightarrow> 'a list \<Rightarrow> 'a list" where
  "set_tail cnt xs ys = take (length xs - cnt) xs @ ys"

definition entries_of :: "ledger \<Rightarrow> trade_entry list" where
  "entries_of l =
     map (\<lambda>(n, p, c, sl). \<lparr>trade_number = n, trade_profit = p, trade_commission = c,
                            trade_slippage = sl, final_profit = p - c - sl\<rparr>)
       (zip (trade_number_list l)
         (zip (trade_profit_list l) (zip (trade_commission_list l) (trade_slippage_list l))))"

text \<open>
  \<^verbatim>\<open>calculate_trade_result\<close> (lines 1213-1313), up to the columns it writes into the
  trade frame; the result is one entry for each row. Without an argument the rows are
  those of \<^verbatim>\<open>get_trade_df\<close>, whose \<^verbatim>\<open>None\<close> has no \<^verbatim>\<open>reset_index\<close>; an empty frame has
  no \<^verbatim>\<open>offset_list_reverse[0]\<close>; the last close price is read from \<^verbatim>\<open>daily_df\<close>.
\<close>

definition calculate_trade_result ::
  "'u engine \<Rightarrow> trade_data list option \<Rightarrow> error + trade_entry list" where
  "calculate_trade_result s trade_df =
     (case (case trade_df of
              None \<Rightarrow> (case get_trade_df s None of
                          None \<Rightarrow> Inl AttributeError
                        | Some rows \<Rightarrow> Inr rows)
            | Some rows \<Rightarrow> Inr rows) of
        Inl e \<Rightarrow> Inl e
      | Inr rows \<Rightarrow>
          let l = ledger_rows s rows ledger_start
          in if rows = [] then Inl IndexError
             else
               let cnt = tail_count rows
               in if cnt = 0 then Inr (entries_of l)
                  else
                    (case daily_df s of
                       None \<Rightarrow> Inl AttributeError
                     | Some df \<Rightarrow>
                         if df = [] then Inl IndexError
                         else
                           let last_close_price = dr_close_price (last df);
                               tail = drop (length rows - cnt) rows
                           in Inr (entries_of
                                (l\<lparr>trade_profit_list :=
                                      set_tail cnt (trade_profit_list l)
                                        (map (modify_profit s last_close_price) tail),
                                    trade_commission_list :=
                                      set_tail cnt (trade_commission_list l)
                                        (map (modify_commission s last_close_price) tail),
                                    trade_slippage_list :=
                                      set_tail cnt (trade_slippage_list l)
                                        (map (modify_slippage s last_close_price) tail)\<rparr>))))"

text \<open>
  The entries of a row before and after the rewrite, as the specification words
  them: the cash flow of the trade, and the trade marked to the last close.
\<close>

definition plain_entry :: "'u engine \<Rightarrow> nat \<Rightarrow> trade_data \<Rightarrow> trade_entry" where
  "plain_entry s n row =
     (let p = size_c s * trade_price row * trade_volume row
                * (if trade_direction row = LONG then - 1 else 1);
          c = (if rate_type s = FIXED then trade_volume row * rate s
               else size_c s * trade_price row * trade_volume row * rate s);
          sl = size_c s * slippage s
      in \<lparr>trade_number = n, trade_profit = p, trade_commission = c, trade_slippage = sl,
          final_profit = p - c - sl\<rparr>)"

definition rewritten_entry :: "'u engine \<Rightarrow> real \<Rightarrow> nat \<Rightarrow> trade_data \<Rightarrow> trade_entry" where
  "rewritten_entry s close_last n row =
     (let p = (if trade_direction row = LONG
               then size_c s * (close_last - trade_price row) * trade_volume row
               else - (size_c s * (close_last - trade_price row) * trade_volume row));
          c = (if rate_type s = FIXED then 2 * (trade_volume row * rate s)
               else size_c s * (close_last + trade_price row) * trade_volume row * rate s);
          sl = 2 * size_c s * slippage s
      in \<lparr>trade_number = n, trade_profit = p, trade_commission = c, trade_slippage = sl,
          final_profit = p - c - sl\<rparr>)"

text \<open>The signed net volume \<open>v\<close> at the end of the trade sequence.\<close>

definition net_volume :: "'u engine \<Rightarrow> trade_data list \<Rightarrow> real" where
  "net_volume s rows = volume_count (ledger_rows s rows ledger_start)"

definition trade_numbers :: "'u engine \<Rightarrow> trade_data list \<Rightarrow> nat list" where
  "trade_numbers s rows = trade_number_list (ledger_rows s rows ledger_start)"

definition plain_entries :: "'u engine \<Rightarrow> nat list \<Rightarrow> trade_data list \<Rightarrow> trade_entry list" where
  "plain_entries s ns rows = map (\<lambda>(n, row). plain_entry s n row) (zip ns rows)"

definition rewritten_entries ::
  "'u engine \<Rightarrow> real \<Rightarrow> nat list \<Rightarrow> trade_data list \<Rightarrow> trade_entry list" where
  "rewritten_entries s close_last ns rows =
     map (\<lambda>(n, row). rewritten_entry s close_last n row) (zip ns rows)"

text \<open>\<^verbatim>\<open>BacktestingEngine.__init__\<close>, for a strategy whose own state is \<open>u\<close>.\<close>

definition init_engine :: "'u \<Rightarrow> 'u engine" where
  "init_engine u =
     \<lparr>rate_type = FIXED, rate = 0, slippage = 0, size_c = 1, pricetick = 0,
      capital = 1000000, mode = BAR, inverse_c = False, bar = None, tick = None,
      datetime = None, days = 0, callback = None, history_data = [],
      stop_order_count = 0, stop_orders = [], active_stop_orders = [],
      limit_order_count = 0, limit_orders = [], active_limit_orders = [],
      trade_count = 0, trades = [], daily_results = [], daily_df = None,
      inited = False, trading = False, pos = 0, user = u\<rparr>"

text \<open>
  An engine for the examples: contract size \<open>10\<close>, a fixed commission of \<open>2\<close> for each
  unit of volume, a slippage of \<open>1\<close>, a price tick of \<open>1\<close>, and a daily frame whose last
  close price is \<open>110\<close>.
\<close>

definition engine_ex :: "unit engine" where
  "engine_ex = (init_engine ())\<lparr>rate := 2, slippage := 1, size_c := 10, pricetick := 1,
     daily_df := Some [DailyResult (2020, 1, 2) 110]\<rparr>"

definition trade_ex :: "nat \<Rightarrow> direction \<Rightarrow> offset \<Rightarrow> real \<Rightarrow> real \<Rightarrow> trade_data" where
  "trade_ex n d off p v = \<lparr>trade_orderid = n, trade_tradeid = n, trade_direction = d,
     trade_offset = off, trade_price = p, trade_volume = v, trade_datetime = None\<rparr>"

text \<open>
  A ledger that ends flat on an opening trade: one lot is opened, two are closed, one
  is opened again.
\<close>

definition rows_flat :: "trade_data list" where
  "rows_flat = [trade_ex 1 LONG OPEN 100 1, trade_ex 2 SHORT CLOSE 105 2,
                trade_ex 3 LONG OPEN 107 1]"

text \<open>A ledger with a round trip and a position left open, and a closed round trip.\<close>

definition rows_open :: "trade_data list" where
  "rows_open = [trade_ex 1 LONG OPEN 100 1, trade_ex 2 SHORT CLOSE 105 1,
                trade_ex 3 SHORT OPEN 107 1]"

definition rows_closed :: "trade_data list" where
  "rows_closed = [trade_ex 1 LONG OPEN 100 1, trade_ex 2 SHORT CLOSE 105 1]"

text \<open>Scenario S5 of the specification: a single opening trade, never closed.\<close>

definition rows_s5 :: "trade_data list" where
  "rows_s5 = [trade_ex 1 LONG OPEN 100 1]"

subsection \<open>Statistics: \<^verbatim>\<open>calculate_statistics\<close>\<close>

text \<open>
  The local variables of \<^verbatim>\<open>calculate_statistics\<close> are a dictionary from names to
  values; reading a name that was never assigned raises \<^verbatim>\<open>UnboundLocalError\<close>, a
  \<^verbatim>\<open>NameError\<close>.
\<close>

datatype py_value = Num real | Str string

type_synonym locals = "(string \<times> py_value) list"

definition read_local :: "locals \<Rightarrow> string \<Rightarrow> error + py_value" where
  "read_local ls name = (case map_of ls name of None \<Rightarrow> Inl (NameError name) | Some v \<Rightarrow> Inr v)"

text \<open>The branch \<^verbatim>\<open>if df is None:\<close> (lines 372-412): the assignments it makes.\<close>

definition no_frame_locals :: locals where
  "no_frame_locals =
     [(''start_date'', Str []), (''end_date'', Str []), (''total_days'', Num 0),
      (''profit_days'', Num 0), (''loss_days'', Num 0), (''end_balance'', Num 0),
      (''max_drawdown'', Num 0), (''max_ddpercent'', Num 0),
      (''max_drawdown_duration'', Num 0), (''total_net_pnl'', Num 0),
      (''daily_net_pnl'', Num 0), (''total_commission'', Num 0),
      (''daily_commission'', Num 0), (''total_slippage'', Num 0),
      (''daily_slippage'', Num 0), (''total_turnover'', Num 0),
      (''daily_turnover'', Num 0), (''total_trade_count'', Num 0),
      (''daily_trade_count'', Num 0), (''total_return'', Num 0),
      (''annual_return'', Num 0), (''daily_return'', Num 0), (''return_std'', Num 0),
      (''sharpe_ratio'', Num 0), (''return_drawdown_ratio'', Num 0),
      (''total_trade'', Num 0), (''max_profit'', Num 0), (''max_loss'', Num 0),
      (''profit_times'', Num 0), (''loss_times'', Num 0), (''rate_of_win'', Num 0),
      (''total_profit'', Num 0), (''total_loss'', Num 0), (''profit_loss_ratio'', Num 0),
      (''trade_profit'', Num 0), (''trade_commission'', Num 0),
      (''trade_slippage'', Num 0), (''final_profit'', Num 0)]"

text \<open>
  The names the block \<^verbatim>\<open>if output:\<close> formats, in the order of its lines (489-537);
  \<^verbatim>\<open>self.capital\<close> is no local variable.
\<close>

definition output_names :: "string list" where
  "output_names =
     [''start_date'', ''end_date'', ''total_days'', ''profit_days'', ''loss_days'',
      ''end_balance'', ''total_return'', ''annual_return'', ''max_drawdown'',
      ''max_ddpercent'', ''max_drawdown_duration'', ''total_net_pnl'',
      ''total_commission'', ''total_slippage'', ''total_turnover'', ''total_trade_count'',
      ''daily_net_pnl'', ''daily_commission'', ''daily_slippage'', ''daily_turnover'',
      ''daily_trade_count'', ''daily_return'', ''return_std'', ''sharpe_ratio'',
      ''return_drawdown_ratio'', ''total_trade'', ''max_profit'', ''max_loss'',
      ''profit_times'', ''loss_times'', ''rate_of_win'', ''total_profit'', ''total_loss'',
      ''profit_loss_ratio'', ''trade_profit'', ''trade_commission'', ''trade_slippage'',
      ''final_profit'', ''final_balance'']"

text \<open>
  The keys of the dictionary \<^verbatim>\<open>statistics\<close> (lines 539-580), each with the local
  variable of the same name but \<^verbatim>\<open>"capital"\<close>, which reads \<^verbatim>\<open>self.capital\<close>.
\<close>

definition statistics_keys :: "string list" where
  "statistics_keys =
     [''start_date'', ''end_date'', ''total_days'', ''profit_days'', ''loss_days'',
      ''capital'', ''end_balance'', ''max_drawdown'', ''max_ddpercent'',
      ''max_drawdown_duration'', ''total_net_pnl'', ''daily_net_pnl'',
      ''total_commission'', ''daily_commission'', ''total_slippage'', ''daily_slippage'',
      ''total_turnover'', ''daily_turnover'', ''total_trade_count'', ''daily_trade_count'',
      ''total_return'', ''annual_return'', ''daily_return'', ''return_std'',
      ''sharpe_ratio'', ''return_drawdown_ratio'', ''total_trade'', ''max_profit'',
      ''max_loss'', ''profit_times'', ''loss_times'', ''rate_of_win'', ''total_profit'',
      ''total_loss'', ''profit_loss_ratio'', ''trade_profit'', ''trade_commission'',
      ''trade_slippage'', ''final_profit'', ''final_balance'']"

fun read_locals :: "locals \<Rightarrow> string list \<Rightarrow> error + (string \<times> py_value) list" where
  "read_locals ls [] = Inr []"
| "read_locals ls (name # names) =
     (case read_local ls name of
        Inl e \<Rightarrow> Inl e
      | Inr v \<Rightarrow> (case read_locals ls names of
                    Inl e \<Rightarrow> Inl e
                  | Inr kvs \<Rightarrow> Inr ((name, v) # kvs)))"

text \<open>
  \<^verbatim>\<open>calculate_statistics\<close> (lines 363-589). The branch that computes the statistics of
  a frame (lines 415-486, pandas and numpy) is the parameter \<open>frame_locals\<close>: the
  assignments it makes, or the exception it raises. On reals the final filter of
  infinite values and NaN changes nothing.
\<close>

definition calculate_statistics ::
  "('df \<Rightarrow> error + locals) \<Rightarrow> real \<Rightarrow> 'df option \<Rightarrow> 'df option \<Rightarrow> bool
     \<Rightarrow> error + (string \<times> py_value) list" where
  "calculate_statistics frame_locals self_capital self_daily_df df_arg output =
     (let df = (case df_arg of None \<Rightarrow> self_daily_df | Some d \<Rightarrow> Some d)
      in case (case df of None \<Rightarrow> Inr no_frame_locals | Some d \<Rightarrow> frame_locals d) of
           Inl e \<Rightarrow> Inl e
         | Inr ls \<Rightarrow>
             (case (if output then read_locals ls output_names else Inr []) of
                Inl e \<Rightarrow> Inl e
              | Inr printed \<Rightarrow>
                  read_locals ((''capital'', Num self_capital) # ls) statistics_keys))"

subsection \<open>Results of stateful code, and the strategy\<close>

text \<open>
  The engine mutates its objects in place, so an exception leaves the engine as it was
  when it was raised: \<open>Raised e s\<close>.
\<close>

datatype 'a outcome = Normal 'a | Raised error 'a

fun state_of :: "'a outcome \<Rightarrow> 'a" where
  "state_of (Normal s) = s"
| "state_of (Raised e s) = s"

text \<open>\<^verbatim>\<open>for x in xs: f(x)\<close>, left by the first exception.\<close>

fun for_each :: "('a \<Rightarrow> 's \<Rightarrow> 's outcome) \<Rightarrow> 'a list \<Rightarrow> 's \<Rightarrow> 's outcome" where
  "for_each f [] s = Normal s"
| "for_each f (x # xs) s =
     (case f x s of Normal s' \<Rightarrow> for_each f xs s' | Raised e s' \<Rightarrow> Raised e s')"

text \<open>
  The strategy is a parameter of the engine. It acts on the engine only through the
  order interface of \<^verbatim>\<open>CtaTemplate\<close>, so a handler is a function from the engine it
  sees to a reply: its own new state, the calls it makes in their order, and the
  exception it raises at its end, if any.
\<close>

datatype api_call =
    Buy real real bool bool
  | Sell real real bool bool
  | Short real real bool bool
  | Cover real real bool bool
  | Cancel_order vt_orderid
  | Cancel_all

record 'u reply =
  new_user :: 'u
  calls :: "api_call list"
  raises :: "error option"

text \<open>
  \<^verbatim>\<open>on_init\<close> is where a strategy asks for its warm-up data: \<^verbatim>\<open>load_bar(days,
  callback=...)\<close> or \<^verbatim>\<open>load_tick(days)\<close>.
\<close>

datatype load_request = Load_bar int warm_callback | Load_tick int

record 'u init_reply =
  init_user :: 'u
  load :: "load_request option"
  init_raises :: "error option"

text \<open>
  \<^verbatim>\<open>x_second\<close> is an attribute a strategy may or may not have (\<open>None\<close>: reading it raises
  \<^verbatim>\<open>AttributeError\<close>).
\<close>

record 'u strategy =
  x_second :: "int option"
  on_init :: "'u engine \<Rightarrow> 'u init_reply"
  on_start :: "'u engine \<Rightarrow> 'u reply"
  on_bar :: "bar_data \<Rightarrow> 'u engine \<Rightarrow> 'u reply"
  on_second_bar :: "bar_data \<Rightarrow> 'u engine \<Rightarrow> 'u reply"
  on_tick :: "tick_data \<Rightarrow> 'u engine \<Rightarrow> 'u reply"
  on_order :: "order_data \<Rightarrow> 'u engine \<Rightarrow> 'u reply"
  on_trade :: "trade_data \<Rightarrow> 'u engine \<Rightarrow> 'u reply"
  on_stop_order :: "stop_order \<Rightarrow> 'u engine \<Rightarrow> 'u reply"

text \<open>How the engine runs a handler: the calls of the reply run inside the handler.\<close>

type_synonym 'u invoker = "('u engine \<Rightarrow> 'u reply) \<Rightarrow> 'u engine \<Rightarrow> 'u engine outcome"

subsection \<open>Order entry\<close>

text \<open>
  Modelled from the spec: \<^verbatim>\<open>round_to\<close> of \<^verbatim>\<open>vnpy.trader.utility\<close> is not among the
  files at hand. The specification gives \<open>round_to(value, tick) = round(value / tick) *
  tick\<close>, with a rounding that is not banker's rounding; \<open>round\<close> is the nearest integer,
  a tie going up. It gives no value for a tick of \<open>0\<close>, where the quotient does not
  exist: the model raises there.
\<close>

definition round_to :: "real \<Rightarrow> real \<Rightarrow> error + real" where
  "round_to v target =
     (if target = 0 then Inl ZeroDivisionError else Inr (of_int (round (v / target)) * target))"

text \<open>Writing a key of a dictionary: a new key goes to the end.\<close>

definition insert_key :: "'k \<Rightarrow> 'k list \<Rightarrow> 'k list" where
  "insert_key k ks = (if k \<in> set ks then ks else ks @ [k])"

definition send_stop_order ::
  "direction \<Rightarrow> offset \<Rightarrow> real \<Rightarrow> real \<Rightarrow> 'u engine \<Rightarrow> vt_orderid \<times> 'u engine" where
  "send_stop_order d off price volume s =
     (let s1 = s\<lparr>stop_order_count := stop_order_count s + 1\<rparr>;
          stop_order = \<lparr>stop_orderid = stop_order_count s1, stop_direction = d,
             stop_offset = off, stop_price = price, stop_volume = volume,
             stop_vt_orderids = [], stop_status = WAITING\<rparr>
      in (STOP (stop_orderid stop_order),
          s1\<lparr>active_stop_orders := insert_key (stop_orderid stop_order) (active_stop_orders s1),
             stop_orders := AList.update (stop_orderid stop_order) stop_order (stop_orders s1)\<rparr>))"

definition send_limit_order ::
  "direction \<Rightarrow> offset \<Rightarrow> real \<Rightarrow> real \<Rightarrow> 'u engine \<Rightarrow> vt_orderid \<times> 'u engine" where
  "send_limit_order d off price volume s =
     (let s1 = s\<lparr>limit_order_count := limit_order_count s + 1\<rparr>;
          order = \<lparr>order_orderid = limit_order_count s1, order_direction = d,
             order_offset = off, order_price = price, order_volume = volume,
             order_traded = 0, order_status = SUBMITTING, order_datetime = datetime s1\<rparr>
      in (BACKTESTING (order_orderid order),
          s1\<lparr>active_limit_orders := insert_key (order_orderid order) (active_limit_orders s1),
             limit_orders := AList.update (order_orderid order) order (limit_orders s1)\<rparr>))"

text \<open>\<^verbatim>\<open>BacktestingEngine.send_order\<close> (lines 1023-1039); \<^verbatim>\<open>lock\<close> is not used.\<close>

definition send_order ::
  "direction \<Rightarrow> offset \<Rightarrow> real \<Rightarrow> real \<Rightarrow> bool \<Rightarrow> bool \<Rightarrow> 'u engine
     \<Rightarrow> error + vt_orderid list \<times> 'u engine" where
  "send_order d off price volume stop lock s =
     (case round_to price (pricetick s) of
        Inl e \<Rightarrow> Inl e
      | Inr price' \<Rightarrow>
          let (vt_orderid, s') =
                (if stop then send_stop_order d off price' volume s
                 else send_limit_order d off price' volume s)
          in Inr ([vt_orderid], s'))"

text \<open>\<^verbatim>\<open>CtaTemplate.send_order\<close> (lines 240-258) and the four entry points.\<close>

definition t_send_order ::
  "direction \<Rightarrow> offset \<Rightarrow> real \<Rightarrow> real \<Rightarrow> bool \<Rightarrow> bool \<Rightarrow> 'u engine
     \<Rightarrow> error + vt_orderid list \<times> 'u engine" where
  "t_send_order d off price volume stop lock s =
     (if trading s then send_order d off price volume stop lock s else Inr ([], s))"

definition buy ::
  "real \<Rightarrow> real \<Rightarrow> bool \<Rightarrow> bool \<Rightarrow> 'u engine \<Rightarrow> error + vt_orderid list \<times> 'u engine" where
  "buy price volume stop lock s = t_send_order LONG OPEN price volume stop lock s"

definition sell ::
  "real \<Rightarrow> real \<Rightarrow> bool \<Rightarrow> bool \<Rightarrow> 'u engine \<Rightarrow> error + vt_orderid list \<times> 'u engine" where
  "sell price volume stop lock s = t_send_order SHORT CLOSE price volume stop lock s"

definition short ::
  "real \<Rightarrow> real \<Rightarrow> bool \<Rightarrow> bool \<Rightarrow> 'u engine \<Rightarrow> error + vt_orderid list \<times> 'u engine" where
  "short price volume stop lock s = t_send_order SHORT OPEN price volume stop lock s"

definition cover ::
  "real \<Rightarrow> real \<Rightarrow> bool \<Rightarrow> bool \<Rightarrow> 'u engine \<Rightarrow> error + vt_orderid list \<times> 'u engine" where
  "cover price volume stop lock s = t_send_order LONG CLOSE price volume stop lock s"

subsection \<open>Cancellation\<close>

text \<open>
  An id of an active book always has its object in the dictionary of all orders (both
  are written together, and nothing is ever deleted from the latter). The model must
  still say what a lookup that finds nothing does: it raises \<^verbatim>\<open>KeyError\<close>.

  \<^verbatim>\<open>cancel_limit_order\<close> (lines 1112-1119): no other id than the \<^verbatim>\<open>vt_orderid\<close> of a
  limit order can be a key of the active book.
\<close>

definition cancel_limit_order ::
  "'u invoker \<Rightarrow> 'u strategy \<Rightarrow> vt_orderid \<Rightarrow> 'u engine \<Rightarrow> 'u engine outcome" where
  "cancel_limit_order ivk st vt_orderid s =
     (case vt_orderid of
        BACKTESTING k \<Rightarrow>
          if k \<notin> set (active_limit_orders s) then Normal s
          else (case map_of (limit_orders s) k of
                  None \<Rightarrow> Raised KeyError s
                | Some order \<Rightarrow>
                    let order' = order\<lparr>order_status := CANCELLED\<rparr>;
                        s' = s\<lparr>active_limit_orders := removeAll k (active_limit_orders s),
                               limit_orders := AList.update k order' (limit_orders s)\<rparr>
                    in ivk (on_order st order') s')
      | _ \<Rightarrow> Normal s)"

definition cancel_stop_order ::
  "'u invoker \<Rightarrow> 'u strategy \<Rightarrow> vt_orderid \<Rightarrow> 'u engine \<Rightarrow> 'u engine outcome" where
  "cancel_stop_order ivk st vt_orderid s =
     (case vt_orderid of
        STOP k \<Rightarrow>
          if k \<notin> set (active_stop_orders s) then Normal s
          else (case map_of (stop_orders s) k of
                  None \<Rightarrow> Raised KeyError s
                | Some stop_order \<Rightarrow>
                    let stop_order' = stop_order\<lparr>stop_status := STOP_CANCELLED\<rparr>;
                        s' = s\<lparr>active_stop_orders := removeAll k (active_stop_orders s),
                               stop_orders := AList.update k stop_order' (stop_orders s)\<rparr>
                    in ivk (on_stop_order st stop_order') s')
      | _ \<Rightarrow> Normal s)"

text \<open>\<^verbatim>\<open>vt_orderid.startswith(STOPORDER_PREFIX)\<close>.\<close>

fun is_stop_id :: "vt_orderid \<Rightarrow> bool" where
  "is_stop_id (STOP k) = True"
| "is_stop_id (BACKTESTING k) = False"
| "is_stop_id (OTHER_ID name) = (take 4 name = ''STOP'')"

definition cancel_order ::
  "'u invoker \<Rightarrow> 'u strategy \<Rightarrow> vt_orderid \<Rightarrow> 'u engine \<Rightarrow> 'u engine outcome" where
  "cancel_order ivk st vt_orderid s =
     (if is_stop_id vt_orderid then cancel_stop_order ivk st vt_orderid s
      else cancel_limit_order ivk st vt_orderid s)"

text \<open>
  \<^verbatim>\<open>cancel_all\<close> (lines 1121-1131): the keys of each book are listed before its loop;
  the stop book is listed after the limit orders are cancelled.
\<close>

definition cancel_all :: "'u invoker \<Rightarrow> 'u strategy \<Rightarrow> 'u engine \<Rightarrow> 'u engine outcome" where
  "cancel_all ivk st s =
     (case for_each (cancel_limit_order ivk st) (map BACKTESTING (active_limit_orders s)) s of
        Raised e s1 \<Rightarrow> Raised e s1
      | Normal s1 \<Rightarrow>
          for_each (cancel_stop_order ivk st) (map STOP (active_stop_orders s1)) s1)"

text \<open>\<^verbatim>\<open>CtaTemplate.cancel_order\<close> and \<^verbatim>\<open>CtaTemplate.cancel_all\<close> (lines 260-272).\<close>

definition t_cancel_order ::
  "'u invoker \<Rightarrow> 'u strategy \<Rightarrow> vt_orderid \<Rightarrow> 'u engine \<Rightarrow> 'u engine outcome" where
  "t_cancel_order ivk st vt_orderid s =
     (if trading s then cancel_order ivk st vt_orderid s else Normal s)"

definition t_cancel_all :: "'u invoker \<Rightarrow> 'u strategy \<Rightarrow> 'u engine \<Rightarrow> 'u engine outcome" where
  "t_cancel_all ivk st s = (if trading s then cancel_all ivk st s else Normal s)"

subsection \<open>Running a handler\<close>

definition sent :: "error + vt_orderid list \<times> 'u engine \<Rightarrow> 'u engine \<Rightarrow> 'u engine outcome" where
  "sent r s = (case r of Inl e \<Rightarrow> Raised e s | Inr (vt_orderids, s') \<Rightarrow> Normal s')"

fun run_call :: "'u invoker \<Rightarrow> 'u strategy \<Rightarrow> api_call \<Rightarrow> 'u engine \<Rightarrow> 'u engine outcome" where
  "run_call ivk st (Buy price volume stop lock) s = sent (buy price volume stop lock s) s"
| "run_call ivk st (Sell price volume stop lock) s = sent (sell price volume stop lock s) s"
| "run_call ivk st (Short price volume stop lock) s = sent (short price volume stop lock s) s"
| "run_call ivk st (Cover price volume stop lock) s = sent (cover price volume stop lock s) s"
| "run_call ivk st (Cancel_order vt_orderid) s = t_cancel_order ivk st vt_orderid s"
| "run_call ivk st Cancel_all s = t_cancel_all ivk st s"

text \<open>
  A handler may cancel an order, which calls \<^verbatim>\<open>on_order\<close> or \<^verbatim>\<open>on_stop_order\<close> inside
  the handler, whose calls run inside that one, and so on. The first argument bounds
  the depth of handlers inside handlers, as the recursion limit of the interpreter does:
  beyond it the call raises \<^verbatim>\<open>RecursionError\<close>.
\<close>

primrec invoke :: "nat \<Rightarrow> 'u strategy \<Rightarrow> 'u invoker" where
  "invoke 0 st = (\<lambda>handler s. Raised RecursionError s)"
| "invoke (Suc n) st =
     (\<lambda>handler s.
        let r = handler s
        in case for_each (run_call (invoke n st) st) (calls r) (s\<lparr>user := new_user r\<rparr>) of
             Raised e s' \<Rightarrow> Raised e s'
           | Normal s' \<Rightarrow> (case raises r of None \<Rightarrow> Normal s' | Some e \<Rightarrow> Raised e s'))"

subsection \<open>The matching engine\<close>

text \<open>
  The crossing prices of a data point: \<open>(long_cross_price, short_cross_price,
  long_best_price, short_best_price)\<close>. Reading the bar or the tick of an engine that
  has none raises \<^verbatim>\<open>AttributeError\<close>.
\<close>

type_synonym cross_prices = "real \<times> real \<times> real \<times> real"

definition limit_cross_prices :: "'u engine \<Rightarrow> error + cross_prices" where
  "limit_cross_prices s =
     (if mode s = BAR then
        (case bar s of
           None \<Rightarrow> Inl AttributeError
         | Some b \<Rightarrow> Inr (bar_low_price b, bar_high_price b, bar_open_price b, bar_open_price b))
      else
        (case tick s of
           None \<Rightarrow> Inl AttributeError
         | Some t \<Rightarrow> Inr (tick_ask_price_1 t, tick_bid_price_1 t,
                          tick_ask_price_1 t, tick_bid_price_1 t)))"

definition stop_cross_prices :: "'u engine \<Rightarrow> error + cross_prices" where
  "stop_cross_prices s =
     (if mode s = BAR then
        (case bar s of
           None \<Rightarrow> Inl AttributeError
         | Some b \<Rightarrow> Inr (bar_high_price b, bar_low_price b, bar_open_price b, bar_open_price b))
      else
        (case tick s of
           None \<Rightarrow> Inl AttributeError
         | Some t \<Rightarrow> Inr (tick_last_price t, tick_last_price t,
                          tick_last_price t, tick_last_price t)))"

text \<open>The two tests of \<^verbatim>\<open>cross_limit_order\<close> (lines 866-876).\<close>

definition limit_long_cross :: "cross_prices \<Rightarrow> order_data \<Rightarrow> bool" where
  "limit_long_cross pr order =
     (case pr of (long_cross_price, short_cross_price, long_best_price, short_best_price) \<Rightarrow>
        order_direction order = LONG \<and> order_price order \<ge> long_cross_price
          \<and> long_cross_price > 0)"

definition limit_short_cross :: "cross_prices \<Rightarrow> order_data \<Rightarrow> bool" where
  "limit_short_cross pr order =
     (case pr of (long_cross_price, short_cross_price, long_best_price, short_best_price) \<Rightarrow>
        order_direction order = SHORT \<and> order_price order \<le> short_cross_price
          \<and> short_cross_price > 0)"

text \<open>
  The body of the loop of \<^verbatim>\<open>cross_limit_order\<close>, in its two parts. First (lines
  861-863) an order that is still \<open>SUBMITTING\<close> becomes \<open>NOTTRADED\<close> and is pushed to
  the strategy.
\<close>

definition push_not_traded :: "nat \<Rightarrow> 'u strategy \<Rightarrow> nat \<Rightarrow> 'u engine \<Rightarrow> 'u engine outcome" where
  "push_not_traded n st k s =
     (case map_of (limit_orders s) k of
        None \<Rightarrow> Raised KeyError s
      | Some order \<Rightarrow>
          if order_status order = SUBMITTING then
            let order' = order\<lparr>order_status := NOTTRADED\<rparr>
            in invoke n st (on_order st order')
                 (s\<lparr>limit_orders := AList.update k order' (limit_orders s)\<rparr>)
          else Normal s)"

text \<open>
  Then (lines 865-914) the order is matched. The order is the object the loop holds,
  read again after each handler has run. \<^verbatim>\<open>active_limit_orders.pop\<close> raises
  \<^verbatim>\<open>KeyError\<close> when the order is no longer in the active book.
\<close>

definition match_limit_order ::
  "nat \<Rightarrow> 'u strategy \<Rightarrow> cross_prices \<Rightarrow> nat \<Rightarrow> 'u engine \<Rightarrow> 'u engine outcome" where
  "match_limit_order n st pr k s =
     (case map_of (limit_orders s) k of
        None \<Rightarrow> Raised KeyError s
      | Some order \<Rightarrow>
          let long_cross = limit_long_cross pr order;
              short_cross = limit_short_cross pr order
          in if \<not> long_cross \<and> \<not> short_cross then Normal s
             else
               let order1 = order\<lparr>order_traded := order_volume order,
                                   order_status := ALLTRADED\<rparr>;
                   s1 = s\<lparr>limit_orders := AList.update k order1 (limit_orders s)\<rparr>
               in (case invoke n st (on_order st order1) s1 of
                    Raised e s2 \<Rightarrow> Raised e s2
                  | Normal s2 \<Rightarrow>
                      if k \<notin> set (active_limit_orders s2) then Raised KeyError s2
                      else
                        (case map_of (limit_orders s2) k of
                           None \<Rightarrow> Raised KeyError s2
                         | Some order2 \<Rightarrow>
                             let s3 = s2\<lparr>active_limit_orders :=
                                           removeAll k (active_limit_orders s2),
                                         trade_count := trade_count s2 + 1\<rparr>;
                                 (long_cross_price, short_cross_price, long_best_price,
                                   short_best_price) = pr;
                                 trade_price =
                                   (if long_cross then min (order_price order2) long_best_price
                                    else max (order_price order2) short_best_price);
                                 pos_change =
                                   (if long_cross then order_volume order2
                                    else - order_volume order2);
                                 trade = \<lparr>trade_orderid = order_orderid order2,
                                    trade_tradeid = trade_count s3,
                                    trade_direction = order_direction order2,
                                    trade_offset = order_offset order2,
                                    trade_price = trade_price,
                                    trade_volume = order_volume order2,
                                    trade_datetime = datetime s3\<rparr>;
                                 s4 = s3\<lparr>trades :=
                                           AList.update (trade_tradeid trade) trade (trades s3)\<rparr>;
                                 s5 = s4\<lparr>pos := pos s4 + pos_change\<rparr>
                             in invoke n st (on_trade st trade) s5)))"

definition cross_limit_order_body ::
  "nat \<Rightarrow> 'u strategy \<Rightarrow> cross_prices \<Rightarrow> nat \<Rightarrow> 'u engine \<Rightarrow> 'u engine outcome" where
  "cross_limit_order_body n st pr k s =
     (case push_not_traded n st k s of
        Raised e s1 \<Rightarrow> Raised e s1
      | Normal s1 \<Rightarrow> match_limit_order n st pr k s1)"

text \<open>
  \<^verbatim>\<open>cross_limit_order\<close> (lines 844-914): the loop runs over the orders that are active
  when it starts.
\<close>

definition cross_limit_order :: "nat \<Rightarrow> 'u strategy \<Rightarrow> 'u engine \<Rightarrow> 'u engine outcome" where
  "cross_limit_order n st s =
     (case limit_cross_prices s of
        Inl e \<Rightarrow> Raised e s
      | Inr pr \<Rightarrow> for_each (cross_limit_order_body n st pr) (active_limit_orders s) s)"

text \<open>The two tests of \<^verbatim>\<open>cross_stop_order\<close> (lines 934-942).\<close>

definition stop_long_cross :: "cross_prices \<Rightarrow> stop_order \<Rightarrow> bool" where
  "stop_long_cross pr stop_order =
     (case pr of (long_cross_price, short_cross_price, long_best_price, short_best_price) \<Rightarrow>
        stop_direction stop_order = LONG \<and> stop_price stop_order \<le> long_cross_price)"

definition stop_short_cross :: "cross_prices \<Rightarrow> stop_order \<Rightarrow> bool" where
  "stop_short_cross pr stop_order =
     (case pr of (long_cross_price, short_cross_price, long_best_price, short_best_price) \<Rightarrow>
        stop_direction stop_order = SHORT \<and> stop_price stop_order \<ge> short_cross_price)"

text \<open>
  The body of the loop of \<^verbatim>\<open>cross_stop_order\<close> (lines 933-1002), in its two parts:
  what the engine writes when a stop order is triggered (lines 947-995), and the three
  pushes to the strategy, with the position changed before the last one (lines
  997-1002).
\<close>

definition stop_order_of :: "stop_order \<Rightarrow> 'u engine \<Rightarrow> order_data" where
  "stop_order_of stop_order s =
     \<lparr>order_orderid = limit_order_count s + 1, order_direction = stop_direction stop_order,
      order_offset = stop_offset stop_order, order_price = stop_price stop_order,
      order_volume = stop_volume stop_order, order_traded = 0, order_status = ALLTRADED,
      order_datetime = datetime s\<rparr>"

definition stop_trade_of :: "cross_prices \<Rightarrow> stop_order \<Rightarrow> 'u engine \<Rightarrow> trade_data" where
  "stop_trade_of pr stop_order s =
     (case pr of (long_cross_price, short_cross_price, long_best_price, short_best_price) \<Rightarrow>
        let order = stop_order_of stop_order s
        in \<lparr>trade_orderid = order_orderid order, trade_tradeid = trade_count s + 1,
            trade_direction = order_direction order, trade_offset = order_offset order,
            trade_price =
              (if stop_long_cross pr stop_order
               then max (stop_price stop_order) long_best_price
               else min (stop_price stop_order) short_best_price),
            trade_volume = order_volume order, trade_datetime = datetime s\<rparr>)"

definition triggered_of :: "stop_order \<Rightarrow> 'u engine \<Rightarrow> stop_order" where
  "triggered_of stop_order s =
     stop_order\<lparr>stop_vt_orderids :=
                   stop_vt_orderids stop_order @ [BACKTESTING (limit_order_count s + 1)],
                 stop_status := TRIGGERED\<rparr>"

definition trigger_stop_order ::
  "cross_prices \<Rightarrow> nat \<Rightarrow> stop_order \<Rightarrow> 'u engine \<Rightarrow> 'u engine" where
  "trigger_stop_order pr k stop_order s =
     (let order = stop_order_of stop_order s;
          trade = stop_trade_of pr stop_order s;
          s1 = s\<lparr>limit_order_count := limit_order_count s + 1\<rparr>;
          s2 = s1\<lparr>limit_orders := AList.update (order_orderid order) order (limit_orders s1)\<rparr>;
          s3 = s2\<lparr>trade_count := trade_count s2 + 1\<rparr>;
          s4 = s3\<lparr>trades := AList.update (trade_tradeid trade) trade (trades s3)\<rparr>;
          s5 = s4\<lparr>stop_orders := AList.update k (triggered_of stop_order s) (stop_orders s4)\<rparr>
      in if k \<in> set (active_stop_orders s5)
         then s5\<lparr>active_stop_orders := removeAll k (active_stop_orders s5)\<rparr>
         else s5)"

definition cross_stop_order_body ::
  "nat \<Rightarrow> 'u strategy \<Rightarrow> cross_prices \<Rightarrow> nat \<Rightarrow> 'u engine \<Rightarrow> 'u engine outcome" where
  "cross_stop_order_body n st pr k s =
     (case map_of (stop_orders s) k of
        None \<Rightarrow> Raised KeyError s
      | Some stop_order \<Rightarrow>
          let long_cross = stop_long_cross pr stop_order;
              short_cross = stop_short_cross pr stop_order
          in if \<not> long_cross \<and> \<not> short_cross then Normal s
             else
               let order = stop_order_of stop_order s;
                   trade = stop_trade_of pr stop_order s;
                   pos_change = (if long_cross then order_volume order else - order_volume order);
                   s1 = trigger_stop_order pr k stop_order s
               in (case invoke n st (on_stop_order st (triggered_of stop_order s)) s1 of
                    Raised e s2 \<Rightarrow> Raised e s2
                  | Normal s2 \<Rightarrow>
                      (case invoke n st (on_order st order) s2 of
                         Raised e s3 \<Rightarrow> Raised e s3
                       | Normal s3 \<Rightarrow>
                           invoke n st (on_trade st trade) (s3\<lparr>pos := pos s3 + pos_change\<rparr>))))"

definition cross_stop_order :: "nat \<Rightarrow> 'u strategy \<Rightarrow> 'u engine \<Rightarrow> 'u engine outcome" where
  "cross_stop_order n st s =
     (case stop_cross_prices s of
        Inl e \<Rightarrow> Raised e s
      | Inr pr \<Rightarrow> for_each (cross_stop_order_body n st pr) (active_stop_orders s) s)"

subsection \<open>The replay loop\<close>

text \<open>
  \<^verbatim>\<open>update_daily_close\<close> (lines 805-813); \<^verbatim>\<open>self.datetime.date()\<close> needs a datetime.
\<close>

definition update_daily_close :: "real \<Rightarrow> 'u engine \<Rightarrow> 'u engine outcome" where
  "update_daily_close price s =
     (case datetime s of
        None \<Rightarrow> Raised AttributeError s
      | Some dt \<Rightarrow>
          let d = date_of dt
          in (case map_of (daily_results s) d of
               Some daily_result \<Rightarrow>
                 Normal (s\<lparr>daily_results :=
                            AList.update d (daily_result\<lparr>dr_close_price := price\<rparr>)
                              (daily_results s)\<rparr>)
             | None \<Rightarrow>
                 Normal (s\<lparr>daily_results :=
                            AList.update d (DailyResult d price) (daily_results s)\<rparr>)))"

text \<open>
  The handler \<^verbatim>\<open>new_bar\<close> calls (lines 823-829): \<^verbatim>\<open>on_second_bar\<close> below \<open>60\<close>,
  \<^verbatim>\<open>on_bar\<close> at \<open>60\<close>, nothing above \<open>60\<close>, and \<^verbatim>\<open>on_bar\<close> when the strategy has no
  \<^verbatim>\<open>x_second\<close> or when the handler called first raised \<^verbatim>\<open>AttributeError\<close>.
\<close>

definition push_bar :: "nat \<Rightarrow> 'u strategy \<Rightarrow> bar_data \<Rightarrow> 'u engine \<Rightarrow> 'u engine outcome" where
  "push_bar n st b s =
     (case x_second st of
        None \<Rightarrow> invoke n st (on_bar st b) s
      | Some x \<Rightarrow>
          (case (if x < 60 then invoke n st (on_second_bar st b) s
                 else if x = 60 then invoke n st (on_bar st b) s
                 else Normal s) of
             Raised e s' \<Rightarrow>
               if e = AttributeError then invoke n st (on_bar st b) s' else Raised e s'
           | Normal s' \<Rightarrow> Normal s'))"

text \<open>A chain of steps, left by the first exception.\<close>

definition and_then :: "'s outcome \<Rightarrow> ('s \<Rightarrow> 's outcome) \<Rightarrow> 's outcome" where
  "and_then r f = (case r of Normal s \<Rightarrow> f s | Raised e s \<Rightarrow> Raised e s)"

text \<open>\<^verbatim>\<open>new_bar\<close> (lines 815-831) and \<^verbatim>\<open>new_tick\<close> (lines 833-842).\<close>

definition new_bar :: "nat \<Rightarrow> 'u strategy \<Rightarrow> bar_data \<Rightarrow> 'u engine \<Rightarrow> 'u engine outcome" where
  "new_bar n st b s =
     and_then
       (and_then
          (and_then
             (cross_limit_order n st (s\<lparr>bar := Some b, datetime := Some (bar_datetime b)\<rparr>))
             (cross_stop_order n st))
          (push_bar n st b))
       (update_daily_close (bar_close_price b))"

definition new_tick :: "nat \<Rightarrow> 'u strategy \<Rightarrow> tick_data \<Rightarrow> 'u engine \<Rightarrow> 'u engine outcome" where
  "new_tick n st t s =
     and_then
       (and_then
          (and_then
             (cross_limit_order n st (s\<lparr>tick := Some t, datetime := Some (tick_datetime t)\<rparr>))
             (cross_stop_order n st))
          (invoke n st (on_tick st t)))
       (update_daily_close (tick_last_price t))"

text \<open>
  \<^verbatim>\<open>func(data)\<close>: \<^verbatim>\<open>new_bar\<close> in bar mode, \<^verbatim>\<open>new_tick\<close> in tick mode. The history is
  loaded by mode, so a datum of the other kind does not occur. If it did, the function
  would store it and move the clock (lines 817-818 and 835-836) before the first read
  of a field that the datum lacks raises \<^verbatim>\<open>AttributeError\<close>; the model moves the clock
  and raises there, and cannot hold the datum in the slot of the other kind.
\<close>

definition new_data :: "nat \<Rightarrow> 'u strategy \<Rightarrow> market_data \<Rightarrow> 'u engine \<Rightarrow> 'u engine outcome" where
  "new_data n st d s =
     (case (mode s, d) of
        (BAR, BarData b) \<Rightarrow> new_bar n st b s
      | (TICK, TickData t) \<Rightarrow> new_tick n st t s
      | _ \<Rightarrow> Raised AttributeError (s\<lparr>datetime := Some (data_datetime d)\<rparr>))"

text \<open>
  \<^verbatim>\<open>self.callback(data)\<close>: the handler \<^verbatim>\<open>load_bar\<close> recorded. Calling \<^verbatim>\<open>None\<close> raises
  \<^verbatim>\<open>TypeError\<close>.
\<close>

definition call_callback ::
  "nat \<Rightarrow> 'u strategy \<Rightarrow> market_data \<Rightarrow> 'u engine \<Rightarrow> 'u engine outcome" where
  "call_callback n st d s =
     (case (callback s, d) of
        (None, _) \<Rightarrow> Raised TypeError s
      | (Some CB_ON_BAR, BarData b) \<Rightarrow> invoke n st (on_bar st b) s
      | (Some CB_ON_SECOND_BAR, BarData b) \<Rightarrow> invoke n st (on_second_bar st b) s
      | (Some CB_ON_TICK, TickData t) \<Rightarrow> invoke n st (on_tick st t) s
      | _ \<Rightarrow> Raised AttributeError s)"

text \<open>
  \<^verbatim>\<open>strategy.on_init()\<close>, with the request for warm-up data it makes. \<^verbatim>\<open>load_bar\<close>
  (lines 1004-1016) records \<^verbatim>\<open>days\<close> and the callback. \<^verbatim>\<open>CtaTemplate.load_tick\<close> passes
  four arguments to \<^verbatim>\<open>BacktestingEngine.load_tick\<close>, which takes three: the call raises
  \<^verbatim>\<open>TypeError\<close>.
\<close>

definition call_on_init :: "'u strategy \<Rightarrow> 'u engine \<Rightarrow> 'u engine outcome" where
  "call_on_init st s =
     (let r = on_init st s;
          s1 = s\<lparr>user := init_user r\<rparr>
      in case load r of
           Some (Load_tick d) \<Rightarrow> Raised TypeError s1
         | Some (Load_bar d cb) \<Rightarrow>
             (let s2 = s1\<lparr>days := d, callback := Some cb\<rparr>
              in case init_raises r of None \<Rightarrow> Normal s2 | Some e \<Rightarrow> Raised e s2)
         | None \<Rightarrow> (case init_raises r of None \<Rightarrow> Normal s1 | Some e \<Rightarrow> Raised e s1))"

text \<open>
  The warm-up loop of \<^verbatim>\<open>run_backtesting\<close> (lines 283-299). It ends by \<^verbatim>\<open>break\<close> at an
  index, by running out of data, or by an exception of the callback, which ends
  \<^verbatim>\<open>run_backtesting\<close>. \<open>day_boundary\<close> is the test of line 287.
\<close>

datatype 'a warm_up_end = Broke nat 'a | Exhausted nat 'a | Aborted 'a

definition day_boundary :: "'u engine \<Rightarrow> market_data \<Rightarrow> bool" where
  "day_boundary s d =
     (case datetime s of
        None \<Rightarrow> False
      | Some dt \<Rightarrow> dt_day (data_datetime d) \<noteq> dt_day dt)"

text \<open>
  The arguments: \<^verbatim>\<open>day_count\<close>, the index of the next datum, the data from there on.
  After a loop that ran out of data \<^verbatim>\<open>ix\<close> is the last index (\<open>0\<close> for no data).
\<close>

fun warm_up ::
  "nat \<Rightarrow> 'u strategy \<Rightarrow> int \<Rightarrow> nat \<Rightarrow> market_data list \<Rightarrow> 'u engine \<Rightarrow> 'u engine warm_up_end"
  where
  "warm_up n st day_count ix [] s = Exhausted (ix - 1) s"
| "warm_up n st day_count ix (d # rest) s =
     (let day_count' = (if day_boundary s d then day_count + 1 else day_count)
      in if day_boundary s d \<and> day_count' \<ge> days s then Broke ix s
         else
           (case call_callback n st d (s\<lparr>datetime := Some (data_datetime d)\<rparr>) of
              Raised e s' \<Rightarrow> Aborted s'
            | Normal s' \<Rightarrow> warm_up n st day_count' (ix + 1) rest s'))"

text \<open>
  The run loop (lines 309-315): an exception ends \<^verbatim>\<open>run_backtesting\<close>, which returns
  normally.
\<close>

fun replay :: "nat \<Rightarrow> 'u strategy \<Rightarrow> market_data list \<Rightarrow> 'u engine \<Rightarrow> 'u engine" where
  "replay n st [] s = s"
| "replay n st (d # rest) s =
     (case new_data n st d s of
        Raised e s' \<Rightarrow> s'
      | Normal s' \<Rightarrow> replay n st rest s')"

text \<open>
  What \<^verbatim>\<open>run_backtesting\<close> does once the warm-up has ended at index \<open>ix\<close> (lines
  301-317).
\<close>

definition start_and_replay ::
  "nat \<Rightarrow> 'u strategy \<Rightarrow> nat \<Rightarrow> 'u engine \<Rightarrow> 'u engine outcome" where
  "start_and_replay n st ix s =
     (case invoke n st (on_start st) (s\<lparr>inited := True\<rparr>) of
        Raised e s1 \<Rightarrow> Raised e s1
      | Normal s1 \<Rightarrow>
          let s2 = s1\<lparr>trading := True\<rparr>
          in Normal (replay n st (drop ix (history_data s2)) s2))"

text \<open>\<^verbatim>\<open>run_backtesting\<close> (lines 273-317).\<close>

definition run_backtesting :: "nat \<Rightarrow> 'u strategy \<Rightarrow> 'u engine \<Rightarrow> 'u engine outcome" where
  "run_backtesting n st s =
     (case call_on_init st s of
        Raised e s1 \<Rightarrow> Raised e s1
      | Normal s1 \<Rightarrow>
          (case warm_up n st 0 0 (history_data s1) s1 of
             Aborted s2 \<Rightarrow> Normal s2
           | Broke ix s2 \<Rightarrow> start_and_replay n st ix s2
           | Exhausted ix s2 \<Rightarrow> start_and_replay n st ix s2))"

subsection \<open>Notions for the proofs\<close>

text \<open>
  The books are well formed: every id of an active book has its object, and no id is
  beyond the counter that issues the ids. This holds of a new engine and is kept by
  every operation.
\<close>

definition books_ok :: "'u engine \<Rightarrow> bool" where
  "books_ok s =
     (set (active_limit_orders s) \<subseteq> fst ` set (limit_orders s)
      \<and> (\<forall>k \<in> fst ` set (limit_orders s). k \<le> limit_order_count s)
      \<and> set (active_stop_orders s) \<subseteq> fst ` set (stop_orders s)
      \<and> (\<forall>k \<in> fst ` set (stop_orders s). k \<le> stop_order_count s)
      \<and> (\<forall>k \<in> fst ` set (trades s). k \<le> trade_count s))"

text \<open>
  What a handler can do to the engine through the order interface: it leaves
  everything but the books and its own state as it is; it may add orders with new
  ids; and an order that is there is either kept as it is, or cancelled if it was in
  the active book.
\<close>

definition same_outside_books :: "'u engine \<Rightarrow> 'u engine \<Rightarrow> bool" where
  "same_outside_books s s' =
     (s' = s\<lparr>stop_order_count := stop_order_count s', stop_orders := stop_orders s',
             active_stop_orders := active_stop_orders s',
             limit_order_count := limit_order_count s', limit_orders := limit_orders s',
             active_limit_orders := active_limit_orders s', user := user s'\<rparr>)"

definition limit_kept :: "nat \<Rightarrow> 'u engine \<Rightarrow> 'u engine \<Rightarrow> bool" where
  "limit_kept k s s' =
     (map_of (limit_orders s') k = map_of (limit_orders s) k
      \<and> (k \<in> set (active_limit_orders s') \<longleftrightarrow> k \<in> set (active_limit_orders s)))"

definition limit_cancelled :: "nat \<Rightarrow> 'u engine \<Rightarrow> 'u engine \<Rightarrow> bool" where
  "limit_cancelled k s s' =
     (k \<in> set (active_limit_orders s) \<and> k \<notin> set (active_limit_orders s')
      \<and> map_of (limit_orders s') k
          = map_option (\<lambda>order. order\<lparr>order_status := CANCELLED\<rparr>) (map_of (limit_orders s) k))"

definition stop_kept :: "nat \<Rightarrow> 'u engine \<Rightarrow> 'u engine \<Rightarrow> bool" where
  "stop_kept k s s' =
     (map_of (stop_orders s') k = map_of (stop_orders s) k
      \<and> (k \<in> set (active_stop_orders s') \<longleftrightarrow> k \<in> set (active_stop_orders s)))"

definition stop_cancelled :: "nat \<Rightarrow> 'u engine \<Rightarrow> 'u engine \<Rightarrow> bool" where
  "stop_cancelled k s s' =
     (k \<in> set (active_stop_orders s) \<and> k \<notin> set (active_stop_orders s')
      \<and> map_of (stop_orders s') k
          = map_option (\<lambda>stop_order. stop_order\<lparr>stop_status := STOP_CANCELLED\<rparr>)
              (map_of (stop_orders s) k))"

definition api_frame :: "'u engine \<Rightarrow> 'u engine \<Rightarrow> bool" where
  "api_frame s s' =
     (same_outside_books s s'
      \<and> limit_order_count s \<le> limit_order_count s'
      \<and> stop_order_count s \<le> stop_order_count s'
      \<and> (\<forall>k. k \<le> limit_order_count s \<longrightarrow> limit_kept k s s' \<or> limit_cancelled k s s')
      \<and> (\<forall>k. k \<le> stop_order_count s \<longrightarrow> stop_kept k s s' \<or> stop_cancelled k s s')
      \<and> (books_ok s \<longrightarrow> books_ok s'))"

definition frames :: "'u invoker \<Rightarrow> bool" where
  "frames ivk = (\<forall>handler s. api_frame s (state_of (ivk handler s)))"

text \<open>Two orders that differ in their status at most.\<close>

definition but_status :: "order_data \<Rightarrow> order_data \<Rightarrow> bool" where
  "but_status order order' = (order'\<lparr>order_status := order_status order\<rparr> = order)"

text \<open>
  The trade \<^verbatim>\<open>cross_limit_order\<close> builds for an order it fills (lines 891-909), in an
  engine whose trade counter has not yet been raised.
\<close>

definition limit_trade_of :: "cross_prices \<Rightarrow> order_data \<Rightarrow> 'u engine \<Rightarrow> trade_data" where
  "limit_trade_of pr order s =
     (case pr of (long_cross_price, short_cross_price, long_best_price, short_best_price) \<Rightarrow>
        \<lparr>trade_orderid = order_orderid order, trade_tradeid = trade_count s + 1,
         trade_direction = order_direction order, trade_offset = order_offset order,
         trade_price =
           (if limit_long_cross pr order then min (order_price order) long_best_price
            else max (order_price order) short_best_price),
         trade_volume = order_volume order, trade_datetime = datetime s\<rparr>)"

text \<open>
  A strategy that only listens: its handlers of orders, trades and stop orders make no
  call and raise nothing.
\<close>

definition listens :: "'u strategy \<Rightarrow> bool" where
  "listens st =
     ((\<forall>order s. calls (on_order st order s) = [] \<and> raises (on_order st order s) = None)
      \<and> (\<forall>trade s. calls (on_trade st trade s) = [] \<and> raises (on_trade st trade s) = None)
      \<and> (\<forall>stop_order s. calls (on_stop_order st stop_order s) = []
             \<and> raises (on_stop_order st stop_order s) = None))"

text \<open>
  What a fill writes into the ledger, between an engine \<open>s\<close> and a later engine \<open>s'\<close>:
  the trade counter is raised by one, the trade of the order at the given price is
  recorded under the new trade id, and the position moves by the volume of the order,
  up for a long order and down for a short one. And what no fill leaves as it was.
\<close>

definition filled_at :: "real \<Rightarrow> order_data \<Rightarrow> 'u engine \<Rightarrow> 'u engine \<Rightarrow> bool" where
  "filled_at price order s s' =
     (trade_count s' = trade_count s + 1
      \<and> trades s' =
          AList.update (trade_count s + 1)
            \<lparr>trade_orderid = order_orderid order, trade_tradeid = trade_count s + 1,
             trade_direction = order_direction order, trade_offset = order_offset order,
             trade_price = price, trade_volume = order_volume order,
             trade_datetime = datetime s\<rparr>
            (trades s)
      \<and> pos s' = pos s + (if order_direction order = LONG then order_volume order
                           else - order_volume order))"

definition not_filled :: "'u engine \<Rightarrow> 'u engine \<Rightarrow> bool" where
  "not_filled s s' = (trade_count s' = trade_count s \<and> trades s' = trades s \<and> pos s' = pos s)"

text \<open>
  What a triggered stop order leaves behind, between an engine \<open>s\<close> and a later engine
  \<open>s'\<close>: a new limit order under the next order id, with the fields of the stop order
  and the status \<open>ALLTRADED\<close>, that is not in the active book; its trade at the given
  price under the next trade id; the position moved by the volume; and the stop order
  with the status \<open>TRIGGERED\<close>, the id of the new order, and no longer in the active
  stop book.
\<close>

definition triggered_at :: "real \<Rightarrow> nat \<Rightarrow> stop_order \<Rightarrow> 'u engine \<Rightarrow> 'u engine \<Rightarrow> bool" where
  "triggered_at price k stop_order s s' =
     (map_of (limit_orders s) (limit_order_count s + 1) = None
      \<and> map_of (limit_orders s') (limit_order_count s + 1) =
          Some \<lparr>order_orderid = limit_order_count s + 1,
                order_direction = stop_direction stop_order,
                order_offset = stop_offset stop_order, order_price = stop_price stop_order,
                order_volume = stop_volume stop_order, order_traded = 0,
                order_status = ALLTRADED, order_datetime = datetime s\<rparr>
      \<and> limit_order_count s + 1 \<notin> set (active_limit_orders s')
      \<and> trade_count s' = trade_count s + 1
      \<and> trades s' =
          AList.update (trade_count s + 1)
            \<lparr>trade_orderid = limit_order_count s + 1, trade_tradeid = trade_count s + 1,
             trade_direction = stop_direction stop_order,
             trade_offset = stop_offset stop_order, trade_price = price,
             trade_volume = stop_volume stop_order, trade_datetime = datetime s\<rparr>
            (trades s)
      \<and> pos s' = pos s + (if stop_direction stop_order = LONG then stop_volume stop_order
                           else - stop_volume stop_order)
      \<and> map_of (stop_orders s') k =
          Some (stop_order\<lparr>stop_vt_orderids :=
                   stop_vt_orderids stop_order @ [BACKTESTING (limit_order_count s + 1)],
                 stop_status := TRIGGERED\<rparr>)
      \<and> k \<notin> set (active_stop_orders s'))"

text \<open>The status of the limit order \<open>k\<close>, if there is such an order.\<close>

definition status_of :: "'u engine \<Rightarrow> nat \<Rightarrow> status option" where
  "status_of s k = map_option order_status (map_of (limit_orders s) k)"

text \<open>
  The number of places in a list of days of the month where the day differs from the
  one before it.
\<close>

fun day_changes :: "int list \<Rightarrow> nat" where
  "day_changes [] = 0"
| "day_changes [x] = 0"
| "day_changes (x # y # ys) = (if x \<noteq> y then 1 else 0) + day_changes (y # ys)"

definition days_of :: "market_data list \<Rightarrow> int list" where
  "days_of history = map (\<lambda>d. dt_day (data_datetime d)) history"









text \<open>The day of the month of the clock of the engine, as a list: empty before the first datum.\<close>

definition prev_day :: "'u engine \<Rightarrow> int list" where
  "prev_day s = (case datetime s of None \<Rightarrow> [] | Some dt \<Rightarrow> [dt_day dt])"

text \<open>
  An engine on which no order was matched and no order was sent or cancelled between
  \<open>s\<close> and \<open>s'\<close>: nothing has changed but the clock of the engine and the state the
  strategy keeps for itself.
\<close>

definition only_clock_and_user :: "'u engine \<Rightarrow> 'u engine \<Rightarrow> bool" where
  "only_clock_and_user s s' = (s' = s\<lparr>datetime := datetime s', user := user s'\<rparr>)"

subsection \<open>Strategies and engines for the examples\<close>

text \<open>A strategy that does nothing: it asks for one day of bars and makes no call.\<close>

definition silence :: "unit reply" where
  "silence = \<lparr>new_user = (), calls = [], raises = None\<rparr>"

definition quiet :: "unit strategy" where
  "quiet =
     \<lparr>x_second = None,
      on_init = (\<lambda>s. \<lparr>init_user = (), load = Some (Load_bar 1 CB_ON_BAR), init_raises = None\<rparr>),
      on_start = (\<lambda>s. silence),
      on_bar = (\<lambda>b s. silence),
      on_second_bar = (\<lambda>b s. silence),
      on_tick = (\<lambda>t s. silence),
      on_order = (\<lambda>order s. silence),
      on_trade = (\<lambda>trade s. silence),
      on_stop_order = (\<lambda>stop_order s. silence)\<rparr>"

text \<open>The example engine with the strategy trading, and with a buy order at \<open>10\<close>.\<close>

definition engine_trading :: "unit engine" where
  "engine_trading = engine_ex\<lparr>trading := True\<rparr>"

definition engine_buy_10 :: "unit engine" where
  "engine_buy_10 = snd (send_limit_order LONG OPEN 10 1 engine_trading)"

definition order_buy_10 :: order_data where
  "order_buy_10 = \<lparr>order_orderid = 1, order_direction = LONG, order_offset = OPEN,
     order_price = 10, order_volume = 1, order_traded = 0, order_status = SUBMITTING,
     order_datetime = None\<rparr>"

text \<open>
  Scenario S2 of the specification: the bar \<open>{open = 8, high = 9, low = 7, close = 8}\<close>,
  whose crossing prices for limit orders are low, high, open, open.
\<close>

definition bar_s2 :: bar_data where
  "bar_s2 = \<lparr>bar_datetime = \<lparr>dt_year = 2020, dt_month = 1, dt_day = 2, dt_hour = 9,
                 dt_minute = 0, dt_second = 0\<rparr>,
             bar_open_price = 8, bar_high_price = 9, bar_low_price = 7, bar_close_price = 8\<rparr>"

text \<open>
  Scenario S3 of the specification: a stop order to buy at \<open>11\<close>, and the bar \<open>{open = 11,
  high = 12, low = 10, close = 11}\<close>, whose crossing prices for stop orders are high, low,
  open, open.
\<close>

definition engine_stop_11 :: "unit engine" where
  "engine_stop_11 = snd (send_stop_order LONG OPEN 11 1 engine_trading)"

definition stop_buy_11 :: stop_order where
  "stop_buy_11 = \<lparr>stop_orderid = 1, stop_direction = LONG, stop_offset = OPEN,
     stop_price = 11, stop_volume = 1, stop_vt_orderids = [], stop_status = WAITING\<rparr>"

text \<open>The engine after the buy order at \<open>10\<close> has been cancelled.\<close>

definition engine_cancelled :: "unit engine" where
  "engine_cancelled =
     engine_buy_10\<lparr>active_limit_orders := [],
       limit_orders := [(1, order_buy_10\<lparr>order_status := CANCELLED\<rparr>)]\<rparr>"

text \<open>
  Two daily bars a month apart, on the 15th of January and of February 2020, and the
  engine after \<^verbatim>\<open>on_init\<close> of the quiet strategy, which asks for one day of bars.
\<close>

definition bar_on :: "int \<Rightarrow> int \<Rightarrow> int \<Rightarrow> bar_data" where
  "bar_on y m d = \<lparr>bar_datetime = \<lparr>dt_year = y, dt_month = m, dt_day = d, dt_hour = 15,
                      dt_minute = 0, dt_second = 0\<rparr>,
                    bar_open_price = 10, bar_high_price = 12, bar_low_price = 9,
                    bar_close_price = 11\<rparr>"

definition engine_warm :: "unit engine" where
  "engine_warm = engine_ex\<lparr>days := 1, callback := Some CB_ON_BAR\<rparr>"

definition history_days :: "market_data list" where
  "history_days = [BarData (bar_on 2020 1 15), BarData (bar_on 2020 1 16),
                   BarData (bar_on 2020 1 17)]"

definition history_months :: "market_data list" where
  "history_months = [BarData (bar_on 2020 1 15), BarData (bar_on 2020 2 15),
                     BarData (bar_on 2020 2 16)]"

text \<open>The example engine loaded with these histories, before \<^verbatim>\<open>run_backtesting\<close>.\<close>

definition engine_days :: "unit engine" where
  "engine_days = engine_ex\<lparr>history_data := history_days\<rparr>"

definition engine_months :: "unit engine" where
  "engine_months = engine_ex\<lparr>history_data := history_months\<rparr>"

section \<open>Theorems\<close>

subsection \<open>Grid search\<close>

lemma sort_reverse_descending:
  "sorted_wrt (\<lambda>a b. key a \<ge> key b) (sort_reverse key xs)"
proof -
  have "sorted (map key (sort_key key (rev xs)))"
    by (rule sorted_sort_key)
  then have "sorted_wrt (\<lambda>a b. key a \<le> key b) (sort_key key (rev xs))"
    by (simp add: sorted_map)
  then show ?thesis
    by (simp add: sort_reverse_def sorted_wrt_rev)
qed

lemma mset_sort_reverse: "mset (sort_reverse key xs) = mset xs"
  by (simp add: sort_reverse_def)

lemma filter_sort_reverse:
  "filter (\<lambda>x. key x = k) (sort_reverse key xs) = filter (\<lambda>x. key x = k) xs"
  by (simp add: sort_reverse_def rev_filter [symmetric] sort_key_stable)

lemma descending_distinct_strict:
  fixes key :: "'a \<Rightarrow> real"
  shows "sorted_wrt (\<lambda>a b. key a \<ge> key b) xs \<Longrightarrow> distinct (map key xs)
           \<Longrightarrow> sorted_wrt (\<lambda>a b. key a > key b) xs"
  by (induction xs) (auto simp: less_le image_iff)

text \<open>
  C9, as amended. When \<^verbatim>\<open>run_optimization\<close> returns a list, the list is in descending
  order of the target value, it holds exactly the results of the workers, results with
  the same target value keep the order of the grid, and the order is strictly descending
  when the target values are pairwise distinct.
\<close>

theorem run_optimization_descending:
  assumes "run_optimization optimize params target_name = Inr (Some rs)"
  shows "descending rs
    \<and> (\<exists>ws. get_all (map (optimize target_name) (generate_setting params)) = Inr ws
          \<and> mset rs = mset ws
          \<and> (\<forall>k. filter (\<lambda>r. target_value r = k) rs = filter (\<lambda>r. target_value r = k) ws))
    \<and> (distinct (map target_value rs) \<longrightarrow> strictly_descending rs)"
proof -
  from assms obtain ws where
    ws: "get_all (map (optimize target_name) (generate_setting params)) = Inr ws"
    and rs: "rs = sort_reverse target_value ws"
    by (auto simp: run_optimization_def Let_def split: if_splits sum.splits)
  have d: "descending rs"
    unfolding descending_def rs by (rule sort_reverse_descending)
  moreover have "distinct (map target_value rs) \<longrightarrow> strictly_descending rs"
    using d unfolding descending_def strictly_descending_def
    by (blast intro: descending_distinct_strict)
  ultimately show ?thesis
    using ws by (simp add: rs mset_sort_reverse filter_sort_reverse)
qed

text \<open>Scenario S6: the grid \<open>A: 1.0\<close>, \<open>B: 3.0\<close>, \<open>C: 2.0\<close> comes back as \<open>[B, C, A]\<close>.\<close>

theorem run_optimization_descending_witness:
  "run_optimization worker_s6 grid_s6 ''sharpe_ratio''
     = Inr (Some [(''B'', 3, ()), (''C'', 2, ()), (''A'', 1, ())])
   \<and> descending [(''B'', 3, ()), (''C'', 2, ()), (''A'', 1 :: real, ())]
   \<and> strictly_descending [(''B'', 3, ()), (''C'', 2, ()), (''A'', 1 :: real, ())]"
proof -
  have run: "run_optimization worker_s6 grid_s6 ''sharpe_ratio''
     = Inr (Some [(''B'', 3, ()), (''C'', 2, ()), (''A'', 1, ())])"
    by (simp add: run_optimization_def grid_s6_def worker_s6_def generate_setting_def
        sort_reverse_def target_value_def)
  from run_optimization_descending [OF run] show ?thesis
    using run by (simp add: target_value_def)
qed

text \<open>
  C9, as stated, fails on ties: two settings that reach the same target value come back
  side by side, and the list is not strictly descending.
\<close>

theorem run_optimization_tie:
  "run_optimization worker_tie grid_tie ''sharpe_ratio''
     = Inr (Some [(''A'', 1, ()), (''B'', 1, ())])
   \<and> \<not> strictly_descending [(''A'', 1 :: real, ()), (''B'', 1, ())]"
  by (simp add: run_optimization_def grid_tie_def worker_tie_def generate_setting_def
      sort_reverse_def target_value_def strictly_descending_def)

subsection \<open>The daily accumulator\<close>

lemma pos_change_of_signed_volume: "pos_change_of trade = signed_volume trade"
  by (simp add: pos_change_of_def signed_volume_def split: direction.splits)

lemma pnl_of_trade_Inr:
  assumes "inv_mode \<longrightarrow> trade_price trade \<noteq> 0 \<and> dr_close_price r \<noteq> 0"
  shows "\<exists>r'. pnl_of_trade sz rt rate_p slip inv_mode trade r = Inr r'
           \<and> dr_close_price r' = dr_close_price r
           \<and> dr_pre_close r' = dr_pre_close r
           \<and> dr_start_pos r' = dr_start_pos r
           \<and> dr_holding_pnl r' = dr_holding_pnl r
           \<and> dr_end_pos r' = dr_end_pos r + pos_change_of trade
           \<and> dr_trading_pnl r' = dr_trading_pnl r
                + trade_pnl_term inv_mode sz (dr_close_price r) trade"
  using assms
  by (simp add: pnl_of_trade_def Let_def trade_pnl_term_def pos_change_of_signed_volume)

lemma pnl_of_trade_Inl:
  assumes "inv_mode" "trade_price trade = 0 \<or> dr_close_price r = 0"
  shows "pnl_of_trade sz rt rate_p slip inv_mode trade r = Inl ZeroDivisionError"
  using assms by (auto simp add: pnl_of_trade_def Let_def)

lemma pnl_of_trades_Inr:
  assumes "inv_mode \<longrightarrow>
             dr_close_price r \<noteq> 0 \<and> \<not> list_ex (\<lambda>trade. trade_price trade = 0) ts"
  shows "\<exists>r'. pnl_of_trades sz rt rate_p slip inv_mode ts r = Inr r'
           \<and> dr_close_price r' = dr_close_price r
           \<and> dr_pre_close r' = dr_pre_close r
           \<and> dr_start_pos r' = dr_start_pos r
           \<and> dr_holding_pnl r' = dr_holding_pnl r
           \<and> dr_end_pos r' = dr_end_pos r + (\<Sum>trade\<leftarrow>ts. pos_change_of trade)
           \<and> dr_trading_pnl r' = dr_trading_pnl r
                + (\<Sum>trade\<leftarrow>ts. trade_pnl_term inv_mode sz (dr_close_price r) trade)"
  using assms
proof (induction ts arbitrary: r)
  case Nil
  then show ?case by simp
next
  case (Cons t ts)
  from Cons.prems have "inv_mode \<longrightarrow> trade_price t \<noteq> 0 \<and> dr_close_price r \<noteq> 0"
    by auto
  from pnl_of_trade_Inr [OF this, of sz rt rate_p slip] obtain r1 where
    r1: "pnl_of_trade sz rt rate_p slip inv_mode t r = Inr r1"
      "dr_close_price r1 = dr_close_price r" "dr_pre_close r1 = dr_pre_close r"
      "dr_start_pos r1 = dr_start_pos r" "dr_holding_pnl r1 = dr_holding_pnl r"
      "dr_end_pos r1 = dr_end_pos r + pos_change_of t"
      "dr_trading_pnl r1 = dr_trading_pnl r + trade_pnl_term inv_mode sz (dr_close_price r) t"
    by blast
  from Cons.prems r1(2) have
    "inv_mode \<longrightarrow> dr_close_price r1 \<noteq> 0 \<and> \<not> list_ex (\<lambda>trade. trade_price trade = 0) ts"
    by auto
  from Cons.IH [OF this] obtain r' where
    r': "pnl_of_trades sz rt rate_p slip inv_mode ts r1 = Inr r'"
      "dr_close_price r' = dr_close_price r1" "dr_pre_close r' = dr_pre_close r1"
      "dr_start_pos r' = dr_start_pos r1" "dr_holding_pnl r' = dr_holding_pnl r1"
      "dr_end_pos r' = dr_end_pos r1 + (\<Sum>trade\<leftarrow>ts. pos_change_of trade)"
      "dr_trading_pnl r' = dr_trading_pnl r1
         + (\<Sum>trade\<leftarrow>ts. trade_pnl_term inv_mode sz (dr_close_price r1) trade)"
    by blast
  show ?case using r1 r' by simp
qed

lemma pnl_of_trades_Inl:
  assumes "inv_mode"
    "dr_close_price r = 0 \<or> list_ex (\<lambda>trade. trade_price trade = 0) ts" "ts \<noteq> []"
  shows "pnl_of_trades sz rt rate_p slip inv_mode ts r = Inl ZeroDivisionError"
  using assms
proof (induction ts arbitrary: r)
  case Nil
  then show ?case by simp
next
  case (Cons t ts)
  show ?case
  proof (cases "trade_price t = 0 \<or> dr_close_price r = 0")
    case True
    then show ?thesis using Cons.prems(1) by (simp add: pnl_of_trade_Inl)
  next
    case False
    with Cons.prems have ex: "list_ex (\<lambda>trade. trade_price trade = 0) ts" by auto
    then have ne: "ts \<noteq> []" by auto
    from False have "inv_mode \<longrightarrow> trade_price t \<noteq> 0 \<and> dr_close_price r \<noteq> 0" by simp
    from pnl_of_trade_Inr [OF this, of sz rt rate_p slip] obtain r1 where
      r1: "pnl_of_trade sz rt rate_p slip inv_mode t r = Inr r1" by blast
    show ?thesis using r1 Cons.IH [OF Cons.prems(1) _ ne, of r1] ex by simp
  qed
qed

lemma pnl_of_trades_zero_price:
  assumes "inv_mode" "list_ex (\<lambda>trade. trade_price trade = 0) ts"
  shows "pnl_of_trades sz rt rate_p slip inv_mode ts r = Inl ZeroDivisionError"
proof -
  from assms(2) have "ts \<noteq> []" by auto
  with assms show ?thesis by (simp add: pnl_of_trades_Inl)
qed

text \<open>
  C4. \<^verbatim>\<open>calculate_pnl\<close> returns for every input but one that makes a formula of the
  inverse mode divide by zero (a close price or a trade price of \<open>0\<close>), where it raises
  \<^verbatim>\<open>ZeroDivisionError\<close>. Where it returns, \<^verbatim>\<open>pre_close\<close> is the value supplied, or \<open>1\<close>
  when \<open>0\<close> was supplied; \<^verbatim>\<open>holding_pnl\<close> is \<open>start_pos * (close - pre_close) * size\<close>
  in normal mode and \<open>start_pos * (1 / pre_close - 1 / close) * size\<close> in inverse mode,
  with that \<^verbatim>\<open>pre_close\<close>; \<^verbatim>\<open>end_pos\<close> is \<^verbatim>\<open>start_pos\<close> plus the position changes of
  the trades of the day (\<open>+volume\<close> for a long trade, \<open>-volume\<close> otherwise); and
  \<^verbatim>\<open>trading_pnl\<close> has grown by \<open>pos_change * (close - price) * size\<close> (normal) or
  \<open>pos_change * (1 / price - 1 / close) * size\<close> (inverse) for each trade.
\<close>

theorem calculate_pnl_formulas:
  "(zero_division inv_mode r \<longrightarrow>
      calculate_pnl pre_close start_pos sz rt rate_p slip inv_mode r = Inl ZeroDivisionError) \<and>
   (\<not> zero_division inv_mode r \<longrightarrow>
      (\<exists>r'. calculate_pnl pre_close start_pos sz rt rate_p slip inv_mode r = Inr r'
         \<and> dr_pre_close r' = (if pre_close = 0 then 1 else pre_close)
         \<and> dr_start_pos r' = start_pos
         \<and> dr_holding_pnl r' =
             holding_pnl_term inv_mode sz start_pos (dr_pre_close r') (dr_close_price r)
         \<and> dr_end_pos r' = start_pos
             + (\<Sum>trade\<leftarrow>dr_trades r.
                  if trade_direction trade = LONG then trade_volume trade
                  else - trade_volume trade)
         \<and> dr_trading_pnl r' = dr_trading_pnl r
             + (\<Sum>trade\<leftarrow>dr_trades r. trade_pnl_term inv_mode sz (dr_close_price r) trade)))"
proof (intro conjI impI)
  assume z: "zero_division inv_mode r"
  show "calculate_pnl pre_close start_pos sz rt rate_p slip inv_mode r = Inl ZeroDivisionError"
  proof (cases "dr_close_price r = 0")
    case True
    then show ?thesis using z by (simp add: calculate_pnl_def zero_division_def)
  next
    case False
    with z have i: inv_mode and ex: "list_ex (\<lambda>trade. trade_price trade = 0) (dr_trades r)"
      by (auto simp: zero_division_def)
    have "\<And>r0. pnl_of_trades sz rt rate_p slip True (dr_trades r) r0 = Inl ZeroDivisionError"
      using ex by (simp add: pnl_of_trades_zero_price)
    then show ?thesis using False i
      by (simp add: calculate_pnl_def Let_def)
  qed
next
  assume nz: "\<not> zero_division inv_mode r"
  define r4 where "r4 = r\<lparr>dr_pre_close := (if pre_close \<noteq> 0 then pre_close else 1),
      dr_start_pos := start_pos, dr_end_pos := start_pos,
      dr_holding_pnl := holding_pnl_term inv_mode sz start_pos
         (if pre_close \<noteq> 0 then pre_close else 1) (dr_close_price r),
      dr_trade_count := length (dr_trades r)\<rparr>"
  from nz have "inv_mode \<longrightarrow> dr_close_price r4 \<noteq> 0
      \<and> \<not> list_ex (\<lambda>trade. trade_price trade = 0) (dr_trades r4)"
    by (auto simp: zero_division_def r4_def)
  from pnl_of_trades_Inr [OF this, of sz rt rate_p slip] obtain r5 where
    r5: "pnl_of_trades sz rt rate_p slip inv_mode (dr_trades r4) r4 = Inr r5"
      "dr_close_price r5 = dr_close_price r4" "dr_pre_close r5 = dr_pre_close r4"
      "dr_start_pos r5 = dr_start_pos r4" "dr_holding_pnl r5 = dr_holding_pnl r4"
      "dr_end_pos r5 = dr_end_pos r4 + (\<Sum>trade\<leftarrow>dr_trades r4. pos_change_of trade)"
      "dr_trading_pnl r5 = dr_trading_pnl r4
         + (\<Sum>trade\<leftarrow>dr_trades r4. trade_pnl_term inv_mode sz (dr_close_price r4) trade)"
    by blast
  have c: "inv_mode \<Longrightarrow> dr_close_price r \<noteq> 0"
    using nz by (auto simp: zero_division_def)
  have "calculate_pnl pre_close start_pos sz rt rate_p slip inv_mode r =
     Inr (r5\<lparr>dr_total_pnl := dr_trading_pnl r5 + dr_holding_pnl r5,
             dr_net_pnl := dr_trading_pnl r5 + dr_holding_pnl r5
                - dr_commission r5 - dr_slippage r5\<rparr>)"
    using r5(1) c
    by (cases inv_mode) (simp_all add: calculate_pnl_def Let_def r4_def holding_pnl_term_def)
  then show "\<exists>r'. calculate_pnl pre_close start_pos sz rt rate_p slip inv_mode r = Inr r'
         \<and> dr_pre_close r' = (if pre_close = 0 then 1 else pre_close)
         \<and> dr_start_pos r' = start_pos
         \<and> dr_holding_pnl r' =
             holding_pnl_term inv_mode sz start_pos (dr_pre_close r') (dr_close_price r)
         \<and> dr_end_pos r' = start_pos
             + (\<Sum>trade\<leftarrow>dr_trades r.
                  if trade_direction trade = LONG then trade_volume trade
                  else - trade_volume trade)
         \<and> dr_trading_pnl r' = dr_trading_pnl r
             + (\<Sum>trade\<leftarrow>dr_trades r. trade_pnl_term inv_mode sz (dr_close_price r) trade)"
    using r5 by (simp add: r4_def pos_change_of_def)
qed

text \<open>
  Scenario S4 on its first day (no previous close, so \<open>1\<close> stands in for it), with a
  short trade of two lots at \<open>105\<close> added: the position ends at \<open>1 - 2\<close>, and the trades
  make \<open>1 * (102 - 100) * 10 + (- 2) * (102 - 105) * 10\<close>. And a day of an inverse contract
  that closes at \<open>0\<close>.
\<close>

theorem calculate_pnl_formulas_witness:
  "\<not> zero_division False day_long_short
   \<and> (\<exists>r'. calculate_pnl 0 0 10 FIXED 0 0 False day_long_short = Inr r'
         \<and> dr_pre_close r' = 1 \<and> dr_holding_pnl r' = 0 \<and> dr_end_pos r' = - 1
         \<and> dr_trading_pnl r' = 80)
   \<and> zero_division True day_zero_close
   \<and> calculate_pnl 0 0 10 FIXED 0 0 True day_zero_close = Inl ZeroDivisionError"
proof -
  have n: "\<not> zero_division False day_long_short"
    by (simp add: zero_division_def)
  have z: "zero_division True day_zero_close"
    by (simp add: zero_division_def day_zero_close_def add_trade_def DailyResult_def)
  from calculate_pnl_formulas [of False day_long_short 0 0 10 FIXED 0 0] n
    calculate_pnl_formulas [of True day_zero_close 0 0 10 FIXED 0 0] z
  show ?thesis
    by (auto simp add: day_long_short_def day_s4_def add_trade_def DailyResult_def trade_s4_def
        trade_short_2_def signed_volume_def trade_pnl_term_def holding_pnl_term_def)
qed

subsection \<open>The round-trip ledger\<close>

lemma ledger_row_lists:
  "trade_profit_list (ledger_row s row l)
     = trade_profit_list l @ [trade_profit (plain_entry s 0 row)]"
  "trade_commission_list (ledger_row s row l)
     = trade_commission_list l @ [trade_commission (plain_entry s 0 row)]"
  "trade_slippage_list (ledger_row s row l)
     = trade_slippage_list l @ [trade_slippage (plain_entry s 0 row)]"
  "length (trade_number_list (ledger_row s row l)) = Suc (length (trade_number_list l))"
  by (simp_all add: ledger_row_def plain_entry_def Let_def)

lemma ledger_rows_lists:
  "trade_profit_list (ledger_rows s rows l)
     = trade_profit_list l @ map (\<lambda>row. trade_profit (plain_entry s 0 row)) rows"
  "trade_commission_list (ledger_rows s rows l)
     = trade_commission_list l @ map (\<lambda>row. trade_commission (plain_entry s 0 row)) rows"
  "trade_slippage_list (ledger_rows s rows l)
     = trade_slippage_list l @ map (\<lambda>row. trade_slippage (plain_entry s 0 row)) rows"
  "length (trade_number_list (ledger_rows s rows l))
     = length (trade_number_list l) + length rows"
  by (induction rows arbitrary: l) (simp_all add: ledger_row_lists)

lemma tail_scan_first_close:
  "CLOSE \<notin> set xs \<Longrightarrow> tail_scan c (enumerate n (xs @ CLOSE # ys)) = n + length xs"
  by (induction xs arbitrary: n c) auto

lemma tail_count_suffix:
  assumes "trade_offset c = CLOSE" "\<forall>t\<in>set suf. trade_offset t \<noteq> CLOSE" "suf \<noteq> []"
    "trade_offset (last suf) = OPEN"
  shows "tail_count (pre @ [c] @ suf) = length suf"
proof -
  have r: "rev (map trade_offset (pre @ [c] @ suf))
             = rev (map trade_offset suf) @ CLOSE # rev (map trade_offset pre)"
    using assms(1) by simp
  have h: "hd (rev (map trade_offset suf) @ CLOSE # rev (map trade_offset pre)) = OPEN"
    using assms(3,4) by (simp add: hd_rev last_map)
  have n: "CLOSE \<notin> set (rev (map trade_offset suf))"
    using assms(2) by auto
  show ?thesis
    unfolding tail_count_def Let_def r using h tail_scan_first_close [OF n, of 0 0]
    by simp
qed

lemma tail_count_not_open:
  assumes "rows \<noteq> []" "trade_offset (last rows) \<noteq> OPEN"
  shows "tail_count rows = 0"
  using assms by (simp add: tail_count_def hd_rev last_map)

lemma entries_of_maps:
  assumes "trade_profit_list l = map P rows" "trade_commission_list l = map C rows"
    "trade_slippage_list l = map S rows"
  shows "entries_of l =
     map (\<lambda>(n, row). \<lparr>trade_number = n, trade_profit = P row, trade_commission = C row,
            trade_slippage = S row, final_profit = P row - C row - S row\<rparr>)
       (zip (trade_number_list l) rows)"
proof -
  have "zip ns (zip (map P rows) (zip (map C rows) (map S rows)))
          = map (\<lambda>(n, row). (n, P row, C row, S row)) (zip ns rows)" for ns :: "nat list"
  proof (induction rows arbitrary: ns)
    case Nil
    then show ?case by simp
  next
    case (Cons a rows)
    then show ?case by (cases ns) simp_all
  qed
  then show ?thesis unfolding entries_of_def assms by (simp add: split_def)
qed

lemma plain_entry_fields:
  "\<lparr>trade_number = n, trade_profit = trade_profit (plain_entry s 0 row),
     trade_commission = trade_commission (plain_entry s 0 row),
     trade_slippage = trade_slippage (plain_entry s 0 row),
     final_profit = trade_profit (plain_entry s 0 row) - trade_commission (plain_entry s 0 row)
        - trade_slippage (plain_entry s 0 row)\<rparr>
   = plain_entry s n row"
  by (simp add: plain_entry_def Let_def)

lemma rewritten_entry_fields:
  "\<lparr>trade_number = n, trade_profit = modify_profit s lc row,
     trade_commission = modify_commission s lc row,
     trade_slippage = modify_slippage s lc row,
     final_profit = modify_profit s lc row - modify_commission s lc row
        - modify_slippage s lc row\<rparr>
   = rewritten_entry s lc n row"
  by (simp add: rewritten_entry_def modify_profit_def modify_commission_def modify_slippage_def
      Let_def algebra_simps)

lemma entries_of_plain:
  "entries_of (ledger_rows s rows ledger_start)
     = plain_entries s (trade_numbers s rows) rows"
proof -
  have "entries_of (ledger_rows s rows ledger_start) =
     map (\<lambda>(n, row). \<lparr>trade_number = n, trade_profit = trade_profit (plain_entry s 0 row),
            trade_commission = trade_commission (plain_entry s 0 row),
            trade_slippage = trade_slippage (plain_entry s 0 row),
            final_profit = trade_profit (plain_entry s 0 row)
               - trade_commission (plain_entry s 0 row) - trade_slippage (plain_entry s 0 row)\<rparr>)
       (zip (trade_number_list (ledger_rows s rows ledger_start)) rows)"
    by (rule entries_of_maps) (simp_all add: ledger_rows_lists ledger_start_def)
  then show ?thesis
    by (simp add: plain_entry_fields plain_entries_def trade_numbers_def)
qed

lemma entries_of_append:
  assumes "trade_profit_list l = map P A @ map P' B"
    "trade_commission_list l = map C A @ map C' B"
    "trade_slippage_list l = map S A @ map S' B"
  shows "entries_of l =
     map (\<lambda>(n, row). \<lparr>trade_number = n, trade_profit = P row, trade_commission = C row,
            trade_slippage = S row, final_profit = P row - C row - S row\<rparr>)
       (zip (take (length A) (trade_number_list l)) A)
     @ map (\<lambda>(n, row). \<lparr>trade_number = n, trade_profit = P' row, trade_commission = C' row,
            trade_slippage = S' row, final_profit = P' row - C' row - S' row\<rparr>)
       (zip (drop (length A) (trade_number_list l)) B)"
proof -
  let ?rows = "map Inl A @ map Inr B"
  have "entries_of l =
     map (\<lambda>(n, row). \<lparr>trade_number = n, trade_profit = case_sum P P' row,
            trade_commission = case_sum C C' row, trade_slippage = case_sum S S' row,
            final_profit = case_sum P P' row - case_sum C C' row - case_sum S S' row\<rparr>)
       (zip (trade_number_list l) ?rows)"
    by (rule entries_of_maps) (simp_all add: assms)
  then show ?thesis
    by (simp add: zip_append2 zip_map2 split_def)
qed

text \<open>
  C6, as amended. The tail rewrite goes by the offset of the last trade, not by the net
  volume. When the last trade is an \<open>OPEN\<close> and an earlier trade is a \<open>CLOSE\<close>, exactly
  the trades after the last \<open>CLOSE\<close> are rewritten: the profit becomes
  \<open>size * (close_last - price) * volume\<close> for a long trade and its negation for a
  short one, the commission is doubled under the fixed rate and becomes
  \<open>size * (close_last + price) * volume * rate\<close> under the floating rate, and the
  slippage becomes \<open>2 * size * slippage\<close>; the trades up to the last \<open>CLOSE\<close> keep their
  entries. When the last trade is not an \<open>OPEN\<close>, no entry is rewritten.
\<close>

theorem calculate_trade_result_tail_rewrite:
  "(rows = pre @ [c] @ suf \<and> trade_offset c = CLOSE
      \<and> (\<forall>t\<in>set suf. trade_offset t \<noteq> CLOSE) \<and> suf \<noteq> []
      \<and> trade_offset (last suf) = OPEN \<and> daily_df s = Some df \<and> df \<noteq> [] \<longrightarrow>
      calculate_trade_result s (Some rows) =
        Inr (plain_entries s (take (Suc (length pre)) (trade_numbers s rows)) (pre @ [c])
             @ rewritten_entries s (dr_close_price (last df))
                 (drop (Suc (length pre)) (trade_numbers s rows)) suf)) \<and>
   (rows \<noteq> [] \<and> trade_offset (last rows) \<noteq> OPEN \<longrightarrow>
      calculate_trade_result s (Some rows) = Inr (plain_entries s (trade_numbers s rows) rows))"
proof (intro conjI impI)
  assume a: "rows \<noteq> [] \<and> trade_offset (last rows) \<noteq> OPEN"
  then have "tail_count rows = 0"
    by (simp add: tail_count_not_open)
  then show "calculate_trade_result s (Some rows)
               = Inr (plain_entries s (trade_numbers s rows) rows)"
    using a by (simp add: calculate_trade_result_def Let_def entries_of_plain)
next
  assume a: "rows = pre @ [c] @ suf \<and> trade_offset c = CLOSE
      \<and> (\<forall>t\<in>set suf. trade_offset t \<noteq> CLOSE) \<and> suf \<noteq> []
      \<and> trade_offset (last suf) = OPEN \<and> daily_df s = Some df \<and> df \<noteq> []"
  then have rows: "rows = pre @ [c] @ suf" by simp
  from a have cnt: "tail_count rows = length suf"
    unfolding rows by (intro tail_count_suffix) simp_all
  let ?lc = "dr_close_price (last df)"
  let ?l = "ledger_rows s rows ledger_start"
  let ?l' = "?l\<lparr>trade_profit_list :=
                  set_tail (length suf) (trade_profit_list ?l) (map (modify_profit s ?lc) suf),
                trade_commission_list :=
                  set_tail (length suf) (trade_commission_list ?l)
                    (map (modify_commission s ?lc) suf),
                trade_slippage_list :=
                  set_tail (length suf) (trade_slippage_list ?l)
                    (map (modify_slippage s ?lc) suf)\<rparr>"
  have res: "calculate_trade_result s (Some rows) = Inr (entries_of ?l')"
    using a cnt by (simp add: calculate_trade_result_def Let_def)
  have e: "entries_of ?l' =
     map (\<lambda>(n, row). \<lparr>trade_number = n, trade_profit = trade_profit (plain_entry s 0 row),
            trade_commission = trade_commission (plain_entry s 0 row),
            trade_slippage = trade_slippage (plain_entry s 0 row),
            final_profit = trade_profit (plain_entry s 0 row)
               - trade_commission (plain_entry s 0 row) - trade_slippage (plain_entry s 0 row)\<rparr>)
       (zip (take (length (pre @ [c])) (trade_number_list ?l')) (pre @ [c]))
     @ map (\<lambda>(n, row). \<lparr>trade_number = n, trade_profit = modify_profit s ?lc row,
            trade_commission = modify_commission s ?lc row,
            trade_slippage = modify_slippage s ?lc row,
            final_profit = modify_profit s ?lc row - modify_commission s ?lc row
               - modify_slippage s ?lc row\<rparr>)
       (zip (drop (length (pre @ [c])) (trade_number_list ?l')) suf)"
    by (rule entries_of_append)
      (simp_all add: ledger_rows_lists ledger_start_def set_tail_def rows)
  show "calculate_trade_result s (Some rows) =
        Inr (plain_entries s (take (Suc (length pre)) (trade_numbers s rows)) (pre @ [c])
             @ rewritten_entries s (dr_close_price (last df))
                 (drop (Suc (length pre)) (trade_numbers s rows)) suf)"
    unfolding res e
    by (simp add: plain_entry_fields rewritten_entry_fields plain_entries_def
        rewritten_entries_def trade_numbers_def)
qed

lemma trade_numbers_examples:
  "trade_numbers engine_ex rows_open = [1, 1, 2]"
  "trade_numbers engine_ex rows_closed = [1, 1]"
  "trade_numbers engine_ex rows_flat = [1, 1, 1]"
  by (simp_all add: trade_numbers_def rows_open_def rows_closed_def rows_flat_def trade_ex_def
      ledger_row_def ledger_start_def engine_ex_def init_engine_def Let_def)

text \<open>
  A round trip followed by a short position left open: the third trade is marked to the
  last close \<open>110\<close>, the round trip keeps its cash flows; and a closed round trip is left
  as it is.
\<close>

theorem calculate_trade_result_tail_rewrite_witness:
  "calculate_trade_result engine_ex (Some rows_open) =
     Inr [\<lparr>trade_number = 1, trade_profit = - 1000, trade_commission = 2,
            trade_slippage = 10, final_profit = - 1012\<rparr>,
          \<lparr>trade_number = 1, trade_profit = 1050, trade_commission = 2,
            trade_slippage = 10, final_profit = 1038\<rparr>,
          \<lparr>trade_number = 2, trade_profit = - 30, trade_commission = 4,
            trade_slippage = 20, final_profit = - 54\<rparr>]
   \<and> calculate_trade_result engine_ex (Some rows_closed) =
     Inr [\<lparr>trade_number = 1, trade_profit = - 1000, trade_commission = 2,
            trade_slippage = 10, final_profit = - 1012\<rparr>,
          \<lparr>trade_number = 1, trade_profit = 1050, trade_commission = 2,
            trade_slippage = 10, final_profit = 1038\<rparr>]"
proof -
  have df: "daily_df engine_ex = Some [DailyResult (2020, 1, 2) 110]"
    by (simp add: engine_ex_def init_engine_def)
  have o: "rows_open = [trade_ex 1 LONG OPEN 100 1] @ [trade_ex 2 SHORT CLOSE 105 1]
             @ [trade_ex 3 SHORT OPEN 107 1]"
    by (simp add: rows_open_def)
  have off [simp]: "trade_offset (trade_ex n d off p v) = off" for n d off p v
    by (simp add: trade_ex_def)
  have c: "rows_closed \<noteq> [] \<and> trade_offset (last rows_closed) \<noteq> OPEN"
    by (simp add: rows_closed_def)
  from calculate_trade_result_tail_rewrite
    [of rows_open "[trade_ex 1 LONG OPEN 100 1]" "trade_ex 2 SHORT CLOSE 105 1"
      "[trade_ex 3 SHORT OPEN 107 1]" engine_ex "[DailyResult (2020, 1, 2) 110]"] o df
  have 1: "calculate_trade_result engine_ex (Some rows_open) =
        Inr (plain_entries engine_ex [1, 1]
               [trade_ex 1 LONG OPEN 100 1, trade_ex 2 SHORT CLOSE 105 1]
             @ rewritten_entries engine_ex 110 [2] [trade_ex 3 SHORT OPEN 107 1])"
    by (simp add: trade_numbers_examples DailyResult_def)
  from calculate_trade_result_tail_rewrite [of rows_closed _ _ _ engine_ex] c
  have 2: "calculate_trade_result engine_ex (Some rows_closed)
             = Inr (plain_entries engine_ex [1, 1] rows_closed)"
    by (simp add: trade_numbers_examples)
  show ?thesis
    unfolding 1 2
    by (simp add: plain_entries_def rewritten_entries_def plain_entry_def rewritten_entry_def
        rows_closed_def trade_ex_def engine_ex_def init_engine_def Let_def)
qed

text \<open>
  C6, as stated, fails: one lot opened, two closed, one opened again leave the net
  volume at \<open>0\<close>, and the last trade is rewritten all the same (its profit is \<open>30\<close>, the
  move from \<open>107\<close> to the last close \<open>110\<close>, instead of the cash flow \<open>- 1070\<close>).
\<close>

theorem calculate_trade_result_flat_rewritten:
  "net_volume engine_ex rows_flat = 0
   \<and> calculate_trade_result engine_ex (Some rows_flat) =
     Inr [\<lparr>trade_number = 1, trade_profit = - 1000, trade_commission = 2,
            trade_slippage = 10, final_profit = - 1012\<rparr>,
          \<lparr>trade_number = 1, trade_profit = 2100, trade_commission = 4,
            trade_slippage = 10, final_profit = 2086\<rparr>,
          \<lparr>trade_number = 1, trade_profit = 30, trade_commission = 4,
            trade_slippage = 20, final_profit = 6\<rparr>]
   \<and> plain_entry engine_ex 1 (trade_ex 3 LONG OPEN 107 1) =
       \<lparr>trade_number = 1, trade_profit = - 1070, trade_commission = 2,
         trade_slippage = 10, final_profit = - 1082\<rparr>"
  by (simp add: net_volume_def calculate_trade_result_def rows_flat_def trade_ex_def
      ledger_row_def ledger_start_def engine_ex_def init_engine_def Let_def tail_count_def
      entries_of_def set_tail_def modify_profit_def modify_commission_def modify_slippage_def
      plain_entry_def DailyResult_def)

text \<open>
  Scenario S5, a single opening trade that is never closed: the scan of the offsets
  ends without a \<^verbatim>\<open>break\<close> and leaves \<^verbatim>\<open>count\<close> at the last index \<open>0\<close>, so the trade
  keeps its cash flow and nothing is marked to the last close.
\<close>

lemma calculate_trade_result_single_open:
  "net_volume engine_ex rows_s5 = 1
   \<and> calculate_trade_result engine_ex (Some rows_s5) =
     Inr [\<lparr>trade_number = 1, trade_profit = - 1000, trade_commission = 2,
            trade_slippage = 10, final_profit = - 1012\<rparr>]"
  by (simp add: net_volume_def calculate_trade_result_def rows_s5_def trade_ex_def
      ledger_row_def ledger_start_def engine_ex_def init_engine_def Let_def tail_count_def
      entries_of_def)

subsection \<open>Statistics without a daily frame\<close>

lemma read_output_names:
  "read_locals no_frame_locals output_names = Inl (NameError ''final_balance'')"
  by code_simp

lemma read_statistics_keys:
  "read_locals ((''capital'', Num c) # no_frame_locals) statistics_keys
     = Inl (NameError ''final_balance'')"
  by code_simp

text \<open>
  C10. Without a daily frame (no argument, and \<^verbatim>\<open>self.daily_df\<close> is \<^verbatim>\<open>None\<close>)
  \<^verbatim>\<open>calculate_statistics\<close> returns no statistics map: \<^verbatim>\<open>final_balance\<close> is not
  assigned on that branch, and the call raises the \<^verbatim>\<open>NameError\<close> of that name, from
  the dictionary \<^verbatim>\<open>statistics\<close> and, with \<^verbatim>\<open>output\<close> set, already from the last line
  of the output.
\<close>

theorem calculate_statistics_no_frame:
  "calculate_statistics frame_locals self_capital None None output
     = Inl (NameError ''final_balance'')"
  by (cases "output")
    (simp_all add: calculate_statistics_def read_output_names read_statistics_keys)

subsection \<open>The order books\<close>

lemma same_outside_books_refl: "same_outside_books s s"
  by (simp add: same_outside_books_def)

lemma same_outside_books_trans:
  "same_outside_books s s1 \<Longrightarrow> same_outside_books s1 s2 \<Longrightarrow> same_outside_books s s2"
  unfolding same_outside_books_def
  by (cases s, cases s1, cases s2) simp

lemma same_outside_books_fields:
  assumes "same_outside_books s s'"
  shows "rate_type s' = rate_type s" "rate s' = rate s" "slippage s' = slippage s"
    "size_c s' = size_c s" "pricetick s' = pricetick s" "capital s' = capital s"
    "mode s' = mode s" "inverse_c s' = inverse_c s" "bar s' = bar s" "tick s' = tick s"
    "datetime s' = datetime s" "days s' = days s" "callback s' = callback s"
    "history_data s' = history_data s" "trade_count s' = trade_count s"
    "trades s' = trades s" "daily_results s' = daily_results s" "daily_df s' = daily_df s"
    "inited s' = inited s" "trading s' = trading s" "pos s' = pos s"
  using assms unfolding same_outside_books_def
  by (cases s, cases s', simp)+

lemma api_frame_refl: "api_frame s s"
  by (simp add: api_frame_def same_outside_books_refl limit_kept_def stop_kept_def)

lemma limit_step_trans:
  assumes "limit_kept k s s1 \<or> limit_cancelled k s s1" "limit_kept k s1 s2 \<or> limit_cancelled k s1 s2"
  shows "limit_kept k s s2 \<or> limit_cancelled k s s2"
  using assms unfolding limit_kept_def limit_cancelled_def by auto

lemma stop_step_trans:
  assumes "stop_kept k s s1 \<or> stop_cancelled k s s1" "stop_kept k s1 s2 \<or> stop_cancelled k s1 s2"
  shows "stop_kept k s s2 \<or> stop_cancelled k s s2"
  using assms unfolding stop_kept_def stop_cancelled_def by auto

lemma api_frame_trans:
  assumes "api_frame s s1" "api_frame s1 s2"
  shows "api_frame s s2"
  unfolding api_frame_def
proof (intro conjI allI impI)
  assume "books_ok s"
  then show "books_ok s2" using assms by (simp add: api_frame_def)
next
  show "same_outside_books s s2"
    using assms by (auto simp: api_frame_def intro: same_outside_books_trans)
  show "limit_order_count s \<le> limit_order_count s2" "stop_order_count s \<le> stop_order_count s2"
    using assms by (auto simp: api_frame_def)
next
  fix k assume "k \<le> limit_order_count s"
  then show "limit_kept k s s2 \<or> limit_cancelled k s s2"
    using assms limit_step_trans [of k s s1 s2] by (auto simp: api_frame_def)
next
  fix k assume "k \<le> stop_order_count s"
  then show "stop_kept k s s2 \<or> stop_cancelled k s s2"
    using assms stop_step_trans [of k s s1 s2] by (auto simp: api_frame_def)
qed

lemma api_frame_user: "api_frame s (s\<lparr>user := u\<rparr>)"
  by (simp add: api_frame_def same_outside_books_def limit_kept_def stop_kept_def books_ok_def)

lemma set_insert_key: "set (insert_key k ks) = insert k (set ks)"
  by (auto simp: insert_key_def)

lemma send_limit_order_books_ok:
  "books_ok s \<Longrightarrow> books_ok (snd (send_limit_order d off p v s))"
  by (auto simp: books_ok_def send_limit_order_def Let_def set_insert_key dom_update)

lemma send_stop_order_books_ok:
  "books_ok s \<Longrightarrow> books_ok (snd (send_stop_order d off p v s))"
  by (auto simp: books_ok_def send_stop_order_def Let_def set_insert_key dom_update)

lemma send_limit_order_frame: "api_frame s (snd (send_limit_order d off p v s))"
  using send_limit_order_books_ok [of s d off p v]
  by (auto simp: api_frame_def send_limit_order_def Let_def same_outside_books_def
      limit_kept_def stop_kept_def insert_key_def update_conv')

lemma send_stop_order_frame: "api_frame s (snd (send_stop_order d off p v s))"
  using send_stop_order_books_ok [of s d off p v]
  by (auto simp: api_frame_def send_stop_order_def Let_def same_outside_books_def
      limit_kept_def stop_kept_def insert_key_def update_conv')

lemma t_send_order_frame: "api_frame s (state_of (sent (t_send_order d off p v stop lock s) s))"
  using send_limit_order_frame [of s d off _ v] send_stop_order_frame [of s d off _ v]
  by (auto simp: t_send_order_def send_order_def sent_def api_frame_refl split_def Let_def
      split: sum.splits)

lemma cancel_limit_order_frame:
  assumes "frames ivk"
  shows "api_frame s (state_of (cancel_limit_order ivk st vt_orderid s))"
proof (cases vt_orderid)
  case (BACKTESTING k)
  show ?thesis
  proof (cases "k \<in> set (active_limit_orders s)")
    case False
    then show ?thesis by (simp add: cancel_limit_order_def BACKTESTING api_frame_refl)
  next
    case True
    show ?thesis
    proof (cases "map_of (limit_orders s) k")
      case None
      then show ?thesis using True by (simp add: cancel_limit_order_def BACKTESTING api_frame_refl)
    next
      case (Some order)
      let ?o = "order\<lparr>order_status := CANCELLED\<rparr>"
      let ?s = "s\<lparr>active_limit_orders := removeAll k (active_limit_orders s),
                   limit_orders := AList.update k ?o (limit_orders s)\<rparr>"
      have "books_ok s \<Longrightarrow> books_ok ?s"
        using True by (auto simp: books_ok_def dom_update)
      then have 1: "api_frame s ?s"
        using True Some
        by (auto simp: api_frame_def same_outside_books_def limit_kept_def limit_cancelled_def
            stop_kept_def update_conv')
      have 2: "api_frame ?s (state_of (ivk (on_order st ?o) ?s))"
        using assms by (simp add: frames_def)
      show ?thesis
        using api_frame_trans [OF 1 2] True Some
        by (simp add: cancel_limit_order_def BACKTESTING Let_def)
    qed
  qed
qed (simp_all add: cancel_limit_order_def api_frame_refl)

lemma cancel_stop_order_frame:
  assumes "frames ivk"
  shows "api_frame s (state_of (cancel_stop_order ivk st vt_orderid s))"
proof (cases vt_orderid)
  case (STOP k)
  show ?thesis
  proof (cases "k \<in> set (active_stop_orders s)")
    case False
    then show ?thesis by (simp add: cancel_stop_order_def STOP api_frame_refl)
  next
    case True
    show ?thesis
    proof (cases "map_of (stop_orders s) k")
      case None
      then show ?thesis using True by (simp add: cancel_stop_order_def STOP api_frame_refl)
    next
      case (Some so)
      let ?o = "so\<lparr>stop_status := STOP_CANCELLED\<rparr>"
      let ?s = "s\<lparr>active_stop_orders := removeAll k (active_stop_orders s),
                   stop_orders := AList.update k ?o (stop_orders s)\<rparr>"
      have "books_ok s \<Longrightarrow> books_ok ?s"
        using True by (auto simp: books_ok_def dom_update)
      then have 1: "api_frame s ?s"
        using True Some
        by (auto simp: api_frame_def same_outside_books_def stop_kept_def stop_cancelled_def
            limit_kept_def update_conv')
      have 2: "api_frame ?s (state_of (ivk (on_stop_order st ?o) ?s))"
        using assms by (simp add: frames_def)
      show ?thesis
        using api_frame_trans [OF 1 2] True Some
        by (simp add: cancel_stop_order_def STOP Let_def)
    qed
  qed
qed (simp_all add: cancel_stop_order_def api_frame_refl)

lemma for_each_frame:
  assumes "\<And>x s. api_frame s (state_of (f x s))"
  shows "api_frame s (state_of (for_each f xs s))"
proof (induction xs arbitrary: s)
  case Nil
  then show ?case by (simp add: api_frame_refl)
next
  case (Cons x xs)
  show ?case
  proof (cases "f x s")
    case (Normal s1)
    with assms [of s x] have "api_frame s s1" by simp
    from api_frame_trans [OF this Cons.IH [of s1]] show ?thesis using Normal by simp
  next
    case (Raised e s1)
    with assms [of s x] show ?thesis by simp
  qed
qed

lemma cancel_all_frame:
  assumes "frames ivk"
  shows "api_frame s (state_of (cancel_all ivk st s))"
proof (cases "for_each (cancel_limit_order ivk st) (map BACKTESTING (active_limit_orders s)) s")
  case (Normal s1)
  have "api_frame s (state_of (for_each (cancel_limit_order ivk st) (map BACKTESTING (active_limit_orders s)) s))"
    by (rule for_each_frame) (rule cancel_limit_order_frame [OF assms])
  then have 1: "api_frame s s1"
    by (simp add: Normal)
  have 2: "api_frame s1 (state_of (for_each (cancel_stop_order ivk st) (map STOP (active_stop_orders s1)) s1))"
    by (rule for_each_frame) (rule cancel_stop_order_frame [OF assms])
  show ?thesis using api_frame_trans [OF 1 2] Normal by (simp add: cancel_all_def)
next
  case (Raised e s1)
  have "api_frame s (state_of (for_each (cancel_limit_order ivk st) (map BACKTESTING (active_limit_orders s)) s))"
    by (rule for_each_frame) (rule cancel_limit_order_frame [OF assms])
  then show ?thesis
    by (simp add: Raised cancel_all_def)
qed

lemma run_call_frame:
  assumes "frames ivk"
  shows "api_frame s (state_of (run_call ivk st c s))"
  by (cases c)
    (simp_all add: buy_def sell_def short_def cover_def t_send_order_frame t_cancel_order_def
      t_cancel_all_def cancel_order_def cancel_limit_order_frame [OF assms]
      cancel_stop_order_frame [OF assms] cancel_all_frame [OF assms] api_frame_refl)

lemma invoke_frames:
  fixes st :: "'u strategy"
  shows "frames (invoke n st)"
proof (induction n)
  case 0
  then show ?case by (simp add: frames_def api_frame_refl)
next
  case (Suc n)
  show ?case
    unfolding frames_def
  proof (intro allI)
    fix h :: "'u engine \<Rightarrow> 'u reply" and s :: "'u engine"
    let ?r = "h s"
    let ?s = "s\<lparr>user := new_user ?r\<rparr>"
    have 1: "api_frame s ?s" by (rule api_frame_user)
    have 2: "api_frame ?s (state_of (for_each (run_call (invoke n st) st) (calls ?r) ?s))"
      by (rule for_each_frame) (rule run_call_frame [OF Suc])
    have "state_of (invoke (Suc n) st h s) = state_of (for_each (run_call (invoke n st) st) (calls ?r) ?s)"
      by (simp add: Let_def split: outcome.splits option.splits)
    then show "api_frame s (state_of (invoke (Suc n) st h s))"
      using api_frame_trans [OF 1 2] by simp
  qed
qed

lemma invoke_frame: "api_frame s (state_of (invoke n st h s))"
  using invoke_frames [of n st] by (simp add: frames_def)

lemma api_frame_same:
  assumes "api_frame s s'"
  shows "same_outside_books s s'"
  using assms by (simp add: api_frame_def)

lemmas api_frame_fields = same_outside_books_fields [OF api_frame_same]

lemma api_frame_limit_count: "api_frame s s' \<Longrightarrow> limit_order_count s \<le> limit_order_count s'"
  by (simp add: api_frame_def)

lemma api_frame_stop_count: "api_frame s s' \<Longrightarrow> stop_order_count s \<le> stop_order_count s'"
  by (simp add: api_frame_def)

lemma api_frame_limit:
  assumes "api_frame s s'" "k \<le> limit_order_count s"
  shows "limit_kept k s s' \<or> limit_cancelled k s s'"
  using assms by (simp add: api_frame_def)

lemma api_frame_stop:
  assumes "api_frame s s'" "k \<le> stop_order_count s"
  shows "stop_kept k s s' \<or> stop_cancelled k s s'"
  using assms by (simp add: api_frame_def)

text \<open>An order that is still active after a handler has run was active before, and is as it was.\<close>

lemma api_frame_still_active:
  assumes "api_frame s s'" "k \<le> limit_order_count s" "k \<in> set (active_limit_orders s')"
  shows "k \<in> set (active_limit_orders s) \<and> map_of (limit_orders s') k = map_of (limit_orders s) k"
  using api_frame_limit [OF assms(1,2)] assms(3)
  by (auto simp: limit_kept_def limit_cancelled_def)

text \<open>An order outside the active book is out of the reach of a handler.\<close>

lemma api_frame_inactive:
  assumes "api_frame s s'" "k \<le> limit_order_count s" "k \<notin> set (active_limit_orders s)"
  shows "k \<notin> set (active_limit_orders s') \<and> map_of (limit_orders s') k = map_of (limit_orders s) k"
  using api_frame_limit [OF assms(1,2)] assms(3)
  by (auto simp: limit_kept_def limit_cancelled_def)

lemma api_frame_stop_inactive:
  assumes "api_frame s s'" "k \<le> stop_order_count s" "k \<notin> set (active_stop_orders s)"
  shows "k \<notin> set (active_stop_orders s') \<and> map_of (stop_orders s') k = map_of (stop_orders s) k"
  using api_frame_stop [OF assms(1,2)] assms(3)
  by (auto simp: stop_kept_def stop_cancelled_def)


lemma but_status_fields:
  assumes "but_status order order'"
  shows "order_orderid order' = order_orderid order" "order_direction order' = order_direction order"
    "order_offset order' = order_offset order" "order_price order' = order_price order"
    "order_volume order' = order_volume order" "order_traded order' = order_traded order"
    "order_datetime order' = order_datetime order"
  using assms unfolding but_status_def by (cases order, cases order', simp)+

lemma but_status_refl: "but_status order order"
  by (simp add: but_status_def)

lemma but_status_update: "but_status order (order\<lparr>order_status := x\<rparr>)"
  by (simp add: but_status_def)

lemma but_status_trans: "but_status a b \<Longrightarrow> but_status b c \<Longrightarrow> but_status a c"
  unfolding but_status_def by (cases a, cases b, cases c) simp

lemma api_frame_order:
  assumes "api_frame s s'" "k \<le> limit_order_count s" "map_of (limit_orders s) k = Some order"
  shows "\<exists>order'. map_of (limit_orders s') k = Some order' \<and> but_status order order'"
  using api_frame_limit [OF assms(1,2)] assms(3)
  by (auto simp: limit_kept_def limit_cancelled_def but_status_def)

lemma books_ok_active:
  assumes "books_ok s" "k \<in> set (active_limit_orders s)"
  shows "k \<le> limit_order_count s" "\<exists>order. map_of (limit_orders s) k = Some order"
proof -
  from assms have k: "k \<in> fst ` set (limit_orders s)" by (auto simp: books_ok_def)
  then show "k \<le> limit_order_count s" using assms(1) by (auto simp: books_ok_def)
  from k show "\<exists>order. map_of (limit_orders s) k = Some order"
    by (metis map_of_eq_None_iff not_Some_eq)
qed

lemma books_ok_active_stop:
  assumes "books_ok s" "k \<in> set (active_stop_orders s)"
  shows "k \<le> stop_order_count s" "\<exists>so. map_of (stop_orders s) k = Some so"
proof -
  from assms have k: "k \<in> fst ` set (stop_orders s)" by (auto simp: books_ok_def)
  then show "k \<le> stop_order_count s" using assms(1) by (auto simp: books_ok_def)
  from k show "\<exists>so. map_of (stop_orders s) k = Some so"
    by (metis map_of_eq_None_iff not_Some_eq)
qed

text \<open>The first half of the loop body.\<close>

lemma push_not_traded_facts:
  fixes st :: "'u strategy"
  assumes k: "k \<le> limit_order_count s" and o: "map_of (limit_orders s) k = Some order"
    and d: "s1 = state_of (push_not_traded n st k s)"
  shows "same_outside_books s s1 \<and> limit_order_count s \<le> limit_order_count s1
    \<and> (\<exists>order1. map_of (limit_orders s1) k = Some order1 \<and> but_status order order1
           \<and> order_status order1 \<noteq> SUBMITTING
           \<and> (k \<in> set (active_limit_orders s1) \<longrightarrow>
                 order_status order1
                   = (if order_status order = SUBMITTING then NOTTRADED else order_status order)))
    \<and> (k \<in> set (active_limit_orders s1) \<longrightarrow> k \<in> set (active_limit_orders s))"
proof (cases "order_status order = SUBMITTING")
  case False
  then have s1: "s1 = s" by (simp add: d push_not_traded_def o)
  show ?thesis
    using False by (simp add: s1 o but_status_refl same_outside_books_refl)
next
  case True
  let ?o = "order\<lparr>order_status := NOTTRADED\<rparr>"
  let ?s = "s\<lparr>limit_orders := AList.update k ?o (limit_orders s)\<rparr>"
  have s1: "s1 = state_of (invoke n st (on_order st ?o) ?s)"
    using True by (simp add: d push_not_traded_def o Let_def)
  have f: "api_frame ?s s1" unfolding s1 by (rule invoke_frame)
  have sob: "same_outside_books s ?s" by (simp add: same_outside_books_def)
  have 1: "same_outside_books s s1"
    using same_outside_books_trans [OF sob api_frame_same [OF f]] .
  have 2: "limit_order_count s \<le> limit_order_count s1"
    using api_frame_limit_count [OF f] by simp
  have k': "k \<le> limit_order_count ?s" using k by simp
  have l: "map_of (limit_orders ?s) k = Some ?o" by (simp add: update_conv')
  from api_frame_limit [OF f k'] l
  have 3: "\<exists>order1. map_of (limit_orders s1) k = Some order1 \<and> but_status order order1
           \<and> order_status order1 \<noteq> SUBMITTING
           \<and> (k \<in> set (active_limit_orders s1) \<longrightarrow>
                 order_status order1
                   = (if order_status order = SUBMITTING then NOTTRADED else order_status order))"
    using True by (auto simp: limit_kept_def limit_cancelled_def but_status_def)
  have 4: "k \<in> set (active_limit_orders s1) \<longrightarrow> k \<in> set (active_limit_orders s)"
    using api_frame_still_active [OF f k'] by simp
  show ?thesis using 1 2 3 4 by blast
qed

lemma invoke_listening:
  assumes "calls (h s) = []" "raises (h s) = None" "0 < n"
  shows "invoke n st h s = Normal (s\<lparr>user := new_user (h s)\<rparr>)"
proof -
  from assms(3) obtain m where "n = Suc m" by (cases n) auto
  then show ?thesis using assms(1,2) by (simp add: Let_def)
qed

lemma limit_cross_but_status:
  assumes "but_status order order'"
  shows "limit_long_cross pr order' = limit_long_cross pr order"
    "limit_short_cross pr order' = limit_short_cross pr order"
  using but_status_fields [OF assms]
  by (simp_all add: limit_long_cross_def limit_short_cross_def split_def)

lemma limit_trade_but_status:
  assumes "but_status order order'"
  shows "limit_trade_of pr order' s = limit_trade_of pr order s"
  using but_status_fields [OF assms] limit_cross_but_status [OF assms, of pr]
  by (simp add: limit_trade_of_def split_def)

lemma match_limit_order_no_cross:
  assumes "map_of (limit_orders s) k = Some order"
    "\<not> limit_long_cross pr order" "\<not> limit_short_cross pr order"
  shows "match_limit_order n st pr k s = Normal s"
  using assms by (simp add: match_limit_order_def)

lemma match_limit_order_filled:
  fixes st :: "'u strategy"
  assumes k: "k \<le> limit_order_count s"
    and o: "map_of (limit_orders s) k = Some order"
    and c: "limit_long_cross pr order \<or> limit_short_cross pr order"
    and r: "match_limit_order n st pr k s = Normal s'"
  shows "k \<in> set (active_limit_orders s)
    \<and> trade_count s' = trade_count s + 1
    \<and> trades s' = AList.update (trade_count s + 1) (limit_trade_of pr order s) (trades s)
    \<and> pos s' = pos s + (if limit_long_cross pr order then order_volume order else - order_volume order)
    \<and> k \<notin> set (active_limit_orders s')
    \<and> map_of (limit_orders s') k
        = Some (order\<lparr>order_traded := order_volume order, order_status := ALLTRADED\<rparr>)"
proof -
  obtain lc sc lb sb where pr: "pr = (lc, sc, lb, sb)" by (cases pr) auto
  let ?o1 = "order\<lparr>order_traded := order_volume order, order_status := ALLTRADED\<rparr>"
  let ?s1 = "s\<lparr>limit_orders := AList.update k ?o1 (limit_orders s)\<rparr>"
  obtain s2 where s2: "invoke n st (on_order st ?o1) ?s1 = Normal s2"
    using r o c by (auto simp: match_limit_order_def Let_def split: outcome.splits)
  have f1: "api_frame ?s1 s2"
    using invoke_frame [of ?s1 n st "on_order st ?o1"] s2 by simp
  have a2: "k \<in> set (active_limit_orders s2)"
    using r o c s2 by (auto simp: match_limit_order_def Let_def split: if_splits)
  have k1: "k \<le> limit_order_count ?s1" using k by simp
  from api_frame_still_active [OF f1 k1 a2]
  have a1: "k \<in> set (active_limit_orders s)"
    and o2: "map_of (limit_orders s2) k = Some ?o1"
    by (simp_all add: update_conv')
  let ?t = "limit_trade_of pr order s"
  let ?pc = "if limit_long_cross pr order then order_volume order else - order_volume order"
  let ?s5 = "s2\<lparr>active_limit_orders := removeAll k (active_limit_orders s2),
                 trade_count := trade_count s2 + 1,
                 trades := AList.update (trade_count s2 + 1) ?t (trades s2),
                 pos := pos s2 + ?pc\<rparr>"
  have same: "trade_count s2 = trade_count s" "trades s2 = trades s" "pos s2 = pos s"
    "datetime s2 = datetime s"
    using api_frame_fields [OF f1] by simp_all
  have t: "\<lparr>trade_orderid = order_orderid order, trade_tradeid = Suc (trade_count s),
             trade_direction = order_direction order, trade_offset = order_offset order,
             trade_price = (if limit_long_cross (lc, sc, lb, sb) order then min (order_price order) lb
                else max (order_price order) sb),
             trade_volume = order_volume order, trade_datetime = datetime s\<rparr> = ?t"
    by (simp add: limit_trade_of_def pr)
  have r5: "match_limit_order n st pr k s = invoke n st (on_trade st ?t) ?s5"
    using o c s2 a2 o2 same
    by (auto simp add: match_limit_order_def Let_def pr limit_trade_of_def)
  have f5: "api_frame ?s5 s'"
    using invoke_frame [of ?s5 n st "on_trade st ?t"] r r5 by simp
  have k5: "k \<le> limit_order_count ?s5"
    using k api_frame_limit_count [OF f1] by simp
  have n5: "k \<notin> set (active_limit_orders ?s5)" by simp
  from api_frame_inactive [OF f5 k5 n5] o2
  have "k \<notin> set (active_limit_orders s')" "map_of (limit_orders s') k = Some ?o1"
    by simp_all
  moreover have "trade_count s' = trade_count s + 1"
    "trades s' = AList.update (trade_count s + 1) ?t (trades s)" "pos s' = pos s + ?pc"
    using api_frame_fields [OF f5] same by simp_all
  ultimately show ?thesis using a1 by simp
qed

lemma match_limit_order_returns:
  fixes st :: "'u strategy"
  assumes a: "k \<in> set (active_limit_orders s)"
    and o: "map_of (limit_orders s) k = Some order"
    and l: "listens st" and n: "0 < n"
  shows "\<exists>s'. match_limit_order n st pr k s = Normal s'"
proof (cases "limit_long_cross pr order \<or> limit_short_cross pr order")
  case False
  then show ?thesis using o by (simp add: match_limit_order_no_cross)
next
  case True
  obtain lc sc lb sb where pr: "pr = (lc, sc, lb, sb)" by (cases pr) auto
  have io: "\<And>order s. invoke n st (on_order st order) s = Normal (s\<lparr>user := new_user (on_order st order s)\<rparr>)"
    using l n by (intro invoke_listening) (simp_all add: listens_def)
  have it: "\<And>trade s. invoke n st (on_trade st trade) s = Normal (s\<lparr>user := new_user (on_trade st trade s)\<rparr>)"
    using l n by (intro invoke_listening) (simp_all add: listens_def)
  show ?thesis
    using True a o
    by (simp add: match_limit_order_def Let_def io it pr update_conv')
qed

lemma cross_limit_order_body_cases:
  fixes st :: "'u strategy"
  assumes ok: "books_ok s" and act: "k \<in> set (active_limit_orders s)"
    and o: "map_of (limit_orders s) k = Some order"
    and r: "cross_limit_order_body n st pr k s = Normal s'"
  shows "\<exists>s1 order1. push_not_traded n st k s = Normal s1
     \<and> map_of (limit_orders s1) k = Some order1 \<and> but_status order order1
     \<and> same_outside_books s s1 \<and> limit_order_count s \<le> limit_order_count s1
     \<and> (if limit_long_cross pr order \<or> limit_short_cross pr order
         then k \<in> set (active_limit_orders s1)
           \<and> order_status order1
               = (if order_status order = SUBMITTING then NOTTRADED else order_status order)
           \<and> trade_count s' = trade_count s + 1
           \<and> trades s' = AList.update (trade_count s + 1) (limit_trade_of pr order s) (trades s)
           \<and> pos s' = pos s + (if limit_long_cross pr order then order_volume order
                                 else - order_volume order)
           \<and> k \<notin> set (active_limit_orders s')
           \<and> map_of (limit_orders s') k
               = Some (order1\<lparr>order_traded := order_volume order, order_status := ALLTRADED\<rparr>)
         else s' = s1)"
proof -
  obtain s1 where p: "push_not_traded n st k s = Normal s1"
    and m: "match_limit_order n st pr k s1 = Normal s'"
    using r by (auto simp: cross_limit_order_body_def split: outcome.splits)
  have k: "k \<le> limit_order_count s" using books_ok_active(1) [OF ok act] .
  have d: "s1 = state_of (push_not_traded n st k s)" by (simp add: p)
  from push_not_traded_facts [OF k o d] obtain order1 where
    sob: "same_outside_books s s1" and c1: "limit_order_count s \<le> limit_order_count s1"
    and o1: "map_of (limit_orders s1) k = Some order1" and b: "but_status order order1"
    and st1: "k \<in> set (active_limit_orders s1) \<longrightarrow>
                 order_status order1
                   = (if order_status order = SUBMITTING then NOTTRADED else order_status order)"
    by blast
  have k1: "k \<le> limit_order_count s1" using k c1 by simp
  note f = same_outside_books_fields [OF sob]
  show ?thesis
  proof (cases "limit_long_cross pr order \<or> limit_short_cross pr order")
    case False
    then have "match_limit_order n st pr k s1 = Normal s1"
      using o1 limit_cross_but_status [OF b, of pr] by (simp add: match_limit_order_no_cross)
    with m have "s' = s1" by simp
    then show ?thesis using False p o1 b sob c1 by simp
  next
    case True
    then have c: "limit_long_cross pr order1 \<or> limit_short_cross pr order1"
      using limit_cross_but_status [OF b, of pr] by simp
    have t: "limit_trade_of pr order1 s1 = limit_trade_of pr order s"
      using limit_trade_but_status [OF b, of pr s1] f(11,15)
      by (simp add: limit_trade_of_def split_def)
    from match_limit_order_filled [OF k1 o1 c m]
    show ?thesis
      using True p o1 b sob c1 st1 t f(15,16,21) limit_cross_but_status [OF b, of pr]
        but_status_fields(5) [OF b]
      by simp
  qed
qed

lemma cross_limit_order_body_returns:
  fixes st :: "'u strategy"
  assumes ok: "books_ok s" and act: "k \<in> set (active_limit_orders s)"
    and o: "map_of (limit_orders s) k = Some order"
    and l: "listens st" and n: "0 < n"
  shows "\<exists>s'. cross_limit_order_body n st pr k s = Normal s'"
proof -
  have io: "\<And>order s. invoke n st (on_order st order) s
              = Normal (s\<lparr>user := new_user (on_order st order s)\<rparr>)"
    using l n by (intro invoke_listening) (simp_all add: listens_def)
  obtain s1 where p: "push_not_traded n st k s = Normal s1"
    by (cases "order_status order = SUBMITTING") (simp_all add: push_not_traded_def o io Let_def)
  have k: "k \<le> limit_order_count s" using books_ok_active(1) [OF ok act] .
  have a1: "k \<in> set (active_limit_orders s1)"
    using p act by (cases "order_status order = SUBMITTING")
      (auto simp: push_not_traded_def o io Let_def)
  from push_not_traded_facts [OF k o, of s1 n st] p obtain order1 where
    o1: "map_of (limit_orders s1) k = Some order1" by auto
  from match_limit_order_returns [OF a1 o1 l n, of pr] p
  show ?thesis by (simp add: cross_limit_order_body_def)
qed

text \<open>
  C1. When the loop of \<^verbatim>\<open>cross_limit_order\<close> comes to an order of the active book and
  the pass returns, a long order has been filled if and only if its price is at least
  the long crossing price and that price is positive, at the price \<open>min(order.price,
  long_best)\<close>; a short order if and only if its price is at most the short crossing
  price and that price is positive, at \<open>max(order.price, short_best)\<close>. So a long fill
  is at most at the price of the order, and a short fill at least. The crossing prices
  are low, high, open, open of the bar in bar mode and ask, bid, ask, bid of the tick in
  tick mode. The pass returns whenever the strategy only listens to its orders and
  trades; a pass that does not return has raised an exception (of a handler, or the
  \<^verbatim>\<open>KeyError\<close> of an order the strategy took from the active book while it was being
  filled).
\<close>

theorem cross_limit_order_fill:
  fixes st :: "'u strategy"
  assumes ok: "books_ok s" and act: "k \<in> set (active_limit_orders s)"
    and o: "map_of (limit_orders s) k = Some order"
  shows "(\<forall>s'. cross_limit_order_body n st (lc, sc, lb, sb) k s = Normal s' \<longrightarrow>
            (order_direction order = LONG \<longrightarrow>
               (if order_price order \<ge> lc \<and> lc > 0
                then filled_at (min (order_price order) lb) order s s' else not_filled s s'))
          \<and> (order_direction order = SHORT \<longrightarrow>
               (if order_price order \<le> sc \<and> sc > 0
                then filled_at (max (order_price order) sb) order s s' else not_filled s s')))
     \<and> min (order_price order) lb \<le> order_price order
     \<and> order_price order \<le> max (order_price order) sb
     \<and> (listens st \<and> 0 < n \<longrightarrow>
           (\<exists>s'. cross_limit_order_body n st (lc, sc, lb, sb) k s = Normal s'))
     \<and> (mode s0 = BAR \<and> bar s0 = Some b \<longrightarrow>
           cross_limit_order n st s0 =
             for_each (cross_limit_order_body n st
                 (bar_low_price b, bar_high_price b, bar_open_price b, bar_open_price b))
               (active_limit_orders s0) s0)
     \<and> (mode s0 = TICK \<and> tick s0 = Some t \<longrightarrow>
           cross_limit_order n st s0 =
             for_each (cross_limit_order_body n st
                 (tick_ask_price_1 t, tick_bid_price_1 t, tick_ask_price_1 t, tick_bid_price_1 t))
               (active_limit_orders s0) s0)"
proof (intro conjI allI impI)
  show "min (order_price order) lb \<le> order_price order"
    "order_price order \<le> max (order_price order) sb"
    by simp_all
next
  assume "listens st \<and> 0 < n"
  then show "\<exists>s'. cross_limit_order_body n st (lc, sc, lb, sb) k s = Normal s'"
    using cross_limit_order_body_returns [OF ok act o] by blast
next
  assume "mode s0 = BAR \<and> bar s0 = Some b"
  then show "cross_limit_order n st s0 =
             for_each (cross_limit_order_body n st
                 (bar_low_price b, bar_high_price b, bar_open_price b, bar_open_price b))
               (active_limit_orders s0) s0"
    by (simp add: cross_limit_order_def limit_cross_prices_def)
next
  assume "mode s0 = TICK \<and> tick s0 = Some t"
  then show "cross_limit_order n st s0 =
             for_each (cross_limit_order_body n st
                 (tick_ask_price_1 t, tick_bid_price_1 t, tick_ask_price_1 t, tick_bid_price_1 t))
               (active_limit_orders s0) s0"
    by (simp add: cross_limit_order_def limit_cross_prices_def)
next
  fix s'
  assume r: "cross_limit_order_body n st (lc, sc, lb, sb) k s = Normal s'"
    and d: "order_direction order = LONG"
  from cross_limit_order_body_cases [OF ok act o r] obtain s1 where
    sob: "same_outside_books s s1"
    and c: "if limit_long_cross (lc, sc, lb, sb) order \<or> limit_short_cross (lc, sc, lb, sb) order
         then trade_count s' = trade_count s + 1
           \<and> trades s' = AList.update (trade_count s + 1)
                 (limit_trade_of (lc, sc, lb, sb) order s) (trades s)
           \<and> pos s' = pos s + (if limit_long_cross (lc, sc, lb, sb) order then order_volume order
                                 else - order_volume order)
         else s' = s1"
    by (auto split: if_splits)
  show "if order_price order \<ge> lc \<and> lc > 0
        then filled_at (min (order_price order) lb) order s s' else not_filled s s'"
    using c d same_outside_books_fields(15,16,21) [OF sob]
    by (auto simp: limit_long_cross_def limit_short_cross_def filled_at_def not_filled_def
        limit_trade_of_def)
next
  fix s'
  assume r: "cross_limit_order_body n st (lc, sc, lb, sb) k s = Normal s'"
    and d: "order_direction order = SHORT"
  from cross_limit_order_body_cases [OF ok act o r] obtain s1 where
    sob: "same_outside_books s s1"
    and c: "if limit_long_cross (lc, sc, lb, sb) order \<or> limit_short_cross (lc, sc, lb, sb) order
         then trade_count s' = trade_count s + 1
           \<and> trades s' = AList.update (trade_count s + 1)
                 (limit_trade_of (lc, sc, lb, sb) order s) (trades s)
           \<and> pos s' = pos s + (if limit_long_cross (lc, sc, lb, sb) order then order_volume order
                                 else - order_volume order)
         else s' = s1"
    by (auto split: if_splits)
  show "if order_price order \<le> sc \<and> sc > 0
        then filled_at (max (order_price order) sb) order s s' else not_filled s s'"
    using c d same_outside_books_fields(15,16,21) [OF sob]
    by (auto simp: limit_long_cross_def limit_short_cross_def filled_at_def not_filled_def
        limit_trade_of_def)
qed

lemma engine_buy_10_simps:
  "active_limit_orders engine_buy_10 = [1]"
  "limit_orders engine_buy_10 = [(1, order_buy_10)]"
  "limit_order_count engine_buy_10 = 1"
  "active_stop_orders engine_buy_10 = []"
  "stop_orders engine_buy_10 = []"
  "trades engine_buy_10 = []"
  "trade_count engine_buy_10 = 0"
  by (simp_all add: engine_buy_10_def send_limit_order_def Let_def engine_trading_def
      engine_ex_def init_engine_def insert_key_def order_buy_10_def)

lemma books_ok_engine_buy_10: "books_ok engine_buy_10"
  by (simp add: books_ok_def engine_buy_10_simps)

lemma listens_quiet: "listens quiet"
  by (simp add: listens_def quiet_def silence_def)

text \<open>
  Scenario S2: a buy order at \<open>10\<close> meets the bar that opens at \<open>8\<close> with a low of \<open>7\<close>,
  and is filled at \<open>8\<close>.
\<close>

theorem cross_limit_order_fill_witness:
  "books_ok engine_buy_10 \<and> 1 \<in> set (active_limit_orders engine_buy_10)
   \<and> map_of (limit_orders engine_buy_10) 1 = Some order_buy_10 \<and> listens quiet
   \<and> (\<exists>s'. cross_limit_order_body 1 quiet (7, 9, 8, 8) 1 engine_buy_10 = Normal s'
          \<and> filled_at 8 order_buy_10 engine_buy_10 s')"
proof -
  have a: "1 \<in> set (active_limit_orders engine_buy_10)"
    and o: "map_of (limit_orders engine_buy_10) 1 = Some order_buy_10"
    by (simp_all add: engine_buy_10_simps)
  from cross_limit_order_fill [OF books_ok_engine_buy_10 a o, where n = 1 and st = quiet
      and lc = 7 and sc = 9 and lb = 8 and sb = 8 and ?s0.0 = engine_buy_10 and b = bar_s2
      and t = "\<lparr>tick_datetime = bar_datetime bar_s2, tick_last_price = 8,
                tick_bid_price_1 = 8, tick_ask_price_1 = 8\<rparr>"]
  show ?thesis
    using books_ok_engine_buy_10 a o listens_quiet
    by (auto simp: order_buy_10_def)
qed

lemma cross_stop_order_body_no_cross:
  assumes "map_of (stop_orders s) k = Some so"
    "\<not> stop_long_cross pr so" "\<not> stop_short_cross pr so"
  shows "cross_stop_order_body n st pr k s = Normal s"
  using assms by (simp add: cross_stop_order_body_def)

lemma trigger_stop_order_fields:
  fixes s :: "'u engine"
  defines "c \<equiv> limit_order_count s + 1"
  assumes s1: "s1 = trigger_stop_order pr k so s"
  shows "limit_order_count s1 = c"
    "limit_orders s1 = AList.update c (stop_order_of so s) (limit_orders s)"
    "active_limit_orders s1 = active_limit_orders s"
    "trade_count s1 = trade_count s + 1"
    "trades s1 = AList.update (trade_count s + 1) (stop_trade_of pr so s) (trades s)"
    "pos s1 = pos s"
    "stop_order_count s1 = stop_order_count s"
    "stop_orders s1 = AList.update k (triggered_of so s) (stop_orders s)"
    "active_stop_orders s1 = removeAll k (active_stop_orders s)"
    "datetime s1 = datetime s"
  unfolding s1 c_def
  by (simp_all add: trigger_stop_order_def Let_def stop_order_of_def stop_trade_of_def split_def)

lemma cross_stop_order_body_triggered:
  fixes st :: "'u strategy"
  assumes ok: "books_ok s" and act: "k \<in> set (active_stop_orders s)"
    and o: "map_of (stop_orders s) k = Some so"
    and c: "stop_long_cross pr so \<or> stop_short_cross pr so"
    and r: "cross_stop_order_body n st pr k s = Normal s'"
  shows "map_of (limit_orders s) (limit_order_count s + 1) = None
    \<and> map_of (limit_orders s') (limit_order_count s + 1) = Some (stop_order_of so s)
    \<and> limit_order_count s + 1 \<notin> set (active_limit_orders s')
    \<and> trade_count s' = trade_count s + 1
    \<and> trades s' = AList.update (trade_count s + 1) (stop_trade_of pr so s) (trades s)
    \<and> pos s' = pos s + (if stop_long_cross pr so then stop_volume so else - stop_volume so)
    \<and> map_of (stop_orders s') k = Some (triggered_of so s)
    \<and> k \<notin> set (active_stop_orders s')"
proof -
  let ?c = "limit_order_count s + 1"
  let ?s1 = "trigger_stop_order pr k so s"
  let ?pc = "if stop_long_cross pr so then stop_volume so else - stop_volume so"
  note t = trigger_stop_order_fields [OF refl, of pr k so s]
  obtain s2 where s2: "invoke n st (on_stop_order st (triggered_of so s)) ?s1 = Normal s2"
    using r o c by (auto simp: cross_stop_order_body_def Let_def split: outcome.splits)
  obtain s3 where s3: "invoke n st (on_order st (stop_order_of so s)) s2 = Normal s3"
    using r o c s2 by (auto simp: cross_stop_order_body_def Let_def split: outcome.splits)
  let ?s4 = "s3\<lparr>pos := pos s3 + ?pc\<rparr>"
  have r4: "invoke n st (on_trade st (stop_trade_of pr so s)) ?s4 = Normal s'"
    using r o c s2 s3
    by (auto simp: cross_stop_order_body_def Let_def stop_order_of_def)
  have f12: "api_frame ?s1 s2" using invoke_frame [of ?s1 n st] s2 by (metis state_of.simps(1))
  have f23: "api_frame s2 s3" using invoke_frame [of s2 n st] s3 by (metis state_of.simps(1))
  have f13: "api_frame ?s1 s3" using api_frame_trans [OF f12 f23] .
  have f4: "api_frame ?s4 s'" using invoke_frame [of ?s4 n st] r4 by (metis state_of.simps(1))
  have fresh: "map_of (limit_orders s) ?c = None"
  proof (rule ccontr)
    assume "map_of (limit_orders s) ?c \<noteq> None"
    then have "?c \<in> fst ` set (limit_orders s)" by (simp add: map_of_eq_None_iff)
    then have "?c \<le> limit_order_count s" using ok by (auto simp: books_ok_def)
    then show False by simp
  qed
  have na: "?c \<notin> set (active_limit_orders s)"
    using books_ok_active(1) [OF ok] by fastforce
  have c1: "?c \<le> limit_order_count ?s1" "?c \<notin> set (active_limit_orders ?s1)"
    using na by (simp_all add: t)
  from api_frame_inactive [OF f13 c1]
  have l3: "?c \<notin> set (active_limit_orders s3)"
    "map_of (limit_orders s3) ?c = Some (stop_order_of so s)"
    by (simp_all add: t update_conv')
  have c4: "?c \<le> limit_order_count ?s4" "?c \<notin> set (active_limit_orders ?s4)"
    using l3 api_frame_limit_count [OF f13] by (simp_all add: t)
  from api_frame_inactive [OF f4 c4] l3
  have l': "?c \<notin> set (active_limit_orders s')"
    "map_of (limit_orders s') ?c = Some (stop_order_of so s)"
    by simp_all
  have k: "k \<le> stop_order_count s" using books_ok_active_stop(1) [OF ok act] .
  have k1: "k \<le> stop_order_count ?s1" "k \<notin> set (active_stop_orders ?s1)"
    using k by (simp_all add: t)
  from api_frame_stop_inactive [OF f13 k1]
  have p3: "k \<notin> set (active_stop_orders s3)" "map_of (stop_orders s3) k = Some (triggered_of so s)"
    by (simp_all add: t update_conv')
  have k4: "k \<le> stop_order_count ?s4" "k \<notin> set (active_stop_orders ?s4)"
    using p3 k api_frame_stop_count [OF f13] by (simp_all add: t)
  from api_frame_stop_inactive [OF f4 k4] p3
  have p': "k \<notin> set (active_stop_orders s')" "map_of (stop_orders s') k = Some (triggered_of so s)"
    by simp_all
  have "trade_count s3 = trade_count s + 1"
    "trades s3 = AList.update (trade_count s + 1) (stop_trade_of pr so s) (trades s)"
    "pos s3 = pos s"
    using api_frame_fields [OF f13] by (simp_all add: t)
  then have g: "trade_count s' = trade_count s + 1"
    "trades s' = AList.update (trade_count s + 1) (stop_trade_of pr so s) (trades s)"
    "pos s' = pos s + ?pc"
    using api_frame_fields [OF f4] by simp_all
  show ?thesis using fresh l' p' g by simp
qed

lemma cross_stop_order_body_returns:
  fixes st :: "'u strategy"
  assumes o: "map_of (stop_orders s) k = Some so" and l: "listens st" and n: "0 < n"
  shows "\<exists>s'. cross_stop_order_body n st pr k s = Normal s'"
proof -
  have io: "\<And>order s. invoke n st (on_order st order) s
              = Normal (s\<lparr>user := new_user (on_order st order s)\<rparr>)"
    using l n by (intro invoke_listening) (simp_all add: listens_def)
  have it: "\<And>trade s. invoke n st (on_trade st trade) s
              = Normal (s\<lparr>user := new_user (on_trade st trade s)\<rparr>)"
    using l n by (intro invoke_listening) (simp_all add: listens_def)
  have iso: "\<And>so s. invoke n st (on_stop_order st so) s
              = Normal (s\<lparr>user := new_user (on_stop_order st so s)\<rparr>)"
    using l n by (intro invoke_listening) (simp_all add: listens_def)
  show ?thesis
    by (simp add: cross_stop_order_body_def o Let_def io it iso)
qed

text \<open>
  C2. When the loop of \<^verbatim>\<open>cross_stop_order\<close> comes to a stop order of the active stop
  book and the pass returns, a long stop order has been triggered if and only if its
  price is at most the long crossing price, and a short one if and only if its price is
  at least the short crossing price. A triggered stop order leaves a new limit order
  under a fresh id with the status \<open>ALLTRADED\<close>, its trade at \<open>max(stop.price,
  long_best)\<close> for a long and \<open>min(stop.price, short_best)\<close> for a short stop order, and
  the stop order with the status \<open>TRIGGERED\<close> and out of the active stop book; a stop
  order that is not triggered leaves the engine as it is. The crossing prices are high,
  low, open, open of the bar in bar mode and the last price of the tick in tick mode.
  The pass returns whenever the strategy only listens to its orders and trades.
\<close>

theorem cross_stop_order_trigger:
  fixes st :: "'u strategy"
  assumes ok: "books_ok s" and act: "k \<in> set (active_stop_orders s)"
    and o: "map_of (stop_orders s) k = Some stop_order"
  shows "(\<forall>s'. cross_stop_order_body n st (lc, sc, lb, sb) k s = Normal s' \<longrightarrow>
            (stop_direction stop_order = LONG \<longrightarrow>
               (if stop_price stop_order \<le> lc
                then triggered_at (max (stop_price stop_order) lb) k stop_order s s'
                else s' = s))
          \<and> (stop_direction stop_order = SHORT \<longrightarrow>
               (if stop_price stop_order \<ge> sc
                then triggered_at (min (stop_price stop_order) sb) k stop_order s s'
                else s' = s)))
     \<and> stop_price stop_order \<le> max (stop_price stop_order) lb
     \<and> min (stop_price stop_order) sb \<le> stop_price stop_order
     \<and> (listens st \<and> 0 < n \<longrightarrow>
           (\<exists>s'. cross_stop_order_body n st (lc, sc, lb, sb) k s = Normal s'))
     \<and> (mode s0 = BAR \<and> bar s0 = Some b \<longrightarrow>
           cross_stop_order n st s0 =
             for_each (cross_stop_order_body n st
                 (bar_high_price b, bar_low_price b, bar_open_price b, bar_open_price b))
               (active_stop_orders s0) s0)
     \<and> (mode s0 = TICK \<and> tick s0 = Some t \<longrightarrow>
           cross_stop_order n st s0 =
             for_each (cross_stop_order_body n st
                 (tick_last_price t, tick_last_price t, tick_last_price t, tick_last_price t))
               (active_stop_orders s0) s0)"
proof (intro conjI allI impI)
  show "stop_price stop_order \<le> max (stop_price stop_order) lb"
    "min (stop_price stop_order) sb \<le> stop_price stop_order"
    by simp_all
next
  assume "listens st \<and> 0 < n"
  then show "\<exists>s'. cross_stop_order_body n st (lc, sc, lb, sb) k s = Normal s'"
    using cross_stop_order_body_returns [OF o] by blast
next
  assume "mode s0 = BAR \<and> bar s0 = Some b"
  then show "cross_stop_order n st s0 =
             for_each (cross_stop_order_body n st
                 (bar_high_price b, bar_low_price b, bar_open_price b, bar_open_price b))
               (active_stop_orders s0) s0"
    by (simp add: cross_stop_order_def stop_cross_prices_def)
next
  assume "mode s0 = TICK \<and> tick s0 = Some t"
  then show "cross_stop_order n st s0 =
             for_each (cross_stop_order_body n st
                 (tick_last_price t, tick_last_price t, tick_last_price t, tick_last_price t))
               (active_stop_orders s0) s0"
    by (simp add: cross_stop_order_def stop_cross_prices_def)
next
  fix s'
  assume r: "cross_stop_order_body n st (lc, sc, lb, sb) k s = Normal s'"
    and d: "stop_direction stop_order = LONG"
  show "if stop_price stop_order \<le> lc
        then triggered_at (max (stop_price stop_order) lb) k stop_order s s' else s' = s"
  proof (cases "stop_price stop_order \<le> lc")
    case False
    then have "cross_stop_order_body n st (lc, sc, lb, sb) k s = Normal s"
      using d o by (simp add: cross_stop_order_body_no_cross stop_long_cross_def
          stop_short_cross_def)
    with r False show ?thesis by simp
  next
    case True
    then have c: "stop_long_cross (lc, sc, lb, sb) stop_order" using d
      by (simp add: stop_long_cross_def)
    from cross_stop_order_body_triggered [OF ok act o _ r] c True
    show ?thesis
      by (simp add: triggered_at_def stop_order_of_def stop_trade_of_def triggered_of_def d)
  qed
next
  fix s'
  assume r: "cross_stop_order_body n st (lc, sc, lb, sb) k s = Normal s'"
    and d: "stop_direction stop_order = SHORT"
  show "if stop_price stop_order \<ge> sc
        then triggered_at (min (stop_price stop_order) sb) k stop_order s s' else s' = s"
  proof (cases "stop_price stop_order \<ge> sc")
    case False
    then have "cross_stop_order_body n st (lc, sc, lb, sb) k s = Normal s"
      using d o by (simp add: cross_stop_order_body_no_cross stop_long_cross_def
          stop_short_cross_def)
    with r False show ?thesis by simp
  next
    case True
    then have c: "stop_short_cross (lc, sc, lb, sb) stop_order"
      and nl: "\<not> stop_long_cross (lc, sc, lb, sb) stop_order" using d
      by (simp_all add: stop_short_cross_def stop_long_cross_def)
    from cross_stop_order_body_triggered [OF ok act o _ r] c nl True
    show ?thesis
      by (simp add: triggered_at_def stop_order_of_def stop_trade_of_def triggered_of_def d)
  qed
qed

lemma engine_stop_11_simps:
  "active_stop_orders engine_stop_11 = [1]"
  "stop_orders engine_stop_11 = [(1, stop_buy_11)]"
  "stop_order_count engine_stop_11 = 1"
  "active_limit_orders engine_stop_11 = []"
  "limit_orders engine_stop_11 = []"
  "limit_order_count engine_stop_11 = 0"
  "trades engine_stop_11 = []"
  "trade_count engine_stop_11 = 0"
  by (simp_all add: engine_stop_11_def send_stop_order_def Let_def engine_trading_def
      engine_ex_def init_engine_def insert_key_def stop_buy_11_def)

lemma books_ok_engine_stop_11: "books_ok engine_stop_11"
  by (simp add: books_ok_def engine_stop_11_simps)

text \<open>
  Scenario S3: a stop order to buy at \<open>11\<close> meets the bar that opens at \<open>11\<close> with a high
  of \<open>12\<close>, and is triggered at \<open>11\<close>.
\<close>

theorem cross_stop_order_trigger_witness:
  "books_ok engine_stop_11 \<and> 1 \<in> set (active_stop_orders engine_stop_11)
   \<and> map_of (stop_orders engine_stop_11) 1 = Some stop_buy_11 \<and> listens quiet
   \<and> (\<exists>s'. cross_stop_order_body 1 quiet (12, 10, 11, 11) 1 engine_stop_11 = Normal s'
          \<and> triggered_at 11 1 stop_buy_11 engine_stop_11 s')"
proof -
  have a: "1 \<in> set (active_stop_orders engine_stop_11)"
    and o: "map_of (stop_orders engine_stop_11) 1 = Some stop_buy_11"
    by (simp_all add: engine_stop_11_simps)
  from cross_stop_order_trigger [OF books_ok_engine_stop_11 a o, where n = 1 and st = quiet
      and lc = 12 and sc = 10 and lb = 11 and sb = 11 and ?s0.0 = engine_stop_11 and b = bar_s2
      and t = "\<lparr>tick_datetime = bar_datetime bar_s2, tick_last_price = 8,
                tick_bid_price_1 = 8, tick_ask_price_1 = 8\<rparr>"]
  show ?thesis
    using books_ok_engine_stop_11 a o listens_quiet
    by (auto simp: stop_buy_11_def)
qed

lemma update_fresh: "k \<notin> fst ` set al \<Longrightarrow> AList.update k v al = al @ [(k, v)]"
  by (induction al) auto

text \<open>
  C8. \<^verbatim>\<open>buy\<close>, \<^verbatim>\<open>sell\<close>, \<^verbatim>\<open>short\<close> and \<^verbatim>\<open>cover\<close> are \<^verbatim>\<open>send_order\<close> with long/open,
  short/close, short/open and long/close. While the strategy is not trading the call
  returns the empty list and leaves the engine as it is. While it is trading, and the
  price tick is not \<open>0\<close>, the call returns the list of one id, that of the one order it
  appends to the book of limit orders, or of stop orders when \<^verbatim>\<open>stop\<close> is set; the order
  has the direction, offset and volume of the call, and the price \<open>round(price / tick) *
  tick\<close>; nothing else of the engine changes. With a price tick of \<open>0\<close> the rounding as
  modelled raises.
\<close>

theorem order_entry:
  fixes s :: "'u engine"
  shows "buy price volume stop lock s = t_send_order LONG OPEN price volume stop lock s
     \<and> sell price volume stop lock s = t_send_order SHORT CLOSE price volume stop lock s
     \<and> short price volume stop lock s = t_send_order SHORT OPEN price volume stop lock s
     \<and> cover price volume stop lock s = t_send_order LONG CLOSE price volume stop lock s
     \<and> (\<not> trading s \<longrightarrow> t_send_order d off price volume stop lock s = Inr ([], s))
     \<and> (trading s \<and> pricetick s = 0 \<longrightarrow>
           t_send_order d off price volume stop lock s = Inl ZeroDivisionError)
     \<and> (trading s \<and> pricetick s \<noteq> 0 \<and> books_ok s \<and> \<not> stop \<longrightarrow>
           t_send_order d off price volume stop lock s =
             Inr ([BACKTESTING (limit_order_count s + 1)],
                  s\<lparr>limit_order_count := limit_order_count s + 1,
                    active_limit_orders := active_limit_orders s @ [limit_order_count s + 1],
                    limit_orders := limit_orders s @
                      [(limit_order_count s + 1,
                        \<lparr>order_orderid = limit_order_count s + 1, order_direction = d,
                         order_offset = off,
                         order_price = of_int (round (price / pricetick s)) * pricetick s,
                         order_volume = volume, order_traded = 0, order_status = SUBMITTING,
                         order_datetime = datetime s\<rparr>)]\<rparr>))
     \<and> (trading s \<and> pricetick s \<noteq> 0 \<and> books_ok s \<and> stop \<longrightarrow>
           t_send_order d off price volume stop lock s =
             Inr ([STOP (stop_order_count s + 1)],
                  s\<lparr>stop_order_count := stop_order_count s + 1,
                    active_stop_orders := active_stop_orders s @ [stop_order_count s + 1],
                    stop_orders := stop_orders s @
                      [(stop_order_count s + 1,
                        \<lparr>stop_orderid = stop_order_count s + 1, stop_direction = d,
                         stop_offset = off,
                         stop_price = of_int (round (price / pricetick s)) * pricetick s,
                         stop_volume = volume, stop_vt_orderids = [],
                         stop_status = WAITING\<rparr>)]\<rparr>))"
proof (intro conjI impI)
  assume a: "trading s \<and> pricetick s \<noteq> 0 \<and> books_ok s \<and> \<not> stop"
  then have "limit_order_count s + 1 \<notin> fst ` set (limit_orders s)"
    "limit_order_count s + 1 \<notin> set (active_limit_orders s)"
    by (fastforce simp: books_ok_def)+
  then show "t_send_order d off price volume stop lock s =
             Inr ([BACKTESTING (limit_order_count s + 1)],
                  s\<lparr>limit_order_count := limit_order_count s + 1,
                    active_limit_orders := active_limit_orders s @ [limit_order_count s + 1],
                    limit_orders := limit_orders s @
                      [(limit_order_count s + 1,
                        \<lparr>order_orderid = limit_order_count s + 1, order_direction = d,
                         order_offset = off,
                         order_price = of_int (round (price / pricetick s)) * pricetick s,
                         order_volume = volume, order_traded = 0, order_status = SUBMITTING,
                         order_datetime = datetime s\<rparr>)]\<rparr>)"
    using a by (simp add: t_send_order_def send_order_def round_to_def send_limit_order_def
        Let_def insert_key_def update_fresh)
next
  assume a: "trading s \<and> pricetick s \<noteq> 0 \<and> books_ok s \<and> stop"
  then have "stop_order_count s + 1 \<notin> fst ` set (stop_orders s)"
    "stop_order_count s + 1 \<notin> set (active_stop_orders s)"
    by (fastforce simp: books_ok_def)+
  then show "t_send_order d off price volume stop lock s =
             Inr ([STOP (stop_order_count s + 1)],
                  s\<lparr>stop_order_count := stop_order_count s + 1,
                    active_stop_orders := active_stop_orders s @ [stop_order_count s + 1],
                    stop_orders := stop_orders s @
                      [(stop_order_count s + 1,
                        \<lparr>stop_orderid = stop_order_count s + 1, stop_direction = d,
                         stop_offset = off,
                         stop_price = of_int (round (price / pricetick s)) * pricetick s,
                         stop_volume = volume, stop_vt_orderids = [],
                         stop_status = WAITING\<rparr>)]\<rparr>)"
    using a by (simp add: t_send_order_def send_order_def round_to_def send_stop_order_def
        Let_def insert_key_def update_fresh)
qed (simp_all add: buy_def sell_def short_def cover_def t_send_order_def send_order_def
    round_to_def)

lemma books_ok_engine_trading: "books_ok engine_trading" "books_ok engine_ex"
  by (simp_all add: books_ok_def engine_trading_def engine_ex_def init_engine_def)

text \<open>
  On a price tick of \<open>1\<close>: while the strategy is not trading \<^verbatim>\<open>buy(10.4, 1)\<close> returns no
  id; while it is trading it returns the id of a new limit order at \<open>10\<close>, and
  \<^verbatim>\<open>sell(10.6, 1, stop=True)\<close> the id of a new stop order at \<open>11\<close>.
\<close>

theorem order_entry_witness:
  "\<not> trading engine_ex \<and> buy (104 / 10) 1 False False engine_ex = Inr ([], engine_ex)
   \<and> trading engine_trading \<and> pricetick engine_trading \<noteq> 0 \<and> books_ok engine_trading
   \<and> buy (104 / 10) 1 False False engine_trading = Inr ([BACKTESTING 1], engine_buy_10)
   \<and> sell (106 / 10) 1 True False engine_trading =
       Inr ([STOP 1],
            engine_trading\<lparr>stop_order_count := 1, active_stop_orders := [1],
              stop_orders := [(1, \<lparr>stop_orderid = 1, stop_direction = SHORT,
                 stop_offset = CLOSE, stop_price = 11, stop_volume = 1,
                 stop_vt_orderids = [], stop_status = WAITING\<rparr>)]\<rparr>)"
proof -
  have e: "\<not> trading engine_ex" "trading engine_trading" "pricetick engine_trading \<noteq> 0"
    by (simp_all add: engine_trading_def engine_ex_def init_engine_def)
  have r: "round (104 / 10 :: real) = 10" "round (106 / 10 :: real) = 11"
    by (simp_all add: round_def)
  have b: "engine_buy_10 =
      engine_trading\<lparr>limit_order_count := 1, active_limit_orders := [1],
        limit_orders := [(1, order_buy_10)]\<rparr>"
    by (simp add: engine_buy_10_def send_limit_order_def Let_def insert_key_def order_buy_10_def
        engine_trading_def engine_ex_def init_engine_def)
  from order_entry [of "104 / 10" 1 False False engine_ex LONG OPEN]
    order_entry [of "104 / 10" 1 False False engine_trading LONG OPEN]
    order_entry [of "106 / 10" 1 True False engine_trading SHORT CLOSE]
  show ?thesis
    using e books_ok_engine_trading r
    by (simp add: b order_buy_10_def)
      (simp add: engine_trading_def engine_ex_def init_engine_def)
qed

lemma cancel_limit_order_cancelled:
  fixes st :: "'u strategy"
  assumes ok: "books_ok s" and act: "k \<in> set (active_limit_orders s)"
    and o: "map_of (limit_orders s) k = Some order"
    and r: "cancel_limit_order (invoke n st) st (BACKTESTING k) s = Normal s'"
  shows "map_of (limit_orders s') k = Some (order\<lparr>order_status := CANCELLED\<rparr>)
    \<and> k \<notin> set (active_limit_orders s')"
proof -
  let ?o = "order\<lparr>order_status := CANCELLED\<rparr>"
  let ?s = "s\<lparr>active_limit_orders := removeAll k (active_limit_orders s),
               limit_orders := AList.update k ?o (limit_orders s)\<rparr>"
  have "invoke n st (on_order st ?o) ?s = Normal s'"
    using r act o by (simp add: cancel_limit_order_def Let_def)
  then have f: "api_frame ?s s'"
    using invoke_frame [of ?s n st "on_order st ?o"] by simp
  have k: "k \<le> limit_order_count ?s" "k \<notin> set (active_limit_orders ?s)"
    using books_ok_active(1) [OF ok act] by simp_all
  from api_frame_inactive [OF f k] show ?thesis
    by (simp add: update_conv')
qed

text \<open>
  C7, as amended. A limit order that the strategy sends is created with the status
  \<open>SUBMITTING\<close>; the limit order that \<^verbatim>\<open>cross_stop_order\<close> creates for a stop order it
  triggers is created with the status \<open>ALLTRADED\<close>, under a new id and outside the active
  book. The loop of \<^verbatim>\<open>cross_limit_order\<close> never leaves an order \<open>SUBMITTING\<close> when it
  comes to test it, and an order of the active book that it fills was \<open>NOTTRADED\<close> when
  it became \<open>ALLTRADED\<close>: never directly from \<open>SUBMITTING\<close>. \<^verbatim>\<open>cancel_limit_order\<close> sets an
  order of the active book to \<open>CANCELLED\<close> whatever its status is, \<open>SUBMITTING\<close> included.
\<close>

theorem limit_order_status_chain:
  fixes st :: "'u strategy"
  assumes ok: "books_ok s" and act: "k \<in> set (active_limit_orders s)"
    and o: "map_of (limit_orders s) k = Some order"
  shows "status_of (snd (send_limit_order d off price volume s)) (limit_order_count s + 1)
           = Some SUBMITTING
     \<and> (\<forall>s1. push_not_traded n st k s = Normal s1 \<longrightarrow> status_of s1 k \<noteq> Some SUBMITTING)
     \<and> (\<forall>s'. cross_limit_order_body n st pr k s = Normal s'
              \<and> trade_count s' \<noteq> trade_count s
              \<and> (order_status order = SUBMITTING \<or> order_status order = NOTTRADED) \<longrightarrow>
           (\<exists>s1. push_not_traded n st k s = Normal s1 \<and> status_of s1 k = Some NOTTRADED
               \<and> match_limit_order n st pr k s1 = Normal s'
               \<and> status_of s' k = Some ALLTRADED))
     \<and> (\<forall>s'. cancel_limit_order (invoke n st) st (BACKTESTING k) s = Normal s' \<longrightarrow>
           status_of s' k = Some CANCELLED \<and> k \<notin> set (active_limit_orders s'))
     \<and> (books_ok s2 \<and> j \<in> set (active_stop_orders s2)
          \<and> map_of (stop_orders s2) j = Some stop_order
          \<and> (stop_long_cross spr stop_order \<or> stop_short_cross spr stop_order)
          \<and> cross_stop_order_body n st spr j s2 = Normal s2' \<longrightarrow>
        status_of s2 (limit_order_count s2 + 1) = None
          \<and> status_of s2' (limit_order_count s2 + 1) = Some ALLTRADED
          \<and> limit_order_count s2 + 1 \<notin> set (active_limit_orders s2'))"
proof (intro conjI allI impI)
  show "status_of (snd (send_limit_order d off price volume s)) (limit_order_count s + 1)
          = Some SUBMITTING"
    by (simp add: status_of_def send_limit_order_def Let_def update_conv')
next
  fix s1 assume p: "push_not_traded n st k s = Normal s1"
  have k: "k \<le> limit_order_count s" using books_ok_active(1) [OF ok act] .
  from push_not_traded_facts [OF k o, of s1 n st] p
  show "status_of s1 k \<noteq> Some SUBMITTING"
    by (auto simp: status_of_def)
next
  fix s'
  assume a: "cross_limit_order_body n st pr k s = Normal s'
              \<and> trade_count s' \<noteq> trade_count s
              \<and> (order_status order = SUBMITTING \<or> order_status order = NOTTRADED)"
  then have r: "cross_limit_order_body n st pr k s = Normal s'" by simp
  from cross_limit_order_body_cases [OF ok act o r] obtain s1 order1 where
    p: "push_not_traded n st k s = Normal s1"
    and o1: "map_of (limit_orders s1) k = Some order1"
    and sob: "same_outside_books s s1"
    and c: "if limit_long_cross pr order \<or> limit_short_cross pr order
         then k \<in> set (active_limit_orders s1)
           \<and> order_status order1
               = (if order_status order = SUBMITTING then NOTTRADED else order_status order)
           \<and> map_of (limit_orders s') k
               = Some (order1\<lparr>order_traded := order_volume order, order_status := ALLTRADED\<rparr>)
         else s' = s1"
    by (auto split: if_splits)
  have x: "limit_long_cross pr order \<or> limit_short_cross pr order"
  proof (rule ccontr)
    assume "\<not> ?thesis"
    with c have "s' = s1" by simp
    with same_outside_books_fields(15) [OF sob] a show False by simp
  qed
  have m: "match_limit_order n st pr k s1 = Normal s'"
    using r p by (simp add: cross_limit_order_body_def)
  show "\<exists>s1. push_not_traded n st k s = Normal s1 \<and> status_of s1 k = Some NOTTRADED
               \<and> match_limit_order n st pr k s1 = Normal s'
               \<and> status_of s' k = Some ALLTRADED"
    using p o1 c x m a by (auto simp: status_of_def)
next
  fix s'
  assume r: "cancel_limit_order (invoke n st) st (BACKTESTING k) s = Normal s'"
  from cancel_limit_order_cancelled [OF ok act o r]
  show "status_of s' k = Some CANCELLED" "k \<notin> set (active_limit_orders s')"
    by (simp_all add: status_of_def)
next
  assume a: "books_ok s2 \<and> j \<in> set (active_stop_orders s2)
          \<and> map_of (stop_orders s2) j = Some stop_order
          \<and> (stop_long_cross spr stop_order \<or> stop_short_cross spr stop_order)
          \<and> cross_stop_order_body n st spr j s2 = Normal s2'"
  then have ok2: "books_ok s2" and act2: "j \<in> set (active_stop_orders s2)"
    and o2: "map_of (stop_orders s2) j = Some stop_order"
    and c2: "stop_long_cross spr stop_order \<or> stop_short_cross spr stop_order"
    and r2: "cross_stop_order_body n st spr j s2 = Normal s2'"
    by simp_all
  from cross_stop_order_body_triggered [OF ok2 act2 o2 c2 r2]
  show "status_of s2 (limit_order_count s2 + 1) = None"
    "status_of s2' (limit_order_count s2 + 1) = Some ALLTRADED"
    "limit_order_count s2 + 1 \<notin> set (active_limit_orders s2')"
    by (simp_all add: status_of_def stop_order_of_def)
qed

lemma body_buy_10:
  "cross_limit_order_body 1 quiet (7, 9, 8, 8) 1 engine_buy_10 =
     Normal (engine_buy_10\<lparr>active_limit_orders := [], trade_count := 1, pos := 1,
       limit_orders := [(1, order_buy_10\<lparr>order_traded := 1, order_status := ALLTRADED\<rparr>)],
       trades := [(1, \<lparr>trade_orderid = 1, trade_tradeid = 1, trade_direction = LONG,
          trade_offset = OPEN, trade_price = 8, trade_volume = 1, trade_datetime = None\<rparr>)]\<rparr>)"
  by (simp add: cross_limit_order_body_def push_not_traded_def match_limit_order_def
      engine_buy_10_simps order_buy_10_def Let_def quiet_def silence_def
      limit_long_cross_def limit_short_cross_def)
    (simp add: engine_buy_10_def send_limit_order_def Let_def engine_trading_def engine_ex_def
      init_engine_def insert_key_def)

lemma cancel_buy_10:
  "cancel_limit_order (invoke 1 quiet) quiet (BACKTESTING 1) engine_buy_10 = Normal engine_cancelled"
  by (simp add: cancel_limit_order_def engine_buy_10_simps Let_def quiet_def silence_def
      engine_cancelled_def)

text \<open>
  The buy order at \<open>10\<close>, still \<open>SUBMITTING\<close>, meets the bar of scenario S2: it is pushed
  as \<open>NOTTRADED\<close> and then filled; cancelled instead, it becomes \<open>CANCELLED\<close>. And the stop
  order of scenario S3 is triggered: the limit order \<open>1\<close>, which was not there, is
  \<open>ALLTRADED\<close>.
\<close>

theorem limit_order_status_chain_witness:
  "books_ok engine_buy_10 \<and> 1 \<in> set (active_limit_orders engine_buy_10)
   \<and> map_of (limit_orders engine_buy_10) 1 = Some order_buy_10
   \<and> order_status order_buy_10 = SUBMITTING
   \<and> (\<exists>s1 s'. push_not_traded 1 quiet 1 engine_buy_10 = Normal s1
          \<and> status_of s1 1 = Some NOTTRADED
          \<and> match_limit_order 1 quiet (7, 9, 8, 8) 1 s1 = Normal s'
          \<and> status_of s' 1 = Some ALLTRADED)
   \<and> status_of engine_cancelled 1 = Some CANCELLED
   \<and> books_ok engine_stop_11 \<and> 1 \<in> set (active_stop_orders engine_stop_11)
   \<and> map_of (stop_orders engine_stop_11) 1 = Some stop_buy_11
   \<and> stop_long_cross (12, 10, 11, 11) stop_buy_11
   \<and> (\<exists>s'. cross_stop_order_body 1 quiet (12, 10, 11, 11) 1 engine_stop_11 = Normal s'
          \<and> status_of engine_stop_11 1 = None
          \<and> status_of s' 1 = Some ALLTRADED
          \<and> 1 \<notin> set (active_limit_orders s'))"
proof -
  have a: "1 \<in> set (active_limit_orders engine_buy_10)"
    and o: "map_of (limit_orders engine_buy_10) 1 = Some order_buy_10"
    and s: "order_status order_buy_10 = SUBMITTING"
    by (simp_all add: engine_buy_10_simps order_buy_10_def)
  have a2: "1 \<in> set (active_stop_orders engine_stop_11)"
    and o2: "map_of (stop_orders engine_stop_11) 1 = Some stop_buy_11"
    and c2: "stop_long_cross (12, 10, 11, 11) stop_buy_11"
    by (simp_all add: engine_stop_11_simps stop_long_cross_def stop_buy_11_def)
  obtain t' where r2: "cross_stop_order_body 1 quiet (12, 10, 11, 11) 1 engine_stop_11 = Normal t'"
    using cross_stop_order_body_returns [OF o2 listens_quiet, of 1 "(12, 10, 11, 11)"] by auto
  from limit_order_status_chain [OF books_ok_engine_buy_10 a o, where n = 1 and st = quiet
      and pr = "(7, 9, 8, 8)" and d = LONG and off = OPEN and price = 10 and volume = 1
      and ?s2.0 = engine_stop_11 and j = 1 and stop_order = stop_buy_11
      and spr = "(12, 10, 11, 11)" and s2' = t']
  have "(\<forall>s'. cross_limit_order_body 1 quiet (7, 9, 8, 8) 1 engine_buy_10 = Normal s'
              \<and> trade_count s' \<noteq> trade_count engine_buy_10 \<longrightarrow>
           (\<exists>s1. push_not_traded 1 quiet 1 engine_buy_10 = Normal s1
               \<and> status_of s1 1 = Some NOTTRADED
               \<and> match_limit_order 1 quiet (7, 9, 8, 8) 1 s1 = Normal s'
               \<and> status_of s' 1 = Some ALLTRADED))"
    and "(\<forall>s'. cancel_limit_order (invoke 1 quiet) quiet (BACKTESTING 1) engine_buy_10
                 = Normal s' \<longrightarrow> status_of s' 1 = Some CANCELLED)"
    and "status_of engine_stop_11 1 = None \<and> status_of t' 1 = Some ALLTRADED
           \<and> 1 \<notin> set (active_limit_orders t')"
    using s books_ok_engine_stop_11 a2 o2 c2 r2 by (simp_all add: engine_stop_11_simps)
  then show ?thesis
    using books_ok_engine_buy_10 a o s body_buy_10 cancel_buy_10
      books_ok_engine_stop_11 a2 o2 c2 r2
    by (auto simp: engine_buy_10_simps)
qed

text \<open>
  C7, as stated, fails: an order that is cancelled before the next data point is still
  \<open>SUBMITTING\<close>, and \<^verbatim>\<open>cancel_limit_order\<close> sets it to \<open>CANCELLED\<close> from there. A handler
  that buys and cancels at once does so.
\<close>

theorem limit_order_cancelled_while_submitting:
  "status_of engine_buy_10 1 = Some SUBMITTING
   \<and> cancel_limit_order (invoke 1 quiet) quiet (BACKTESTING 1) engine_buy_10
       = Normal engine_cancelled
   \<and> status_of engine_cancelled 1 = Some CANCELLED
   \<and> for_each (run_call (invoke 1 quiet) quiet)
        [Buy 10 1 False False, Cancel_order (BACKTESTING 1)] engine_trading
       = Normal engine_cancelled"
proof -
  have r: "round (10 :: real) = 10"
    by (simp add: round_def)
  have b: "buy 10 1 False False engine_trading = Inr ([BACKTESTING 1], engine_buy_10)"
    using r by (simp add: buy_def t_send_order_def send_order_def round_to_def
        engine_buy_10_def engine_trading_def engine_ex_def init_engine_def split_def
        send_limit_order_def Let_def)
  have t: "trading engine_buy_10"
    by (simp add: engine_buy_10_def send_limit_order_def Let_def engine_trading_def)
  show ?thesis
    using cancel_buy_10 b t
    by (simp add: status_of_def engine_buy_10_simps order_buy_10_def engine_cancelled_def
        sent_def t_cancel_order_def cancel_order_def)
qed

subsection \<open>The steps of a data point\<close>




lemma books_ok_stop_key:
  assumes "books_ok s" "map_of (stop_orders s) k = Some so"
  shows "k \<le> stop_order_count s"
proof -
  have "k \<in> fst ` set (stop_orders s)"
    using assms(2) by (metis map_of_eq_None_iff option.distinct(1))
  then show ?thesis using assms(1) by (auto simp: books_ok_def)
qed




































text \<open>Which handler \<^verbatim>\<open>new_bar\<close> calls, when the handler called first returns.\<close>

lemma push_bar_handler:
  "x_second st = None \<Longrightarrow> push_bar n st b s = invoke n st (on_bar st b) s"
  "x_second st = Some x \<Longrightarrow> x < 60 \<Longrightarrow> invoke n st (on_second_bar st b) s = Normal s'
     \<Longrightarrow> push_bar n st b s = Normal s'"
  "x_second st = Some 60 \<Longrightarrow> invoke n st (on_bar st b) s = Normal s'
     \<Longrightarrow> push_bar n st b s = Normal s'"
  "x_second st = Some x \<Longrightarrow> 60 < x \<Longrightarrow> push_bar n st b s = Normal s"
  by (simp_all add: push_bar_def)

















subsection \<open>The warm-up\<close>

lemma run_call_not_trading:
  assumes "\<not> trading s"
  shows "run_call ivk st c s = Normal s"
  using assms
  by (cases c)
    (simp_all add: buy_def sell_def short_def cover_def t_send_order_def sent_def
      t_cancel_order_def t_cancel_all_def)

lemma for_each_run_call_not_trading:
  assumes "\<not> trading s"
  shows "for_each (run_call ivk st) cs s = Normal s"
  using assms by (induction cs) (simp_all add: run_call_not_trading)

lemma invoke_not_trading:
  assumes "\<not> trading s"
  shows "state_of (invoke n st h s) = s \<or> state_of (invoke n st h s) = s\<lparr>user := new_user (h s)\<rparr>"
proof (cases n)
  case 0
  then show ?thesis by simp
next
  case (Suc m)
  have "for_each (run_call (invoke m st) st) (calls (h s)) (s\<lparr>user := new_user (h s)\<rparr>)
          = Normal (s\<lparr>user := new_user (h s)\<rparr>)"
    using assms by (simp add: for_each_run_call_not_trading)
  then show ?thesis
    by (simp add: Suc Let_def split: option.splits)
qed

lemma only_clock_and_user_refl: "only_clock_and_user s s"
  by (simp add: only_clock_and_user_def)

lemma only_clock_and_user_trans:
  "only_clock_and_user s s1 \<Longrightarrow> only_clock_and_user s1 s2 \<Longrightarrow> only_clock_and_user s s2"
  unfolding only_clock_and_user_def by (cases s, cases s1, cases s2) simp

lemma only_clock_and_user_fields:
  assumes "only_clock_and_user s s'"
  shows "trading s' = trading s" "days s' = days s" "callback s' = callback s"
    "trades s' = trades s" "pos s' = pos s" "active_limit_orders s' = active_limit_orders s"
    "limit_orders s' = limit_orders s" "active_stop_orders s' = active_stop_orders s"
    "stop_orders s' = stop_orders s" "trade_count s' = trade_count s"
    "daily_results s' = daily_results s" "inited s' = inited s"
  using assms unfolding only_clock_and_user_def by (cases s, cases s', simp)+

lemma invoke_only_user:
  assumes "\<not> trading s"
  shows "only_clock_and_user s (state_of (invoke n st h s))
         \<and> datetime (state_of (invoke n st h s)) = datetime s"
proof -
  have "only_clock_and_user s (s\<lparr>user := new_user (h s)\<rparr>)"
    by (simp add: only_clock_and_user_def)
  then show ?thesis
    using invoke_not_trading [OF assms, of n st h]
    by (auto simp add: only_clock_and_user_refl)
qed

lemma call_callback_not_trading:
  assumes "\<not> trading s"
  shows "only_clock_and_user s (state_of (call_callback n st d s))"
    and "datetime (state_of (call_callback n st d s)) = datetime s"
  using invoke_only_user [OF assms, of n st]
  by (auto simp: call_callback_def only_clock_and_user_refl
        split: option.splits warm_callback.splits market_data.splits)

lemma day_changes_Cons:
  "day_changes (p # x # ys) = (if p \<noteq> x then 1 else 0) + day_changes (x # ys)"
  by simp

lemma day_changes_take_Suc:
  "j < length ds \<Longrightarrow>
   day_changes (take (Suc j) ds)
     = day_changes (take j ds) + (if 0 < j \<and> ds ! j \<noteq> ds ! (j - 1) then 1 else 0)"
proof (induction ds arbitrary: j rule: day_changes.induct)
  case 1
  then show ?case by simp
next
  case (2 x)
  then show ?case by simp
next
  case (3 x y ys)
  show ?case
  proof (cases j)
    case 0
    then show ?thesis by simp
  next
    case (Suc k)
    then have k: "k < length (y # ys)" using 3 by simp
    show ?thesis
    proof (cases k)
      case 0
      then show ?thesis using Suc by simp
    next
      case (Suc m)
      have "day_changes (take (Suc k) (y # ys))
              = day_changes (take k (y # ys))
                + (if 0 < k \<and> (y # ys) ! k \<noteq> (y # ys) ! (k - 1) then 1 else 0)"
        by (rule "3.IH" [OF k])
      then show ?thesis using Suc \<open>j = Suc k\<close> by simp
    qed
  qed
qed

lemma warm_up_general:
  assumes "\<not> trading s"
  shows "case warm_up n st dc i rest s of
           Broke ix s' \<Rightarrow>
             only_clock_and_user s s' \<and>
             (\<exists>j<length rest. ix = i + j \<and>
                day_changes (prev_day s @ take (Suc j) (days_of rest))
                  = Suc (day_changes (prev_day s @ take j (days_of rest))) \<and>
                dc + int (day_changes (prev_day s @ take (Suc j) (days_of rest)))
                  = max (dc + 1) (days s))
         | Exhausted ix s' \<Rightarrow>
             only_clock_and_user s s' \<and> ix = i + length rest - 1 \<and>
             dc + int (day_changes (prev_day s @ days_of rest)) < max (dc + 1) (days s)
         | Aborted s' \<Rightarrow> only_clock_and_user s s'"
  using assms
proof (induction rest arbitrary: dc i s)
  case Nil
  then show ?case
    by (auto simp add: only_clock_and_user_refl days_of_def prev_day_def max_def
        split: option.splits)
next
  case (Cons d rest)
  define x where "x = dt_day (data_datetime d)"
  define b where "b = day_boundary s d"
  define dc' where "dc' = (if b then dc + 1 else dc)"
  define s1 where "s1 = s\<lparr>datetime := Some (data_datetime d)\<rparr>"
  define s2 where "s2 = state_of (call_callback n st d s1)"
  have nt1: "\<not> trading s1" using Cons.prems by (simp add: s1_def)
  have o1: "only_clock_and_user s s1" by (simp add: s1_def only_clock_and_user_def)
  have o12: "only_clock_and_user s1 s2"
    unfolding s2_def by (rule call_callback_not_trading(1) [OF nt1])
  have o2: "only_clock_and_user s s2" by (rule only_clock_and_user_trans [OF o1 o12])
  have dt2: "datetime s2 = Some (data_datetime d)"
    unfolding s2_def using call_callback_not_trading(2) [OF nt1, of n st d] by (simp add: s1_def)
  have nt2: "\<not> trading s2" using only_clock_and_user_fields(1) [OF o2] Cons.prems by simp
  have d2: "days s2 = days s" by (rule only_clock_and_user_fields(2) [OF o2])
  have p2: "prev_day s2 = [x]" by (simp add: prev_day_def dt2 x_def)
  have ds: "days_of (d # rest) = x # days_of rest" by (simp add: days_of_def x_def)
  have ch: "\<And>ys. day_changes (prev_day s @ x # ys) = (if b then 1 else 0) + day_changes (x # ys)"
    by (simp add: prev_day_def b_def day_boundary_def x_def split: option.splits)
  have ch0: "day_changes (prev_day s) = 0"
    by (simp add: prev_day_def split: option.splits)
  show ?case
  proof (cases "b \<and> dc' \<ge> days s")
    case True
    then have w: "warm_up n st dc i (d # rest) s = Broke i s"
      by (auto simp add: b_def dc'_def Let_def)
    have c: "day_changes (prev_day s @ take (Suc 0) (days_of (d # rest))) = 1"
      using True by (simp add: ds ch)
    have "0 < length (d # rest) \<and> i = i + 0 \<and>
            day_changes (prev_day s @ take (Suc 0) (days_of (d # rest)))
              = Suc (day_changes (prev_day s @ take 0 (days_of (d # rest)))) \<and>
            dc + int (day_changes (prev_day s @ take (Suc 0) (days_of (d # rest))))
              = max (dc + 1) (days s)"
      using True by (auto simp add: c ch0 dc'_def max_def)
    then have "\<exists>j<length (d # rest). i = i + j \<and>
            day_changes (prev_day s @ take (Suc j) (days_of (d # rest)))
              = Suc (day_changes (prev_day s @ take j (days_of (d # rest)))) \<and>
            dc + int (day_changes (prev_day s @ take (Suc j) (days_of (d # rest))))
              = max (dc + 1) (days s)"
      by blast
    then show ?thesis
      unfolding w by (simp add: only_clock_and_user_refl)
  next
    case False
    then have mx: "max (dc' + 1) (days s) = max (dc + 1) (days s)"
      by (auto simp: dc'_def max_def)
    show ?thesis
    proof (cases "call_callback n st d s1")
      case (Raised e s')
      then have w: "warm_up n st dc i (d # rest) s = Aborted s2"
        using False by (auto simp add: b_def dc'_def Let_def s1_def s2_def)
      then show ?thesis unfolding w by (simp add: o2)
    next
      case (Normal s')
      then have w: "warm_up n st dc i (d # rest) s = warm_up n st dc' (Suc i) rest s2"
        using False by (auto simp add: b_def dc'_def Let_def s1_def s2_def)
      have ih: "case warm_up n st dc' (Suc i) rest s2 of
           Broke ix s' \<Rightarrow>
             only_clock_and_user s2 s' \<and>
             (\<exists>j<length rest. ix = Suc i + j \<and>
                day_changes (prev_day s2 @ take (Suc j) (days_of rest))
                  = Suc (day_changes (prev_day s2 @ take j (days_of rest))) \<and>
                dc' + int (day_changes (prev_day s2 @ take (Suc j) (days_of rest)))
                  = max (dc' + 1) (days s2))
         | Exhausted ix s' \<Rightarrow>
             only_clock_and_user s2 s' \<and> ix = Suc i + length rest - 1 \<and>
             dc' + int (day_changes (prev_day s2 @ days_of rest)) < max (dc' + 1) (days s2)
         | Aborted s' \<Rightarrow> only_clock_and_user s2 s'"
        by (rule Cons.IH [OF nt2])
      show ?thesis
      proof (cases "warm_up n st dc' (Suc i) rest s2")
        case (Broke ix s')
        then obtain j where j: "j < length rest" "ix = Suc i + j"
          "day_changes (x # take (Suc j) (days_of rest))
                  = Suc (day_changes (x # take j (days_of rest)))"
          "dc' + int (day_changes (x # take (Suc j) (days_of rest))) = max (dc + 1) (days s)"
          and o: "only_clock_and_user s2 s'"
          using ih by (auto simp add: p2 d2 mx)
        have a: "Suc j < length (d # rest)" "ix = i + Suc j" using j by simp_all
        have c: "day_changes (prev_day s @ take (Suc (Suc j)) (days_of (d # rest)))
                  = Suc (day_changes (prev_day s @ take (Suc j) (days_of (d # rest))))"
          using j(3) by (simp add: ds ch)
        have e: "dc + int (day_changes (prev_day s @ take (Suc (Suc j)) (days_of (d # rest))))
                  = max (dc + 1) (days s)"
          using j(4) by (cases b) (simp_all add: ds ch dc'_def)
        have "\<exists>k<length (d # rest). ix = i + k \<and>
                day_changes (prev_day s @ take (Suc k) (days_of (d # rest)))
                  = Suc (day_changes (prev_day s @ take k (days_of (d # rest)))) \<and>
                dc + int (day_changes (prev_day s @ take (Suc k) (days_of (d # rest))))
                  = max (dc + 1) (days s)"
          using a c e by blast
        then show ?thesis
          using only_clock_and_user_trans [OF o2 o] unfolding w Broke by simp
      next
        case (Exhausted ix s')
        then have o: "only_clock_and_user s2 s'" and ix: "ix = Suc i + length rest - 1"
          and lt: "dc' + int (day_changes (x # days_of rest)) < max (dc + 1) (days s)"
          using ih by (auto simp add: p2 d2 mx)
        have "dc + int (day_changes (prev_day s @ days_of (d # rest))) < max (dc + 1) (days s)"
          using lt by (cases b) (simp_all add: ds ch dc'_def)
        then show ?thesis
          using only_clock_and_user_trans [OF o2 o] ix unfolding w Exhausted by simp
      next
        case (Aborted s')
        then have "only_clock_and_user s2 s'" using ih by simp
        then show ?thesis
          using only_clock_and_user_trans [OF o2] unfolding w Aborted by simp
      qed
    qed
  qed
qed

text \<open>
  What the warm-up loop of \<^verbatim>\<open>run_backtesting\<close> does, started on an engine whose clock is
  not set and whose strategy is not trading. It compares the day of the month of a
  datum with that of the clock of the engine, which holds the datum before it. It
  breaks at an index \<open>ix\<close>: then \<open>ix\<close> is not the first datum, the day of the month
  changes there, and the number of changes up to \<open>ix\<close> is \<open>days\<close>, or \<open>1\<close> when \<open>days\<close> is
  less than \<open>1\<close>. Or it runs out of data at the last index: then the data hold fewer
  changes than that. Or the callback raises. In every case nothing of the engine has
  changed but its clock and what the strategy keeps for itself: no order was sent,
  cancelled or matched, no trade was made, and the strategy is still not trading.
\<close>

lemma warm_up_day_of_month:
  assumes "\<not> trading s" and "datetime s = None"
  shows "(day_boundary (s\<lparr>datetime := Some dt\<rparr>) d = (dt_day (data_datetime d) \<noteq> dt_day dt)) \<and>
         (case warm_up n st 0 0 history s of
            Broke ix s' \<Rightarrow>
              0 < ix \<and> ix < length history \<and>
              days_of history ! ix \<noteq> days_of history ! (ix - 1) \<and>
              int (day_changes (take (Suc ix) (days_of history))) = max 1 (days s) \<and>
              only_clock_and_user s s' \<and> \<not> trading s'
          | Exhausted ix s' \<Rightarrow>
              ix = length history - 1 \<and>
              int (day_changes (days_of history)) < max 1 (days s) \<and>
              only_clock_and_user s s' \<and> \<not> trading s'
          | Aborted s' \<Rightarrow> only_clock_and_user s s' \<and> \<not> trading s')"
proof -
  have p: "prev_day s = []" using assms(2) by (simp add: prev_day_def)
  have g: "case warm_up n st 0 0 history s of
           Broke ix s' \<Rightarrow>
             only_clock_and_user s s' \<and>
             (\<exists>j<length history. ix = 0 + j \<and>
                day_changes (prev_day s @ take (Suc j) (days_of history))
                  = Suc (day_changes (prev_day s @ take j (days_of history))) \<and>
                0 + int (day_changes (prev_day s @ take (Suc j) (days_of history)))
                  = max (0 + 1) (days s))
         | Exhausted ix s' \<Rightarrow>
             only_clock_and_user s s' \<and> ix = 0 + length history - 1 \<and>
             0 + int (day_changes (prev_day s @ days_of history)) < max (0 + 1) (days s)
         | Aborted s' \<Rightarrow> only_clock_and_user s s'"
    by (rule warm_up_general [OF assms(1)])
  have len: "length (days_of history) = length history" by (simp add: days_of_def)
  have b: "day_boundary (s\<lparr>datetime := Some dt\<rparr>) d = (dt_day (data_datetime d) \<noteq> dt_day dt)"
    by (simp add: day_boundary_def)
  have e: "case warm_up n st 0 0 history s of
            Broke ix s' \<Rightarrow>
              0 < ix \<and> ix < length history \<and>
              days_of history ! ix \<noteq> days_of history ! (ix - 1) \<and>
              int (day_changes (take (Suc ix) (days_of history))) = max 1 (days s) \<and>
              only_clock_and_user s s' \<and> \<not> trading s'
          | Exhausted ix s' \<Rightarrow>
              ix = length history - 1 \<and>
              int (day_changes (days_of history)) < max 1 (days s) \<and>
              only_clock_and_user s s' \<and> \<not> trading s'
          | Aborted s' \<Rightarrow> only_clock_and_user s s' \<and> \<not> trading s'"
  proof (cases "warm_up n st 0 0 history s")
    case (Broke ix s')
    then have o: "only_clock_and_user s s'" and ix: "ix < length history"
      and c: "day_changes (take (Suc ix) (days_of history))
                = Suc (day_changes (take ix (days_of history)))"
      and m: "int (day_changes (take (Suc ix) (days_of history))) = max 1 (days s)"
      using g by (auto simp add: p)
    have eq: "Suc (day_changes (take ix (days_of history)))
            = day_changes (take ix (days_of history))
              + (if 0 < ix \<and> days_of history ! ix \<noteq> days_of history ! (ix - 1) then 1 else 0)"
      unfolding c [symmetric] by (rule day_changes_take_Suc) (simp add: len ix)
    have "0 < ix \<and> days_of history ! ix \<noteq> days_of history ! (ix - 1)"
    proof (rule ccontr)
      assume "\<not> (0 < ix \<and> days_of history ! ix \<noteq> days_of history ! (ix - 1))"
      then have "(if 0 < ix \<and> days_of history ! ix \<noteq> days_of history ! (ix - 1)
                  then 1 else 0 :: nat) = 0"
        by (simp only: if_False)
      then have "Suc (day_changes (take ix (days_of history)))
                   = day_changes (take ix (days_of history)) + 0"
        using eq by (simp only:)
      then show False by simp
    qed
    then show ?thesis
      using o ix m only_clock_and_user_fields(1) [OF o] assms(1) unfolding Broke by simp
  next
    case (Exhausted ix s')
    then have o: "only_clock_and_user s s'" and ix: "ix = length history - 1"
      and m: "int (day_changes (days_of history)) < max 1 (days s)"
      using g by (auto simp add: p)
    show ?thesis
      using o ix m only_clock_and_user_fields(1) [OF o] assms(1) unfolding Exhausted by simp
  next
    case (Aborted s')
    then have o: "only_clock_and_user s s'" using g by simp
    show ?thesis
      using o only_clock_and_user_fields(1) [OF o] assms(1) unfolding Aborted by simp
  qed
  show ?thesis using b e by (rule conjI)
qed

lemma invoke_quiet_on_bar:
  "invoke (Suc 0) quiet (on_bar quiet b) (s :: unit engine) = Normal s"
  by (simp add: quiet_def silence_def Let_def)

lemma invoke_quiet_on_start:
  "invoke (Suc 0) quiet (on_start quiet) (s :: unit engine) = Normal s"
  by (simp add: quiet_def silence_def Let_def)

lemma engine_warm_simps:
  "trading engine_warm = False" "datetime engine_warm = None" "days engine_warm = 1"
  "callback engine_warm = Some CB_ON_BAR"
  by (simp_all add: engine_warm_def engine_ex_def init_engine_def)

lemma warm_up_history_days:
  "warm_up (Suc 0) quiet 0 0 history_days engine_warm
     = Broke 1 (engine_warm\<lparr>datetime := Some (bar_datetime (bar_on 2020 1 15))\<rparr>)"
  by (simp add: history_days_def call_callback_def invoke_quiet_on_bar engine_warm_simps
      day_boundary_def bar_on_def del: invoke.simps)

lemma warm_up_history_months:
  "warm_up (Suc 0) quiet 0 0 history_months engine_warm
     = Broke 2 (engine_warm\<lparr>datetime := Some (bar_datetime (bar_on 2020 2 15))\<rparr>)"
  by (simp add: history_months_def call_callback_def invoke_quiet_on_bar engine_warm_simps
      day_boundary_def bar_on_def del: invoke.simps)

lemma call_on_init_quiet:
  "call_on_init quiet (s :: unit engine) = Normal (s\<lparr>days := 1, callback := Some CB_ON_BAR\<rparr>)"
  by (simp add: call_on_init_def quiet_def Let_def)

lemma x_second_quiet: "x_second quiet = None"
  by (simp add: quiet_def)

lemma new_bar_quiet_no_orders:
  assumes "active_limit_orders s = []" "active_stop_orders s = []" "mode s = BAR"
  shows "new_bar (Suc 0) quiet b (s :: unit engine)
           = update_daily_close (bar_close_price b)
               (s\<lparr>bar := Some b, datetime := Some (bar_datetime b)\<rparr>)"
  using assms
  by (simp add: new_bar_def and_then_def cross_limit_order_def cross_stop_order_def
      limit_cross_prices_def stop_cross_prices_def push_bar_def invoke_quiet_on_bar
      x_second_quiet del: invoke.simps)

lemma warm_up_quiet_months:
  assumes "datetime s = None" "days s = 1" "callback s = Some CB_ON_BAR"
  shows "warm_up (Suc 0) quiet 0 0 history_months (s :: unit engine)
           = Broke 2 (s\<lparr>datetime := Some (bar_datetime (bar_on 2020 2 15))\<rparr>)"
  using assms
  by (simp add: history_months_def call_callback_def invoke_quiet_on_bar
      day_boundary_def bar_on_def del: invoke.simps)

lemma warm_up_quiet_days:
  assumes "datetime s = None" "days s = 1" "callback s = Some CB_ON_BAR"
  shows "warm_up (Suc 0) quiet 0 0 history_days (s :: unit engine)
           = Broke 1 (s\<lparr>datetime := Some (bar_datetime (bar_on 2020 1 15))\<rparr>)"
  using assms
  by (simp add: history_days_def call_callback_def invoke_quiet_on_bar
      day_boundary_def bar_on_def del: invoke.simps)

lemma engine_ex_simps:
  "datetime engine_ex = None" "mode engine_ex = BAR" "active_limit_orders engine_ex = []"
  "active_stop_orders engine_ex = []" "daily_results engine_ex = []"
  "trading engine_ex = False"
  by (simp_all add: engine_ex_def init_engine_def)

lemma run_backtesting_months:
  "map fst (daily_results (state_of (run_backtesting (Suc 0) quiet engine_months)))
     = [(2020, 2, 16)]"
proof -
  define s1 where "s1 = engine_months\<lparr>days := 1, callback := Some CB_ON_BAR\<rparr>"
  have f: "datetime s1 = None" "days s1 = 1" "callback s1 = Some CB_ON_BAR"
    "history_data s1 = history_months"
    by (simp_all add: s1_def engine_months_def engine_ex_simps)
  have w: "warm_up (Suc 0) quiet 0 0 history_months s1
             = Broke 2 (s1\<lparr>datetime := Some (bar_datetime (bar_on 2020 2 15))\<rparr>)"
    by (rule warm_up_quiet_months [OF f(1,2,3)])
  have r: "run_backtesting (Suc 0) quiet engine_months
             = start_and_replay (Suc 0) quiet 2
                 (s1\<lparr>datetime := Some (bar_datetime (bar_on 2020 2 15))\<rparr>)"
    by (simp add: run_backtesting_def call_on_init_quiet s1_def [symmetric] f(4) w
        del: warm_up.simps)
  have g: "mode s1 = BAR" "active_limit_orders s1 = []" "active_stop_orders s1 = []"
    "daily_results s1 = []"
    by (simp_all add: s1_def engine_months_def engine_ex_simps)
  show ?thesis
    unfolding r
    by (simp add: start_and_replay_def invoke_quiet_on_start f(4) g new_data_def
        new_bar_quiet_no_orders update_daily_close_def history_months_def bar_on_def date_of_def
        Let_def DailyResult_def numeral_2_eq_2
        del: invoke.simps)
qed

lemma run_backtesting_days:
  "map fst (daily_results (state_of (run_backtesting (Suc 0) quiet engine_days)))
     = [(2020, 1, 16), (2020, 1, 17)]"
proof -
  define s1 where "s1 = engine_days\<lparr>days := 1, callback := Some CB_ON_BAR\<rparr>"
  have f: "datetime s1 = None" "days s1 = 1" "callback s1 = Some CB_ON_BAR"
    "history_data s1 = history_days"
    by (simp_all add: s1_def engine_days_def engine_ex_simps)
  have w: "warm_up (Suc 0) quiet 0 0 history_days s1
             = Broke 1 (s1\<lparr>datetime := Some (bar_datetime (bar_on 2020 1 15))\<rparr>)"
    by (rule warm_up_quiet_days [OF f(1,2,3)])
  have r: "run_backtesting (Suc 0) quiet engine_days
             = start_and_replay (Suc 0) quiet 1
                 (s1\<lparr>datetime := Some (bar_datetime (bar_on 2020 1 15))\<rparr>)"
    by (simp add: run_backtesting_def call_on_init_quiet s1_def [symmetric] f(4) w
        del: warm_up.simps)
  have g: "mode s1 = BAR" "active_limit_orders s1 = []" "active_stop_orders s1 = []"
    "daily_results s1 = []"
    by (simp_all add: s1_def engine_days_def engine_ex_simps)
  show ?thesis
    unfolding r
    by (simp add: start_and_replay_def invoke_quiet_on_start f(4) g new_data_def
        new_bar_quiet_no_orders update_daily_close_def history_days_def bar_on_def date_of_def
        Let_def DailyResult_def numeral_2_eq_2
        del: invoke.simps)
qed

text \<open>
  C5. The warm-up is to end after \<open>days\<close> calendar days, a day boundary being a change
  of the date. The loop compares the days of the month instead (line 287), so it misses
  the boundary between two data a month apart. With one day of warm-up asked for and
  daily bars on 2020-01-15, 2020-02-15 and 2020-02-16, the dates of the first two bars
  differ, no boundary is detected between them, the warm-up breaks at index \<open>2\<close> and not
  at index \<open>1\<close>, and the run that follows covers 2020-02-16 only. With bars on three
  days in a row, 2020-01-15 to 2020-01-17, the warm-up breaks at index \<open>1\<close> and the run
  covers the two days after the first.
\<close>

theorem warm_up_same_day_of_month:
  "date_of (data_datetime (history_months ! 0)) \<noteq> date_of (data_datetime (history_months ! 1))
   \<and> day_boundary (engine_warm\<lparr>datetime := Some (data_datetime (history_months ! 0))\<rparr>)
         (history_months ! 1) = False
   \<and> warm_up (Suc 0) quiet 0 0 history_months engine_warm
       = Broke 2 (engine_warm\<lparr>datetime := Some (bar_datetime (bar_on 2020 2 15))\<rparr>)
   \<and> map fst (daily_results (state_of (run_backtesting (Suc 0) quiet engine_months)))
       = [(2020, 2, 16)]
   \<and> warm_up (Suc 0) quiet 0 0 history_days engine_warm
       = Broke 1 (engine_warm\<lparr>datetime := Some (bar_datetime (bar_on 2020 1 15))\<rparr>)
   \<and> map fst (daily_results (state_of (run_backtesting (Suc 0) quiet engine_days)))
       = [(2020, 1, 16), (2020, 1, 17)]"
proof -
  have "date_of (data_datetime (history_months ! 0))
          \<noteq> date_of (data_datetime (history_months ! 1))"
    by (simp add: history_months_def bar_on_def date_of_def)
  moreover have "day_boundary (engine_warm\<lparr>datetime := Some (data_datetime (history_months ! 0))\<rparr>)
         (history_months ! 1) = False"
    by (simp add: history_months_def bar_on_def day_boundary_def)
  ultimately show ?thesis
    using warm_up_history_months warm_up_history_days run_backtesting_months
      run_backtesting_days
    by (simp only: simp_thms)
qed

end
